theory Spec2Isabelle
  imports Complex_Main
begin

section \<open>Values of the host language\<close>

text \<open>
  The portal is TypeScript. Its numbers are modelled as real numbers: the conversions
  and comparisons below are taken exactly, the rounding of IEEE doubles is not part of
  the model. \<open>NaN\<close>, which \<open>Number.parseFloat\<close> returns for a token that does not begin
  a decimal literal, is a value of its own (\<open>jsnum\<close>). Strings are lists of 8-bit
  characters, read as the code units 0 to 255 of the source's strings. A \<open>Date\<close> is its
  time value in milliseconds since the epoch (an \<open>int\<close>); the first ten characters of its
  ISO form are modelled by the number of its UTC day, which determines them and is
  determined by them for the years 0100 to 9999 (an ISO year has more digits outside
  0000 to 9999, and \<open>Date.UTC\<close> reads a year below 100 as a year of the 1900s).
\<close>

datatype jsnum = Num real | NaN

text \<open>\<open>a >= b\<close> and \<open>a <= b\<close> of the source, false as soon as \<open>a\<close> is \<open>NaN\<close>.\<close>

fun js_ge :: "jsnum \<Rightarrow> real \<Rightarrow> bool" where
  "js_ge (Num a) b = (b \<le> a)"
| "js_ge NaN b = False"

fun js_le :: "jsnum \<Rightarrow> real \<Rightarrow> bool" where
  "js_le (Num a) b = (a \<le> b)"
| "js_le NaN b = False"

section \<open>The data model (types/index.ts)\<close>

text \<open>
  The unions of string literals are datatypes: the flight category, the training level
  (\<open>'student-pilot'\<close>, \<open>'private-pilot'\<close>, \<open>'instrument-rated'\<close>) and the status of a booking
  (\<open>'scheduled'\<close>, \<open>'weather-conflict'\<close>, \<open>'rescheduled'\<close>).
\<close>

datatype FlightCategory = VFR | MVFR | IFR

datatype TrainingLevel = StudentPilot | PrivatePilot | InstrumentRated

datatype bookingStatus = Scheduled | WeatherConflict | Rescheduled

record WeatherData =
  temperature :: real
  winds :: string
  visibility :: string
  sky :: string
  conditions :: FlightCategory
  timestamp :: int

section \<open>Flight category (determineFlightCategory)\<close>

text \<open>\<open>cloudCoveragePercent ?? 0\<close>: the coverage is 0 when the record carries none.\<close>

definition coverageOrZero :: "real option \<Rightarrow> real" where
  "coverageOrZero c = (case c of None \<Rightarrow> 0 | Some x \<Rightarrow> x)"

definition determineFlightCategory :: "real option \<Rightarrow> real option \<Rightarrow> FlightCategory" where
  "determineFlightCategory visibilityMeters cloudCoveragePercent =
     (case visibilityMeters of
        None \<Rightarrow> VFR
      | Some m \<Rightarrow>
          (let visibilitySm = m / 1609.34;
               coverage = coverageOrZero cloudCoveragePercent
           in if visibilitySm < 3 \<or> coverage \<ge> 85 then IFR
              else if visibilitySm < 5 \<or> coverage \<ge> 60 then MVFR
              else VFR))"

section \<open>Training minimums (trainingMinimumRules)\<close>

record MinimumRule =
  minVisibility :: real
  maxWind :: real
  allowedConditions :: "FlightCategory list"

fun trainingMinimumRules :: "TrainingLevel \<Rightarrow> MinimumRule" where
  "trainingMinimumRules StudentPilot =
     \<lparr>minVisibility = 5, maxWind = 15, allowedConditions = [VFR]\<rparr>"
| "trainingMinimumRules PrivatePilot =
     \<lparr>minVisibility = 3, maxWind = 20, allowedConditions = [VFR, MVFR]\<rparr>"
| "trainingMinimumRules InstrumentRated =
     \<lparr>minVisibility = 1, maxWind = 25, allowedConditions = [VFR, MVFR, IFR]\<rparr>"

section \<open>Text of numbers and of conditions\<close>

text \<open>
  Errors of the host language as values: a function that can throw returns \<open>error + 'a\<close>,
  the error on the left. \<open>TypeError\<close> is what reading a property of \<open>undefined\<close> throws;
  \<open>Error msg\<close> is \<open>new Error(msg)\<close>.
\<close>

datatype error = TypeError | Error string

definition digitChar :: "nat \<Rightarrow> char" where
  "digitChar d = ''0123456789'' ! d"

text \<open>The decimal digits of a natural number, as the host prints an integer.\<close>

fun showNat :: "nat \<Rightarrow> string" where
  "showNat n = (if n < 10 then [digitChar n] else showNat (n div 10) @ [digitChar (n mod 10)])"

declare showNat.simps [simp del]

text \<open>
  The string of an integral number in a template literal (magnitudes below \<open>10^21\<close>, where
  the host prints every digit).
\<close>

definition numberToString :: "int \<Rightarrow> string" where
  "numberToString n = (if n < 0 then ''-'' @ showNat (nat (- n)) else showNat (nat n))"

text \<open>\<open>Math.round\<close>: the nearest integer, a tie going up.\<close>

definition Math_round :: "real \<Rightarrow> int" where
  "Math_round x = \<lfloor>x + 1 / 2\<rfloor>"

text \<open>
  \<open>x.toFixed(1)\<close>: the sign, then the integer \<open>n\<close> nearest to ten times the magnitude (the
  larger one at a tie), printed with its last digit after the point (magnitudes below
  \<open>10^21\<close> again).
\<close>

definition toFixed1 :: "real \<Rightarrow> string" where
  "toFixed1 x =
     (let n = nat \<lfloor>\<bar>x\<bar> * 10 + 1 / 2\<rfloor>
      in (if x < 0 then ''-'' else []) @ showNat (n div 10) @ ''.'' @ [digitChar (n mod 10)])"

text \<open>
  \<open>toUpperCase\<close> on one character: the letters a to z go to A to Z. The case mapping of
  characters outside ASCII is not modelled; they are left as they are.
\<close>

definition toUpperChar :: "char \<Rightarrow> char" where
  "toUpperChar c =
     (case map_of (zip ''abcdefghijklmnopqrstuvwxyz'' ''ABCDEFGHIJKLMNOPQRSTUVWXYZ'') c of
        Some u \<Rightarrow> u
      | None \<Rightarrow> c)"

text \<open>\<open>Array.prototype.join\<close>.\<close>

fun join :: "string \<Rightarrow> string list \<Rightarrow> string" where
  "join sep [] = []"
| "join sep [x] = x"
| "join sep (x # y # ys) = x @ sep @ join sep (y # ys)"

section \<open>The normalizer (formatWinds, formatVisibility, buildSkySummary, mapCurrentWeather)\<close>

text \<open>
  The provider's record, with every optional part as an option (an absent field and a
  \<open>null\<close> are both \<open>None\<close>: the source tests them with \<open>== null\<close>, \<open>?.\<close> and \<open>??\<close> only).
  \<open>visibilityMeters\<close> is the record's field \<open>visibility\<close> and \<open>cloud_all\<close> its field
  \<open>clouds.all\<close>; \<open>dt\<close> is in seconds.
\<close>

record OpenWeatherCondition =
  description :: "string option"

record OpenWeatherWind =
  deg :: "real option"
  speed :: "real option"

record OpenWeatherMain =
  temp :: "real option"

record OpenWeatherClouds =
  cloud_all :: "real option"

record OpenWeatherEntry =
  dt :: int
  main :: "OpenWeatherMain option"
  wind :: "OpenWeatherWind option"
  visibilityMeters :: "real option"
  clouds :: "OpenWeatherClouds option"
  weather :: "OpenWeatherCondition option list option"

text \<open>
  The mark between the heading and \<open>at\<close>: the degree sign (code unit 176) in the backend,
  preceded by the code unit 194 in the portal's weather service. The two files are the
  same otherwise.
\<close>

definition degreeMark :: string where
  "degreeMark = [CHR 0xB0]"

definition degreeMarkPortal :: string where
  "degreeMarkPortal = [CHR 0xC2, CHR 0xB0]"

definition formatWindsWith :: "string \<Rightarrow> real option \<Rightarrow> real option \<Rightarrow> string" where
  "formatWindsWith mark degv speedMph =
     (case degv of
        None \<Rightarrow> ''Calm''
      | Some d \<Rightarrow>
          (case speedMph of
             None \<Rightarrow> ''Calm''
           | Some s \<Rightarrow>
               (let normalizedHeading = Math_round d;
                    knots = Math_round (s * 0.868976)
                in numberToString normalizedHeading @ mark @ '' at '' @
                   numberToString knots @ '' kts'')))"

definition formatWinds :: "real option \<Rightarrow> real option \<Rightarrow> string" where
  "formatWinds = formatWindsWith degreeMark"

definition formatVisibility :: "real option \<Rightarrow> string" where
  "formatVisibility vm =
     (case vm of
        None \<Rightarrow> ''N/A''
      | Some m \<Rightarrow> (let statuteMiles = m / 1609.34 in toFixed1 statuteMiles @ '' sm''))"

text \<open>
  \<open>description[0].toUpperCase() + description.slice(1)\<close>: on the empty string
  \<open>description[0]\<close> is \<open>undefined\<close> and the call of \<open>toUpperCase\<close> throws.
\<close>

fun capitalizeFirst :: "string \<Rightarrow> error + string" where
  "capitalizeFirst [] = Inl TypeError"
| "capitalizeFirst (c # cs) = Inr (toUpperChar c # cs)"

text \<open>The \<open>map\<close> over the descriptions stops at the first one that throws.\<close>

fun mapCapitalize :: "string list \<Rightarrow> error + string list" where
  "mapCapitalize [] = Inr []"
| "mapCapitalize (d # ds) =
     (case capitalizeFirst d of
        Inl e \<Rightarrow> Inl e
      | Inr u \<Rightarrow> (case mapCapitalize ds of Inl e \<Rightarrow> Inl e | Inr us \<Rightarrow> Inr (u # us)))"

definition buildSkySummary :: "string list \<Rightarrow> error + string" where
  "buildSkySummary weatherDescriptions =
     (if length weatherDescriptions = 0 then Inr ''Clear''
      else (case mapCapitalize weatherDescriptions of
              Inl e \<Rightarrow> Inl e
            | Inr us \<Rightarrow> Inr (join '', '' us)))"

text \<open>\<open>(payload.weather ?? []).map((item) => item?.description ?? 'conditions')\<close>.\<close>

definition descriptionList :: "OpenWeatherEntry \<Rightarrow> string list" where
  "descriptionList payload =
     map (\<lambda>item. case item of
                   None \<Rightarrow> ''conditions''
                 | Some it \<Rightarrow> (case description it of None \<Rightarrow> ''conditions'' | Some d \<Rightarrow> d))
         (case weather payload of None \<Rightarrow> [] | Some l \<Rightarrow> l)"

text \<open>
  The body shared by \<open>mapCurrentWeather\<close>, by the backend's \<open>mapForecastWeather\<close> on each
  entry and by the portal's \<open>mapForecastEntry\<close>; only the mark of the heading differs.
\<close>

definition mapWeatherWith :: "string \<Rightarrow> OpenWeatherEntry \<Rightarrow> error + WeatherData" where
  "mapWeatherWith mark payload =
     (case buildSkySummary (descriptionList payload) of
        Inl e \<Rightarrow> Inl e
      | Inr skySummary \<Rightarrow>
          Inr \<lparr>temperature =
                 (case main payload of
                    None \<Rightarrow> 0
                  | Some mn \<Rightarrow> (case temp mn of None \<Rightarrow> 0 | Some t \<Rightarrow> t)),
               winds =
                 formatWindsWith mark
                   (case wind payload of None \<Rightarrow> None | Some w \<Rightarrow> deg w)
                   (case wind payload of None \<Rightarrow> None | Some w \<Rightarrow> speed w),
               visibility = formatVisibility (visibilityMeters payload),
               sky = skySummary,
               conditions =
                 determineFlightCategory (visibilityMeters payload)
                   (case clouds payload of None \<Rightarrow> None | Some c \<Rightarrow> cloud_all c),
               timestamp = dt payload * 1000\<rparr>)"

definition mapCurrentWeather :: "OpenWeatherEntry \<Rightarrow> error + WeatherData" where
  "mapCurrentWeather = mapWeatherWith degreeMark"

definition mapForecastEntry :: "OpenWeatherEntry \<Rightarrow> error + WeatherData" where
  "mapForecastEntry = mapWeatherWith degreeMarkPortal"

section \<open>Reference definitions and sample inputs for the normalizer\<close>

text \<open>
  From the specification's words, for comparison with \<open>buildSkySummary\<close>: a description
  "capitalized per-word-initial", the first letter of each of its words (the words being
  separated by blanks) in upper case.
\<close>

fun capitalizeWordsFrom :: "bool \<Rightarrow> string \<Rightarrow> string" where
  "capitalizeWordsFrom atStart [] = []"
| "capitalizeWordsFrom atStart (c # cs) =
     (if c = CHR '' '' then c # capitalizeWordsFrom True cs
      else (if atStart then toUpperChar c else c) # capitalizeWordsFrom False cs)"

definition spec_capitalizeWords :: "string \<Rightarrow> string" where
  "spec_capitalizeWords s = capitalizeWordsFrom True s"

text \<open>Two provider records: one whose only condition has the empty description, one complete.\<close>

definition emptyDescriptionPayload :: OpenWeatherEntry where
  "emptyDescriptionPayload =
     \<lparr>dt = 0, main = None, wind = None, visibilityMeters = None, clouds = None,
      weather = Some [Some \<lparr>description = Some []\<rparr>]\<rparr>"

definition samplePayload :: OpenWeatherEntry where
  "samplePayload =
     \<lparr>dt = 1700000000, main = Some \<lparr>temp = Some 55.4\<rparr>,
      wind = Some \<lparr>deg = Some 272.4, speed = Some 10\<rparr>,
      visibilityMeters = Some 8046.7, clouds = Some \<lparr>cloud_all = Some 40\<rparr>,
      weather = Some [Some \<lparr>description = Some ''broken clouds''\<rparr>, None]\<rparr>"

section \<open>Minimums (parseVisibilityMiles, parseWindSpeedKts, meetsStudentMinimums)\<close>

text \<open>
  The character classes of the regular expressions: \<open>\d\<close>, \<open>[\d.]\<close> and \<open>\s\<close> (the white
  space and line terminators among the code units 0 to 255). Under the flag \<open>i\<close> a letter
  of the pattern matches its two ASCII cases and nothing else.
\<close>

definition isDigit :: "char \<Rightarrow> bool" where
  "isDigit c = (c \<in> set ''0123456789'')"

definition isTokenChar :: "char \<Rightarrow> bool" where
  "isTokenChar c = (isDigit c \<or> c = CHR ''.'')"

definition isSpace :: "char \<Rightarrow> bool" where
  "isSpace c = (c \<in> set [CHR 0x09, CHR 0x0A, CHR 0x0B, CHR 0x0C, CHR 0x0D, CHR 0x20, CHR 0xA0])"

definition toLowerChar :: "char \<Rightarrow> char" where
  "toLowerChar c =
     (case map_of (zip ''ABCDEFGHIJKLMNOPQRSTUVWXYZ'' ''abcdefghijklmnopqrstuvwxyz'') c of
        Some l \<Rightarrow> l
      | None \<Rightarrow> c)"

text \<open>Whether the string starts with the word, letter case apart.\<close>

definition startsWithCI :: "string \<Rightarrow> string \<Rightarrow> bool" where
  "startsWithCI word s = (map toLowerChar (take (length word) s) = word)"

text \<open>
  \<open>value.match(/([\d.]+)/)\<close>: the leftmost match starts at the first digit or point and,
  the quantifier being greedy, runs to the end of that run of digits and points.
\<close>

definition matchToken :: "string \<Rightarrow> string option" where
  "matchToken v =
     (let r = dropWhile (\<lambda>c. \<not> isTokenChar c) v
      in if r = [] then None else Some (takeWhile isTokenChar r))"

text \<open>
  \<open>/([\d.]+)\s*kts/i\<close> tried at the start of \<open>s\<close>. The group takes the whole run of digits
  and points and \<open>\s*\<close> all the white space after it: giving characters back cannot help,
  since what would follow the group is then a digit, a point or a white space, never the
  letter k.
\<close>

definition matchKtsHere :: "string \<Rightarrow> string option" where
  "matchKtsHere s =
     (let tok = takeWhile isTokenChar s;
          rest = dropWhile isSpace (dropWhile isTokenChar s)
      in if tok \<noteq> [] \<and> startsWithCI ''kts'' rest then Some tok else None)"

text \<open>\<open>value.match(/([\d.]+)\s*kts/i)\<close>: the match at the leftmost position that has one.\<close>

fun matchKts :: "string \<Rightarrow> string option" where
  "matchKts [] = None"
| "matchKts (c # cs) =
     (case matchKtsHere (c # cs) of Some t \<Rightarrow> Some t | None \<Rightarrow> matchKts cs)"

text \<open>\<open>/calm/i.test(value)\<close>: the word occurs somewhere in the string, in any letter case.\<close>

fun testCalm :: "string \<Rightarrow> bool" where
  "testCalm [] = False"
| "testCalm (c # cs) = (startsWithCI ''calm'' (c # cs) \<or> testCalm cs)"

definition digitValue :: "char \<Rightarrow> nat" where
  "digitValue c = length (takeWhile (\<lambda>d. d \<noteq> c) ''0123456789'')"

definition digitsValue :: "string \<Rightarrow> nat" where
  "digitsValue ds = foldl (\<lambda>a c. 10 * a + digitValue c) 0 ds"

text \<open>
  \<open>Number.parseFloat\<close> on a token of digits and points (the only strings it is given
  here): the value of the longest prefix that is a decimal literal, which is digits, then
  possibly a point and digits, or a point and at least one digit; \<open>NaN\<close> when no prefix is
  one.
\<close>

definition parseFloat :: "string \<Rightarrow> jsnum" where
  "parseFloat t =
     (let ip = takeWhile isDigit t;
          rest = dropWhile isDigit t
      in case rest of
           [] \<Rightarrow> if ip = [] then NaN else Num (real (digitsValue ip))
         | c # fs \<Rightarrow>
             if c = CHR ''.''
             then (let fp = takeWhile isDigit fs
                   in if ip = [] \<and> fp = [] then NaN
                      else Num (real (digitsValue ip) + real (digitsValue fp) / 10 ^ length fp))
             else if ip = [] then NaN else Num (real (digitsValue ip)))"

text \<open>The results are \<open>number | undefined\<close>: \<open>None\<close> is \<open>undefined\<close>.\<close>

definition parseVisibilityMiles :: "string \<Rightarrow> jsnum option" where
  "parseVisibilityMiles v =
     (case matchToken v of None \<Rightarrow> None | Some t \<Rightarrow> Some (parseFloat t))"

definition parseWindSpeedKts :: "string \<Rightarrow> jsnum option" where
  "parseWindSpeedKts v =
     (if testCalm v then Some (Num 0)
      else (case matchKts v of None \<Rightarrow> None | Some t \<Rightarrow> Some (parseFloat t)))"

text \<open>Of a student the minimums read the training level only; the other fields are left out.\<close>

record Student =
  name :: string
  trainingLevel :: TrainingLevel

definition meetsStudentMinimums :: "Student \<Rightarrow> WeatherData \<Rightarrow> bool" where
  "meetsStudentMinimums student w =
     (let rules = trainingMinimumRules (trainingLevel student);
          vis = parseVisibilityMiles (visibility w);
          windSpeed = parseWindSpeedKts (winds w);
          visibilityOk = (case vis of None \<Rightarrow> True | Some v \<Rightarrow> js_ge v (minVisibility rules));
          windOk = (case windSpeed of None \<Rightarrow> True | Some k \<Rightarrow> js_le k (maxWind rules));
          conditionsOk = (conditions w \<in> set (allowedConditions rules))
      in visibilityOk \<and> windOk \<and> conditionsOk)"

text \<open>
  From the specification's words, for comparison with \<open>meetsStudentMinimums\<close>: the parsed
  visibility is the number of the first token of the summary when that token is one; the
  parsed wind speed is 0 when the summary is "Calm" and otherwise the number of the token
  before "kts"; a field that has no parsed number passes its check.
\<close>

definition numberOf :: "string option \<Rightarrow> real option" where
  "numberOf tok =
     (case tok of
        None \<Rightarrow> None
      | Some t \<Rightarrow> (case parseFloat t of NaN \<Rightarrow> None | Num x \<Rightarrow> Some x))"

definition spec_parsedVisibility :: "string \<Rightarrow> real option" where
  "spec_parsedVisibility v = numberOf (matchToken v)"

definition spec_parsedWindSpeed :: "string \<Rightarrow> real option" where
  "spec_parsedWindSpeed v = (if v = ''Calm'' then Some 0 else numberOf (matchKts v))"

definition spec_passes :: "TrainingLevel \<Rightarrow> WeatherData \<Rightarrow> bool" where
  "spec_passes level w =
     ((case spec_parsedVisibility (visibility w) of
         None \<Rightarrow> True
       | Some x \<Rightarrow> x \<ge> minVisibility (trainingMinimumRules level)) \<and>
      (case spec_parsedWindSpeed (winds w) of
         None \<Rightarrow> True
       | Some k \<Rightarrow> k \<le> maxWind (trainingMinimumRules level)) \<and>
      conditions w \<in> set (allowedConditions (trainingMinimumRules level)))"

text \<open>Sample readings and a student pilot.\<close>

definition studentPilot :: Student where
  "studentPilot = \<lparr>name = ''Alex'', trainingLevel = StudentPilot\<rparr>"

definition gustyReading :: WeatherData where
  "gustyReading =
     \<lparr>temperature = 60, winds = ''Calm, gusts 30 kts'', visibility = ''10.0 sm'',
      sky = ''Clear'', conditions = VFR, timestamp = 0\<rparr>"

definition fairReading :: WeatherData where
  "fairReading =
     \<lparr>temperature = 60, winds = ''272'' @ degreeMarkPortal @ '' at 9 kts'',
      visibility = ''5.0 sm'', sky = ''Clear'', conditions = VFR, timestamp = 0\<rparr>"

definition pointReading :: WeatherData where
  "pointReading =
     \<lparr>temperature = 60, winds = ''Calm'', visibility = ''approx. 10 sm'',
      sky = ''Clear'', conditions = VFR, timestamp = 0\<rparr>"

section \<open>The forecast aggregator (fetchWeatherForecast, the forecast handler)\<close>

definition MS_PER_DAY :: int where
  "MS_PER_DAY = 1000 * 60 * 60 * 24"

text \<open>
  \<open>date.toISOString().slice(0, 10)\<close>, the UTC calendar date of a time value, as the number
  of its UTC day; and \<open>getUTCHours\<close>.
\<close>

definition getDateKey :: "int \<Rightarrow> int" where
  "getDateKey t = t div MS_PER_DAY"

definition getUTCHours :: "int \<Rightarrow> int" where
  "getUTCHours t = (t div (1000 * 60 * 60)) mod 24"

text \<open>\<open>new Date(entry.dt * 1000).toISOString().slice(0, 10)\<close>.\<close>

definition entryDateKey :: "OpenWeatherEntry \<Rightarrow> int" where
  "entryDateKey entry = getDateKey (dt entry * 1000)"

text \<open>
  The \<open>Map\<close> from date keys to entry lists is a list of pairs in insertion order. One
  round of the grouping loop: a new key is appended with its first entry, a known key has
  the entry pushed onto its list.
\<close>

fun pushGrouped ::
  "int \<Rightarrow> OpenWeatherEntry \<Rightarrow> (int \<times> OpenWeatherEntry list) list \<Rightarrow>
   (int \<times> OpenWeatherEntry list) list" where
  "pushGrouped k e [] = [(k, [e])]"
| "pushGrouped k e ((k', es) # grouped) =
     (if k' = k then (k', es @ [e]) # grouped else (k', es) # pushGrouped k e grouped)"

definition groupByDate :: "OpenWeatherEntry list \<Rightarrow> (int \<times> OpenWeatherEntry list) list" where
  "groupByDate entries = foldl (\<lambda>grouped e. pushGrouped (entryDateKey e) e grouped) [] entries"

text \<open>The predicate of \<open>find\<close>: the UTC hour of the entry is from 15 to 21.\<close>

definition isMidday :: "OpenWeatherEntry \<Rightarrow> bool" where
  "isMidday item = (let hour = getUTCHours (dt item * 1000) in hour \<ge> 15 \<and> hour \<le> 21)"

text \<open>
  \<open>dayEntries.find(...) ?? dayEntries[Math.floor(dayEntries.length / 2)]\<close>; reading past
  the end gives \<open>undefined\<close>, here \<open>None\<close>.
\<close>

definition middayEntry :: "OpenWeatherEntry list \<Rightarrow> OpenWeatherEntry option" where
  "middayEntry dayEntries =
     (case find isMidday dayEntries of
        Some e \<Rightarrow> Some e
      | None \<Rightarrow>
          (if length dayEntries div 2 < length dayEntries
           then Some (dayEntries ! (length dayEntries div 2)) else None))"

text \<open>
  The loop over the groups, with the summaries pushed so far: the representative of the
  group is normalized (an \<open>undefined\<close> entry makes the normalizer throw) and pushed, and the
  loop breaks as soon as the summaries are \<open>maxDays\<close> many.
\<close>

fun summarizeLoop ::
  "(OpenWeatherEntry \<Rightarrow> error + WeatherData) \<Rightarrow> int \<Rightarrow>
   (int \<times> OpenWeatherEntry list) list \<Rightarrow> WeatherData list \<Rightarrow> error + WeatherData list" where
  "summarizeLoop normalizer maxDays [] summaries = Inr summaries"
| "summarizeLoop normalizer maxDays ((k, dayEntries) # grouped) summaries =
     (case middayEntry dayEntries of
        None \<Rightarrow> Inl TypeError
      | Some e \<Rightarrow>
          (case normalizer e of
             Inl err \<Rightarrow> Inl err
           | Inr w \<Rightarrow>
               (if int (length (summaries @ [w])) \<ge> maxDays then Inr (summaries @ [w])
                else summarizeLoop normalizer maxDays grouped (summaries @ [w]))))"

text \<open>
  The grouping and the loop, which the portal's \<open>fetchWeatherForecast\<close> and the backend's
  handler share, from the entries and the day count (an integer: the handler parses it
  with \<open>parseInt\<close>, the portal passes 7).
\<close>

definition summarizeForecast ::
  "(OpenWeatherEntry \<Rightarrow> error + WeatherData) \<Rightarrow> OpenWeatherEntry list \<Rightarrow> int \<Rightarrow>
   error + WeatherData list" where
  "summarizeForecast normalizer entries days =
     (let grouped = groupByDate entries;
          maxDays = min (max days 1) 7
      in summarizeLoop normalizer maxDays grouped [])"

text \<open>
  What the provider answers to a forecast request: nothing usable (the key is not
  configured, the request fails, the status is not ok or the body is no JSON), or a body
  with its optional \<open>list\<close>.
\<close>

datatype forecastResponse = Unavailable | Forecast "OpenWeatherEntry list option"

text \<open>The portal's \<open>fetchWeatherForecast\<close>: whatever is thrown is logged and \<open>[]\<close> returned.\<close>

definition fetchWeatherForecast :: "forecastResponse \<Rightarrow> int \<Rightarrow> WeatherData list" where
  "fetchWeatherForecast response days =
     (case response of
        Unavailable \<Rightarrow> []
      | Forecast l \<Rightarrow>
          (case summarizeForecast mapForecastEntry (case l of None \<Rightarrow> [] | Some es \<Rightarrow> es) days of
             Inl err \<Rightarrow> []
           | Inr summaries \<Rightarrow> summaries))"

text \<open>
  The backend's handler, for a request that has its \<open>lat\<close> and \<open>lon\<close>:
  \<open>parseInt(String(days), 10) || 3\<close> with \<open>None\<close> for \<open>NaN\<close>, and the daily summaries or the
  error of the status 500. \<open>mapForecastWeather([entry])[0]\<close> has the body of
  \<open>mapCurrentWeather\<close>.
\<close>

definition handlerDays :: "int option \<Rightarrow> int" where
  "handlerDays parsed =
     min (max (case parsed of None \<Rightarrow> 3 | Some n \<Rightarrow> if n = 0 then 3 else n) 1) 7"

definition forecastHandler :: "forecastResponse \<Rightarrow> int option \<Rightarrow> error + WeatherData list" where
  "forecastHandler response parsed =
     (case response of
        Unavailable \<Rightarrow> Inl (Error ''Unable to fetch forecast weather'')
      | Forecast l \<Rightarrow>
          (case summarizeLoop mapCurrentWeather (handlerDays parsed)
                  (groupByDate (case l of None \<Rightarrow> [] | Some es \<Rightarrow> es)) [] of
             Inl err \<Rightarrow> Inl (Error ''Unable to fetch forecast weather'')
           | Inr dailySummaries \<Rightarrow> Inr dailySummaries))"

text \<open>
  From the specification's words, for comparison with \<open>summarizeForecast\<close>: the dates in
  the order of their first occurrence, the entries of a date, the representative of a
  date's entries, and the result of normalizing each element of a list in order.
\<close>

fun firstOccurrences :: "int list \<Rightarrow> int list" where
  "firstOccurrences [] = []"
| "firstOccurrences (x # xs) = x # filter (\<lambda>y. y \<noteq> x) (firstOccurrences xs)"

definition spec_dates :: "OpenWeatherEntry list \<Rightarrow> int list" where
  "spec_dates entries = firstOccurrences (map entryDateKey entries)"

definition spec_entriesOf :: "OpenWeatherEntry list \<Rightarrow> int \<Rightarrow> OpenWeatherEntry list" where
  "spec_entriesOf entries d = filter (\<lambda>e. entryDateKey e = d) entries"

definition spec_representative :: "OpenWeatherEntry list \<Rightarrow> OpenWeatherEntry" where
  "spec_representative dayEntries =
     (case find isMidday dayEntries of
        Some e \<Rightarrow> e
      | None \<Rightarrow> dayEntries ! (length dayEntries div 2))"

fun mapResult :: "('a \<Rightarrow> error + 'b) \<Rightarrow> 'a list \<Rightarrow> error + 'b list" where
  "mapResult f [] = Inr []"
| "mapResult f (x # xs) =
     (case f x of
        Inl err \<Rightarrow> Inl err
      | Inr y \<Rightarrow> (case mapResult f xs of Inl err \<Rightarrow> Inl err | Inr ys \<Rightarrow> Inr (y # ys)))"

text \<open>
  An entry none of whose condition descriptions is the empty string (the normalizer does
  not throw on it), and a week of entries every three hours from a UTC midnight on.
\<close>

definition noEmptyDescription :: "OpenWeatherEntry \<Rightarrow> bool" where
  "noEmptyDescription e = list_all (\<lambda>d. d \<noteq> []) (descriptionList e)"

definition forecastSample :: "OpenWeatherEntry list" where
  "forecastSample =
     map (\<lambda>k. \<lparr>dt = 1700006400 + 10800 * int k, main = None, wind = None,
                visibilityMeters = None, clouds = None, weather = None\<rparr>) [0..<56]"

text \<open>
  The same week with the empty description on its sixth entry, the one of 15:00 UTC on the
  first day.
\<close>

definition brokenWeek :: "OpenWeatherEntry list" where
  "brokenWeek =
     forecastSample
       [5 := (forecastSample ! 5)\<lparr>weather := Some [Some \<lparr>description = Some []\<rparr>]\<rparr>]"

section \<open>The conflict scan (the dashboard's effect and evaluateConflicts)\<close>

text \<open>
  A booking. \<open>bookingId\<close> is the source's \<open>id\<close> and \<open>placeName\<close> the \<open>name\<close> of the departure
  location; \<open>scheduledDate\<close> is a time value in milliseconds.
\<close>

record Location =
  lat :: real
  lon :: real
  placeName :: string

record FlightBooking =
  bookingId :: string
  studentId :: string
  scheduledDate :: int
  aircraft :: string
  instructor :: string
  departureLocation :: Location
  status :: bookingStatus

text \<open>
  \<open>LOCATION_KEY\<close> prints the latitude and the longitude into one string; the key is
  modelled by the pair of the two numbers, which the string determines.
\<close>

definition LOCATION_KEY :: "Location \<Rightarrow> real \<times> real" where
  "LOCATION_KEY location = (lat location, lon location)"

text \<open>
  The dashboard reads calendar dates in local time. \<open>tz\<close> gives, for a time value, the
  offset of local time from UTC in milliseconds.
  \<open>Date.UTC(d.getFullYear(), d.getMonth(), d.getDate())\<close> is the UTC midnight of the local
  calendar date of \<open>d\<close>.
\<close>

definition localDateUtc :: "(int \<Rightarrow> int) \<Rightarrow> int \<Rightarrow> int" where
  "localDateUtc tz d = ((d + tz d) div MS_PER_DAY) * MS_PER_DAY"

definition differenceInDays :: "(int \<Rightarrow> int) \<Rightarrow> int \<Rightarrow> int \<Rightarrow> int" where
  "differenceInDays tz fromDate toDate =
     (let fromUtc = localDateUtc tz fromDate;
          toUtc = localDateUtc tz toDate
      in (toUtc - fromUtc) div MS_PER_DAY)"

text \<open>The filter of the effect: the lessons that are not rescheduled and lie in the window.\<close>

definition isRelevant :: "(int \<Rightarrow> int) \<Rightarrow> int \<Rightarrow> FlightBooking \<Rightarrow> bool" where
  "isRelevant tz now lesson =
     (if status lesson = Rescheduled then False
      else (let diffDays = differenceInDays tz now (scheduledDate lesson)
            in diffDays \<ge> 0 \<and> diffDays < 7))"

text \<open>
  What an updater returns for a lesson: the object it was given, or a new object (a copy
  with another status). What it returns for the state: the previous array itself, or a
  new array. The flag \<open>changed\<close> of the source is set in exactly the branches that return a
  new object.
\<close>

datatype lessonRef = SameObject FlightBooking | NewObject FlightBooking

datatype stateUpdate = SamePrev | NewArray "lessonRef list"

fun valueOf :: "lessonRef \<Rightarrow> FlightBooking" where
  "valueOf (SameObject b) = b"
| "valueOf (NewObject b) = b"

fun isNewObject :: "lessonRef \<Rightarrow> bool" where
  "isNewObject (SameObject b) = False"
| "isNewObject (NewObject b) = True"

text \<open>The lessons of the state after the update.\<close>

fun stateAfter :: "FlightBooking list \<Rightarrow> stateUpdate \<Rightarrow> FlightBooking list" where
  "stateAfter prev SamePrev = prev"
| "stateAfter prev (NewArray refs) = map valueOf refs"

text \<open>The updater of the branch without relevant lessons.\<close>

definition clearLesson :: "FlightBooking \<Rightarrow> lessonRef" where
  "clearLesson lesson =
     (if status lesson = Rescheduled then SameObject lesson
      else if status lesson \<noteq> Scheduled then NewObject (lesson\<lparr>status := Scheduled\<rparr>)
      else SameObject lesson)"

definition clearUpdater :: "FlightBooking list \<Rightarrow> stateUpdate" where
  "clearUpdater prev =
     (let next = map clearLesson prev;
          changed = list_ex isNewObject next
      in if changed then NewArray next else SamePrev)"

text \<open>
  \<open>new Map(...)\<close> over the pairs of key and location, and its values: a key keeps the
  place of its first pair and takes the location of its last.
\<close>

fun mapSet :: "'k \<Rightarrow> 'v \<Rightarrow> ('k \<times> 'v) list \<Rightarrow> ('k \<times> 'v) list" where
  "mapSet k v [] = [(k, v)]"
| "mapSet k v ((k', v') # m) = (if k' = k then (k, v) # m else (k', v') # mapSet k v m)"

definition uniqueLocations :: "FlightBooking list \<Rightarrow> Location list" where
  "uniqueLocations relevantLessons =
     map snd
       (foldl (\<lambda>m lesson. mapSet (LOCATION_KEY (departureLocation lesson))
                              (departureLocation lesson) m)
          [] relevantLessons)"

text \<open>
  The forecasts of the scan: one request for each unique location, with seven days. The
  provider gives the answer to the request for a latitude and a longitude.
  \<open>fetchWeatherForecast\<close> never rejects, so \<open>Promise.all\<close> always delivers.
\<close>

definition forecastEntries ::
  "(real \<Rightarrow> real \<Rightarrow> forecastResponse) \<Rightarrow> Location list \<Rightarrow>
   ((real \<times> real) \<times> WeatherData list) list" where
  "forecastEntries provider locations =
     map (\<lambda>location.
            (LOCATION_KEY location,
             fetchWeatherForecast (provider (lat location) (lon location)) 7))
       locations"

text \<open>\<open>forecastMap.get(locationKey) ?? []\<close>.\<close>

definition forecastOf ::
  "((real \<times> real) \<times> WeatherData list) list \<Rightarrow> real \<times> real \<Rightarrow> WeatherData list" where
  "forecastOf forecastMap locationKey =
     (case map_of forecastMap locationKey of None \<Rightarrow> [] | Some daily \<Rightarrow> daily)"

text \<open>The updater of \<open>evaluateConflicts\<close>, for one lesson.\<close>

definition evaluateLesson ::
  "(int \<Rightarrow> int) \<Rightarrow> Student \<Rightarrow> int \<Rightarrow> ((real \<times> real) \<times> WeatherData list) list \<Rightarrow>
   FlightBooking \<Rightarrow> lessonRef" where
  "evaluateLesson tz student today forecastMap lesson =
     (if status lesson = Rescheduled then SameObject lesson
      else
        (let diffDays = differenceInDays tz today (scheduledDate lesson)
         in if diffDays < 0 \<or> diffDays \<ge> 7
            then (if status lesson \<noteq> Scheduled
                  then NewObject (lesson\<lparr>status := Scheduled\<rparr>)
                  else SameObject lesson)
            else
              (let locationKey = LOCATION_KEY (departureLocation lesson);
                   dailyForecast = forecastOf forecastMap locationKey;
                   targetDateKey = getDateKey (scheduledDate lesson);
                   forecastForDay =
                     find (\<lambda>entry. getDateKey (timestamp entry) = targetDateKey) dailyForecast;
                   nextStatus =
                     (case forecastForDay of
                        None \<Rightarrow> Scheduled
                      | Some f \<Rightarrow>
                          if \<not> meetsStudentMinimums student f then WeatherConflict
                          else Scheduled)
               in if status lesson \<noteq> nextStatus
                  then NewObject (lesson\<lparr>status := nextStatus\<rparr>)
                  else SameObject lesson)))"

definition evaluateUpdater ::
  "(int \<Rightarrow> int) \<Rightarrow> Student \<Rightarrow> int \<Rightarrow> ((real \<times> real) \<times> WeatherData list) list \<Rightarrow>
   FlightBooking list \<Rightarrow> stateUpdate" where
  "evaluateUpdater tz student today forecastMap prev =
     (let next = map (evaluateLesson tz student today forecastMap) prev;
          changed = list_ex isNewObject next
      in if changed then NewArray next else SamePrev)"

text \<open>
  One run of the effect for a student that is found, not superseded before its state
  write, the state at the write being the lessons that the effect has read: \<open>now\<close> is the
  clock when the effect starts, \<open>today\<close> the clock when the forecasts have arrived. With no
  lessons the effect returns at once.
\<close>

definition scanForecastMap ::
  "(int \<Rightarrow> int) \<Rightarrow> (real \<Rightarrow> real \<Rightarrow> forecastResponse) \<Rightarrow> int \<Rightarrow> FlightBooking list \<Rightarrow>
   ((real \<times> real) \<times> WeatherData list) list" where
  "scanForecastMap tz provider now lessons =
     forecastEntries provider (uniqueLocations (filter (isRelevant tz now) lessons))"

definition scanConflicts ::
  "(int \<Rightarrow> int) \<Rightarrow> Student \<Rightarrow> (real \<Rightarrow> real \<Rightarrow> forecastResponse) \<Rightarrow> int \<Rightarrow> int \<Rightarrow>
   FlightBooking list \<Rightarrow> stateUpdate" where
  "scanConflicts tz student provider now today lessons =
     (if length lessons = 0 then SamePrev
      else
        (let relevantLessons = filter (isRelevant tz now) lessons
         in if length relevantLessons = 0 then clearUpdater lessons
            else evaluateUpdater tz student today
                   (scanForecastMap tz provider now lessons) lessons))"

text \<open>
  Words of the claims about the scan: a booking lies in the window of a clock reading;
  the status that the forecast of its day gives it.
\<close>

definition inWindow :: "(int \<Rightarrow> int) \<Rightarrow> int \<Rightarrow> FlightBooking \<Rightarrow> bool" where
  "inWindow tz clock lesson =
     (0 \<le> differenceInDays tz clock (scheduledDate lesson) \<and>
      differenceInDays tz clock (scheduledDate lesson) < 7)"

definition forecastForDay :: "WeatherData list \<Rightarrow> FlightBooking \<Rightarrow> WeatherData option" where
  "forecastForDay dailyForecast lesson =
     find (\<lambda>entry. getDateKey (timestamp entry) = getDateKey (scheduledDate lesson)) dailyForecast"

definition statusFor :: "Student \<Rightarrow> WeatherData option \<Rightarrow> bookingStatus" where
  "statusFor student entry =
     (case entry of
        None \<Rightarrow> Scheduled
      | Some f \<Rightarrow> if meetsStudentMinimums student f then Scheduled else WeatherConflict)"

text \<open>
  The step that a scan applies to each lesson of the state: that of the clearing updater
  when no lesson is relevant, that of \<open>evaluateConflicts\<close> otherwise.
\<close>

definition scanStep ::
  "(int \<Rightarrow> int) \<Rightarrow> Student \<Rightarrow> (real \<Rightarrow> real \<Rightarrow> forecastResponse) \<Rightarrow> int \<Rightarrow> int \<Rightarrow>
   FlightBooking list \<Rightarrow> FlightBooking \<Rightarrow> lessonRef" where
  "scanStep tz student provider now today lessons =
     (if filter (isRelevant tz now) lessons = [] then clearLesson
      else evaluateLesson tz student today (scanForecastMap tz provider now lessons))"

text \<open>
  A scan to evaluate: a private pilot, the clock at the UTC midnight of day 19676 in a
  UTC time zone, and four lessons. Two days later the forecast at Flying Cloud has a
  visibility of 2.5 miles and 22 knots of wind; the forecast for St. Paul cannot be
  fetched.
\<close>

definition utc :: "int \<Rightarrow> int" where
  "utc t = 0"

definition privatePilot :: Student where
  "privatePilot = \<lparr>name = ''Sam'', trainingLevel = PrivatePilot\<rparr>"

definition flyingCloud :: Location where
  "flyingCloud = \<lparr>lat = 44.827, lon = - 93.457, placeName = ''Flying Cloud Airport (FCM)''\<rparr>"

definition stPaul :: Location where
  "stPaul = \<lparr>lat = 44.934, lon = - 93.06, placeName = ''St. Paul Downtown (STP)''\<rparr>"

definition scanClock :: int where
  "scanClock = 1700006400000"

definition badDay :: OpenWeatherEntry where
  "badDay =
     \<lparr>dt = 1700244000, main = Some \<lparr>temp = Some 41\<rparr>,
      wind = Some \<lparr>deg = Some 200, speed = Some 25.3\<rparr>,
      visibilityMeters = Some 4023.35, clouds = Some \<lparr>cloud_all = Some 40\<rparr>,
      weather = Some [Some \<lparr>description = Some ''mist''\<rparr>]\<rparr>"

definition badReading :: WeatherData where
  "badReading =
     \<lparr>temperature = 41, winds = ''200'' @ degreeMarkPortal @ '' at 22 kts'',
      visibility = ''2.5 sm'', sky = ''Mist'', conditions = IFR,
      timestamp = 1700244000000\<rparr>"

definition sampleProvider :: "real \<Rightarrow> real \<Rightarrow> forecastResponse" where
  "sampleProvider la lo =
     (if la = 44.827 \<and> lo = - 93.457 then Forecast (Some [badDay]) else Unavailable)"

definition lessonConflict :: FlightBooking where
  "lessonConflict =
     \<lparr>bookingId = ''b1'', studentId = ''s2'', scheduledDate = 1700229600000,
      aircraft = ''N123AB'', instructor = ''Lee'', departureLocation = flyingCloud,
      status = Scheduled\<rparr>"

definition lessonRescheduled :: FlightBooking where
  "lessonRescheduled =
     \<lparr>bookingId = ''b2'', studentId = ''s2'', scheduledDate = 1700229600000,
      aircraft = ''N123AB'', instructor = ''Lee'', departureLocation = flyingCloud,
      status = Rescheduled\<rparr>"

definition lessonFar :: FlightBooking where
  "lessonFar =
     \<lparr>bookingId = ''b3'', studentId = ''s2'', scheduledDate = 1700870400000,
      aircraft = ''N123AB'', instructor = ''Lee'', departureLocation = flyingCloud,
      status = WeatherConflict\<rparr>"

definition lessonNoForecast :: FlightBooking where
  "lessonNoForecast =
     \<lparr>bookingId = ''b4'', studentId = ''s2'', scheduledDate = 1700229600000,
      aircraft = ''N456CD'', instructor = ''Lee'', departureLocation = stPaul,
      status = WeatherConflict\<rparr>"

definition scanLessons :: "FlightBooking list" where
  "scanLessons = [lessonConflict, lessonRescheduled, lessonFar, lessonNoForecast]"

text \<open>
  From the specification's words, for comparison with the scan: the status that the rule
  "rescheduled bookings are not touched, bookings outside the window of seven days are
  set to Scheduled, a booking in the window is set to WeatherConflict when the forecast
  has an entry of the booking's calendar date that fails the minimums, and to Scheduled
  otherwise" gives a booking, when every calendar date of the rule is read in one
  calendar. \<open>calendarDay\<close> gives the number of the calendar day of a time value.
\<close>

definition spec_scanStatus ::
  "(int \<Rightarrow> int) \<Rightarrow> Student \<Rightarrow> int \<Rightarrow> WeatherData list \<Rightarrow> FlightBooking \<Rightarrow> bookingStatus" where
  "spec_scanStatus calendarDay student clock dailyForecast lesson =
     (if status lesson = Rescheduled then Rescheduled
      else if \<not> (0 \<le> calendarDay (scheduledDate lesson) - calendarDay clock \<and>
                  calendarDay (scheduledDate lesson) - calendarDay clock < 7)
      then Scheduled
      else if list_ex (\<lambda>entry. calendarDay (timestamp entry) = calendarDay (scheduledDate lesson) \<and>
                               \<not> meetsStudentMinimums student entry) dailyForecast
      then WeatherConflict
      else Scheduled)"

text \<open>
  A second scan to evaluate, in a time zone six hours behind UTC: the clock at noon local
  time of day 19676; a lesson at 20:00 local time two days later (02:00 UTC of the day
  after), a lesson at 20:00 local time six days later, and a lesson at 08:00 local time
  seven days later. The forecast at Flying Cloud has the poor reading of UTC day 19678, a
  fair reading of UTC day 19679 and the poor reading again on UTC day 19683.
\<close>

definition central :: "int \<Rightarrow> int" where
  "central t = - 21600000"

definition zoneClock :: int where
  "zoneClock = 1700071200000"

definition fairDay :: OpenWeatherEntry where
  "fairDay =
     \<lparr>dt = 1700330400, main = Some \<lparr>temp = Some 55.4\<rparr>,
      wind = Some \<lparr>deg = Some 272.4, speed = Some 10\<rparr>,
      visibilityMeters = Some 16093.4, clouds = Some \<lparr>cloud_all = Some 10\<rparr>,
      weather = Some [Some \<lparr>description = Some ''clear sky''\<rparr>]\<rparr>"

definition fairDayReading :: WeatherData where
  "fairDayReading =
     \<lparr>temperature = 55.4, winds = ''272'' @ degreeMarkPortal @ '' at 9 kts'',
      visibility = ''10.0 sm'', sky = ''Clear sky'', conditions = VFR,
      timestamp = 1700330400000\<rparr>"

definition zoneProvider :: "real \<Rightarrow> real \<Rightarrow> forecastResponse" where
  "zoneProvider la lo =
     (if la = 44.827 \<and> lo = - 93.457
      then Forecast (Some [badDay, fairDay, badDay\<lparr>dt := 1700676000\<rparr>])
      else Unavailable)"

definition eveningLesson :: FlightBooking where
  "eveningLesson =
     \<lparr>bookingId = ''b5'', studentId = ''s2'', scheduledDate = 1700272800000,
      aircraft = ''N123AB'', instructor = ''Lee'', departureLocation = flyingCloud,
      status = Scheduled\<rparr>"

definition lateLesson :: FlightBooking where
  "lateLesson =
     \<lparr>bookingId = ''b6'', studentId = ''s2'', scheduledDate = 1700618400000,
      aircraft = ''N123AB'', instructor = ''Lee'', departureLocation = flyingCloud,
      status = Scheduled\<rparr>"

definition morningLesson :: FlightBooking where
  "morningLesson =
     \<lparr>bookingId = ''b7'', studentId = ''s2'', scheduledDate = 1700661600000,
      aircraft = ''N123AB'', instructor = ''Lee'', departureLocation = flyingCloud,
      status = WeatherConflict\<rparr>"

definition zoneLessons :: "FlightBooking list" where
  "zoneLessons = [eveningLesson, lateLesson, morningLesson]"

section \<open>The advisory (the reschedule handler and generateRescheduleSuggestions)\<close>

text \<open>
  JSON values. \<open>JSON.parse\<close> is the host's: the handler is given it as a parameter \<open>parse\<close>,
  with \<open>None\<close> where it throws.
\<close>

datatype json =
  JNull | JBool bool | JNum real | JStr string | JArr "json list" | JObj "(string \<times> json) list"

text \<open>
  What the call of the generative provider gives: it rejects with an error of some
  message, or it answers with content blocks, of which the handler reads the first text
  block.
\<close>

datatype contentBlock = TextBlock string | OtherBlock

datatype providerReply = ProviderFailed string | Reply "contentBlock list"

fun isTextBlock :: "contentBlock \<Rightarrow> bool" where
  "isTextBlock (TextBlock t) = True"
| "isTextBlock OtherBlock = False"

definition fence :: string where
  "fence = [CHR 0x60, CHR 0x60, CHR 0x60]"

text \<open>
  The lazy group \<open>([\s\S]*?)\<close> followed by the closing fence: the text before the first
  fence in \<open>s\<close>, if there is one.
\<close>

fun beforeFence :: "string \<Rightarrow> string option" where
  "beforeFence [] = None"
| "beforeFence (c # cs) =
     (if take 3 (c # cs) = fence then Some []
      else (case beforeFence cs of None \<Rightarrow> None | Some cap \<Rightarrow> Some (c # cap)))"

text \<open>
  The pattern of \<open>extractJson\<close>, a fence, an optional "json" in any letter case, white
  space, the lazy group and a fence, tried at the start of \<open>s\<close>. The optional tag and the
  white space are taken greedily; giving them back cannot help, since it puts no fence
  where there was none.
\<close>

definition matchFenceHere :: "string \<Rightarrow> string option" where
  "matchFenceHere s =
     (if take 3 s = fence
      then (let afterFence = drop 3 s;
                afterTag = (if startsWithCI ''json'' afterFence then drop 4 afterFence
                            else afterFence)
            in beforeFence (dropWhile isSpace afterTag))
      else None)"

text \<open>\<open>payload.match(...)\<close>: the group of the match at the leftmost position that has one.\<close>

fun matchFence :: "string \<Rightarrow> string option" where
  "matchFence [] = None"
| "matchFence (c # cs) =
     (case matchFenceHere (c # cs) of Some cap \<Rightarrow> Some cap | None \<Rightarrow> matchFence cs)"

text \<open>\<open>String.prototype.trim\<close>.\<close>

definition trim :: "string \<Rightarrow> string" where
  "trim s = rev (dropWhile isSpace (rev (dropWhile isSpace s)))"

text \<open>The group counts only when it is not the empty string.\<close>

definition extractJson :: "string \<Rightarrow> string" where
  "extractJson payload =
     (case matchFence payload of
        None \<Rightarrow> trim payload
      | Some cap \<Rightarrow> if cap \<noteq> [] then trim cap else trim payload)"

text \<open>
  The body of the handler's \<open>try\<close>, from the provider's reply: the message of the error it
  throws, or the parsed suggestions.
\<close>

definition rescheduleBody :: "(string \<Rightarrow> json option) \<Rightarrow> providerReply \<Rightarrow> string + json" where
  "rescheduleBody parse reply =
     (case reply of
        ProviderFailed msg \<Rightarrow> Inl msg
      | Reply content \<Rightarrow>
          (case find isTextBlock content of
             Some (TextBlock text) \<Rightarrow>
               (case parse (extractJson text) of
                  None \<Rightarrow>
                    Inl (''Claude response was not valid JSON. Received: '' @ take 200 text @ ''...'')
                | Some suggestions \<Rightarrow> Inr suggestions)
           | _ \<Rightarrow> Inl ''Claude response did not include text content''))"

text \<open>
  The answers of the handler: the suggestions (status 200), the request without its
  fields (400), the provider not configured (500), or the failure with its details (500).
\<close>

datatype backendResponse =
  Suggestions json | BadRequest | NotConfigured | ServerError string

definition rescheduleHandler ::
  "bool \<Rightarrow> bool \<Rightarrow> (string \<Rightarrow> json option) \<Rightarrow> providerReply \<Rightarrow> backendResponse" where
  "rescheduleHandler configured hasFields parse reply =
     (if \<not> configured then NotConfigured
      else if \<not> hasFields then BadRequest
      else (case rescheduleBody parse reply of
              Inl details \<Rightarrow> ServerError details
            | Inr suggestions \<Rightarrow> Suggestions suggestions))"

text \<open>
  The portal's side. The request to the backend fails (\<open>fetch\<close> rejects or the body is no
  JSON) or is answered. The body of the \<open>try\<close> throws on a failure and on a status that is
  not ok; the \<open>catch\<close> logs the error and returns the empty list, so the function itself
  never fails: its result is always on the right.
\<close>

datatype backendOutcome = Unreachable | Answer backendResponse

datatype portalError = FetchFailed | BadStatus nat

definition generateBody :: "backendOutcome \<Rightarrow> portalError + json list" where
  "generateBody outcome =
     (case outcome of
        Unreachable \<Rightarrow> Inl FetchFailed
      | Answer r \<Rightarrow>
          (case r of
             Suggestions s \<Rightarrow> (case s of JArr xs \<Rightarrow> Inr xs | _ \<Rightarrow> Inr [])
           | BadRequest \<Rightarrow> Inl (BadStatus 400)
           | NotConfigured \<Rightarrow> Inl (BadStatus 500)
           | ServerError details \<Rightarrow> Inl (BadStatus 500)))"

definition generateRescheduleSuggestions :: "backendOutcome \<Rightarrow> portalError + json list" where
  "generateRescheduleSuggestions outcome =
     (case generateBody outcome of Inl err \<Rightarrow> Inr [] | Inr xs \<Rightarrow> Inr xs)"

text \<open>A parser that accepts one text only, for the sample replies.\<close>

definition sampleParse :: "string \<Rightarrow> json option" where
  "sampleParse s = (if s = ''[1]'' then Some (JArr [JNum 1]) else None)"

definition fencedReply :: string where
  "fencedReply = fence @ ''json'' @ [CHR 0x0A] @ ''[1]'' @ [CHR 0x0A] @ fence"

definition proseReply :: string where
  "proseReply = ''I am sorry, no suggestion can be made.''"

section \<open>Properties of the classifier and of the rule table\<close>

text \<open>
  Claim C2. The classifier checks its rules in order, the first match winning: an unknown
  visibility gives VFR whatever the coverage. Otherwise, with the visibility in statute
  miles (meters divided by 1609.34): when the record carries no coverage, the coverage
  counts as 0, so the visibility alone decides (IFR below 3 miles, MVFR from 3 to below 5,
  VFR from 5 on); when it carries the coverage \<open>x\<close>, the result is IFR exactly when the
  visibility is below 3 or \<open>x\<close> is at least 85, MVFR exactly when that is not so and the
  visibility is below 5 or \<open>x\<close> at least 60, and VFR in every other case. At the boundaries
  the lower category wins: exactly 3 miles under a coverage below 85, or under no
  coverage, is MVFR, and exactly 60 percent at a visibility of 5 miles or more is MVFR.
\<close>

theorem determineFlightCategory_rules:
  "determineFlightCategory None c = VFR \<and>
   (determineFlightCategory (Some m) None = IFR \<longleftrightarrow> m / 1609.34 < 3) \<and>
   (determineFlightCategory (Some m) None = MVFR \<longleftrightarrow> 3 \<le> m / 1609.34 \<and> m / 1609.34 < 5) \<and>
   (determineFlightCategory (Some m) None = VFR \<longleftrightarrow> 5 \<le> m / 1609.34) \<and>
   (determineFlightCategory (Some m) (Some x) = IFR \<longleftrightarrow> m / 1609.34 < 3 \<or> x \<ge> 85) \<and>
   (determineFlightCategory (Some m) (Some x) = MVFR \<longleftrightarrow>
      \<not> (m / 1609.34 < 3 \<or> x \<ge> 85) \<and> (m / 1609.34 < 5 \<or> x \<ge> 60)) \<and>
   (determineFlightCategory (Some m) (Some x) = VFR \<longleftrightarrow>
      \<not> (m / 1609.34 < 3 \<or> x \<ge> 85) \<and> \<not> (m / 1609.34 < 5 \<or> x \<ge> 60)) \<and>
   (m / 1609.34 = 3 \<and> x < 85 \<longrightarrow> determineFlightCategory (Some m) (Some x) = MVFR) \<and>
   (m / 1609.34 = 3 \<longrightarrow> determineFlightCategory (Some m) None = MVFR) \<and>
   (x = 60 \<and> m / 1609.34 \<ge> 5 \<longrightarrow> determineFlightCategory (Some m) (Some x) = MVFR)"
  by (auto simp: determineFlightCategory_def coverageOrZero_def Let_def)

theorem determineFlightCategory_rules_witness:
  "determineFlightCategory (Some 4828.02) (Some 40) = MVFR \<and>
   determineFlightCategory (Some 4828.02) None = MVFR \<and>
   determineFlightCategory (Some 8046.7) (Some 60) = MVFR \<and>
   determineFlightCategory (Some 8046.7) None = VFR \<and>
   determineFlightCategory (Some 16093.4) None = VFR \<and>
   determineFlightCategory (Some 6500) None = MVFR \<and>
   determineFlightCategory (Some 4000) None = IFR \<and>
   determineFlightCategory (Some 16093.4) (Some 85) = IFR \<and>
   determineFlightCategory (Some 16093.4) (Some 84) = MVFR \<and>
   determineFlightCategory (Some 16093.4) (Some 59) = VFR \<and>
   determineFlightCategory None (Some 100) = VFR"
  using determineFlightCategory_rules [of "Some 100" "4828.02" 40]
    determineFlightCategory_rules [of None "8046.7" 60]
    determineFlightCategory_rules [of None "16093.4" 85]
    determineFlightCategory_rules [of None 6500 84]
    determineFlightCategory_rules [of None 4000 0]
    determineFlightCategory_rules [of None "16093.4" 84]
    determineFlightCategory_rules [of None "16093.4" 59]
  by simp

text \<open>
  Claim C10. In the rule table the allowed flight categories grow with the rating: those of
  the student pilot are among those of the private pilot, which are among those of the
  instrument-rated pilot.
\<close>

theorem allowedConditions_chain:
  "set (allowedConditions (trainingMinimumRules StudentPilot))
     \<subseteq> set (allowedConditions (trainingMinimumRules PrivatePilot)) \<and>
   set (allowedConditions (trainingMinimumRules PrivatePilot))
     \<subseteq> set (allowedConditions (trainingMinimumRules InstrumentRated))"
  by simp

section \<open>Properties of the normalizer\<close>

lemma mapCapitalize_nonempty:
  "list_all (\<lambda>d. d \<noteq> []) ds \<Longrightarrow>
   mapCapitalize ds = Inr (map (\<lambda>d. toUpperChar (hd d) # tl d) ds)"
proof (induction ds)
  case Nil
  show ?case by simp
next
  case (Cons d ds)
  then obtain c cs where d: "d = c # cs" by (cases d) auto
  from Cons show ?case by (simp add: d)
qed

lemma mapCapitalize_empty:
  "\<not> list_all (\<lambda>d. d \<noteq> []) ds \<Longrightarrow> mapCapitalize ds = Inl TypeError"
proof (induction ds)
  case Nil
  then show ?case by simp
next
  case (Cons d ds)
  show ?case
  proof (cases d)
    case Nil
    then show ?thesis by simp
  next
    case (Cons c cs)
    with Cons.prems Cons.IH show ?thesis by simp
  qed
qed

text \<open>
  The normalizer throws on exactly the records that carry an empty description; on every
  other record, whatever optional parts are missing, it returns a reading.
\<close>

lemma mapWeatherWith_throws_iff:
  "(\<exists>e. mapWeatherWith mark p = Inl e) \<longleftrightarrow> \<not> list_all (\<lambda>d. d \<noteq> []) (descriptionList p)"
proof (cases "list_all (\<lambda>d. d \<noteq> []) (descriptionList p)")
  case True
  then show ?thesis
    by (simp add: mapWeatherWith_def buildSkySummary_def mapCapitalize_nonempty)
next
  case False
  then have "descriptionList p \<noteq> []" by auto
  with False show ?thesis
    by (simp add: mapWeatherWith_def buildSkySummary_def mapCapitalize_empty)
qed

text \<open>
  Claim C8 says that \<open>mapCurrentWeather\<close> never throws, whatever strings the condition
  descriptions are. On a record whose condition carries the empty description it throws:
  \<open>description[0]\<close> is \<open>undefined\<close> there.
\<close>

theorem mapCurrentWeather_throws_on_empty_description:
  "mapCurrentWeather emptyDescriptionPayload = Inl TypeError"
  by (simp add: mapCurrentWeather_def mapWeatherWith_def emptyDescriptionPayload_def
      descriptionList_def buildSkySummary_def)

text \<open>
  Claim C9, as stated, has every word of a description begin with a capital. The source
  puts only the first character of each description in upper case: "broken clouds"
  becomes "Broken clouds", not "Broken Clouds".
\<close>

theorem sky_not_capitalized_per_word:
  "buildSkySummary [''broken clouds''] = Inr ''Broken clouds'' \<and>
   buildSkySummary [''broken clouds'']
     \<noteq> Inr (join '', '' (map spec_capitalizeWords [''broken clouds'']))"
  by (simp add: buildSkySummary_def toUpperChar_def spec_capitalizeWords_def)

text \<open>
  Claim C9, amended. On a record none of whose descriptions is empty, \<open>mapCurrentWeather\<close>
  returns a reading whose fields are as follows. The winds are "Calm" when the wind, its
  direction or its speed is missing, and otherwise the direction rounded to the nearest
  integer, the mark, "at", the speed times 0.868976 rounded to the nearest integer, and
  "kts" (272.4 and 10.0 give 272 and 9 kts). The visibility is "N/A" when missing, and
  the category is then VFR; otherwise it is the meters divided by 1609.34, printed with
  one decimal and the suffix "sm" (8046.7 gives "5.0 sm"). The sky is "Clear" when there
  is no description, and otherwise the descriptions, each with its first character in
  upper case and the rest unchanged, joined with a comma and a blank.
\<close>

theorem mapCurrentWeather_fields:
  assumes "list_all (\<lambda>d. d \<noteq> []) (descriptionList p)"
  shows "\<exists>w. mapCurrentWeather p = Inr w \<and>
     winds w =
       (case wind p of
          None \<Rightarrow> ''Calm''
        | Some wd \<Rightarrow>
            (case deg wd of
               None \<Rightarrow> ''Calm''
             | Some d \<Rightarrow>
                 (case speed wd of
                    None \<Rightarrow> ''Calm''
                  | Some s \<Rightarrow>
                      numberToString (Math_round d) @ degreeMark @ '' at '' @
                      numberToString (Math_round (s * 0.868976)) @ '' kts''))) \<and>
     visibility w =
       (case visibilityMeters p of
          None \<Rightarrow> ''N/A''
        | Some m \<Rightarrow> toFixed1 (m / 1609.34) @ '' sm'') \<and>
     (visibilityMeters p = None \<longrightarrow> conditions w = VFR) \<and>
     sky w =
       (if descriptionList p = [] then ''Clear''
        else join '', '' (map (\<lambda>d. toUpperChar (hd d) # tl d) (descriptionList p))) \<and>
     formatWinds (Some 272.4) (Some 10) = ''272'' @ degreeMark @ '' at 9 kts'' \<and>
     formatVisibility (Some 8046.7) = ''5.0 sm''"
proof -
  have ex1: "formatWinds (Some 272.4) (Some 10) = ''272'' @ degreeMark @ '' at 9 kts''"
    by (simp add: formatWinds_def formatWindsWith_def Math_round_def numberToString_def
        showNat.simps digitChar_def)
  have ex2: "formatVisibility (Some 8046.7) = ''5.0 sm''"
    by (simp add: formatVisibility_def toFixed1_def showNat.simps digitChar_def)
  have cap: "mapCapitalize (descriptionList p)
      = Inr (map (\<lambda>d. toUpperChar (hd d) # tl d) (descriptionList p))"
    using assms by (rule mapCapitalize_nonempty)
  have sky: "buildSkySummary (descriptionList p) =
      Inr (if descriptionList p = [] then ''Clear''
           else join '', '' (map (\<lambda>d. toUpperChar (hd d) # tl d) (descriptionList p)))"
    by (simp add: buildSkySummary_def cap)
  show ?thesis
    unfolding mapCurrentWeather_def mapWeatherWith_def sky
    using ex1 ex2
    by (simp add: formatWindsWith_def formatVisibility_def determineFlightCategory_def
        Let_def split: option.splits)
qed

theorem mapCurrentWeather_fields_witness:
  "list_all (\<lambda>d. d \<noteq> []) (descriptionList samplePayload) \<and>
   mapCurrentWeather samplePayload =
     Inr \<lparr>temperature = 55.4, winds = ''272'' @ degreeMark @ '' at 9 kts'',
          visibility = ''5.0 sm'', sky = ''Broken clouds, Conditions'',
          conditions = VFR, timestamp = 1700000000000\<rparr>"
proof -
  have h: "list_all (\<lambda>d. d \<noteq> []) (descriptionList samplePayload)"
    by (simp add: descriptionList_def samplePayload_def)
  from mapCurrentWeather_fields [OF h] obtain w where
    w: "mapCurrentWeather samplePayload = Inr w" by blast
  have "mapCurrentWeather samplePayload =
     Inr \<lparr>temperature = 55.4, winds = ''272'' @ degreeMark @ '' at 9 kts'',
          visibility = ''5.0 sm'', sky = ''Broken clouds, Conditions'',
          conditions = VFR, timestamp = 1700000000000\<rparr>"
    by (simp add: mapCurrentWeather_def mapWeatherWith_def samplePayload_def
        descriptionList_def buildSkySummary_def toUpperChar_def formatWindsWith_def
        formatVisibility_def determineFlightCategory_def coverageOrZero_def
        Math_round_def numberToString_def toFixed1_def showNat.simps digitChar_def)
  with h show ?thesis by simp
qed

section \<open>Properties of the minimums\<close>

lemmas parse_eval = isDigit_def isTokenChar_def isSpace_def toLowerChar_def startsWithCI_def
  matchToken_def matchKtsHere_def digitValue_def digitsValue_def parseFloat_def
  parseVisibilityMiles_def parseWindSpeedKts_def numberOf_def

text \<open>
  Claim C1, as stated, takes the wind speed to be 0 when the summary is "Calm" and the
  number before "kts" otherwise. The source takes it to be 0 as soon as the summary
  contains "calm": a student pilot passes a reading "Calm, gusts 30 kts", which the
  claim as stated rejects (30 is above 15).
\<close>

theorem meetsStudentMinimums_calm_anywhere:
  "meetsStudentMinimums studentPilot gustyReading \<and>
   \<not> spec_passes (trainingLevel studentPilot) gustyReading"
  by (simp add: meetsStudentMinimums_def spec_passes_def spec_parsedVisibility_def
      spec_parsedWindSpeed_def studentPilot_def gustyReading_def parse_eval)

text \<open>
  A token that is a lone point is found by the pattern but is no number: \<open>parseFloat\<close>
  gives \<open>NaN\<close>, which is not \<open>undefined\<close>, and the comparison with the minimum is false.
\<close>

lemma meetsStudentMinimums_point_token:
  "parseVisibilityMiles (visibility pointReading) = Some NaN \<and>
   \<not> meetsStudentMinimums studentPilot pointReading"
  by (simp add: meetsStudentMinimums_def studentPilot_def pointReading_def parse_eval)

text \<open>
  The parsers on the summaries that the normalizer writes, and on summaries of a known
  shape. \<open>showNat\<close> prints a natural number, so its digits are read back as that number.
\<close>

lemma digit_cases:
  "d < 10 \<Longrightarrow> d = 0 \<or> d = 1 \<or> d = 2 \<or> d = 3 \<or> d = 4 \<or> d = 5 \<or> d = 6 \<or> d = 7 \<or> d = 8 \<or> d = (9::nat)"
  by arith

lemma isDigit_digitChar: "d < 10 \<Longrightarrow> isDigit (digitChar d)"
  using digit_cases [of d] by (auto simp: isDigit_def digitChar_def)

lemma digitValue_digitChar: "d < 10 \<Longrightarrow> digitValue (digitChar d) = d"
  using digit_cases [of d] by (auto simp: digitValue_def digitChar_def)

lemma showNat_digits: "c \<in> set (showNat n) \<Longrightarrow> isDigit c"
proof (induction n arbitrary: c rule: showNat.induct)
  case (1 n)
  show ?case
  proof (cases "n < 10")
    case True
    with "1.prems" show ?thesis by (simp add: showNat.simps [of n] isDigit_digitChar)
  next
    case False
    with "1.prems" have "c \<in> set (showNat (n div 10)) \<or> c = digitChar (n mod 10)"
      by (auto simp: showNat.simps [of n])
    with "1.IH" [OF False] show ?thesis by (auto simp: isDigit_digitChar)
  qed
qed

lemma showNat_nonempty: "showNat n \<noteq> []"
  by (simp add: showNat.simps [of n])

lemma digitsValue_snoc: "digitsValue (ds @ [c]) = 10 * digitsValue ds + digitValue c"
  by (simp add: digitsValue_def)

lemma digitsValue_showNat: "digitsValue (showNat n) = n"
proof (induction n rule: showNat.induct)
  case (1 n)
  show ?case
  proof (cases "n < 10")
    case True
    then show ?thesis
      by (simp add: showNat.simps [of n] digitsValue_def digitValue_digitChar)
  next
    case False
    with "1.IH" show ?thesis
      by (simp add: showNat.simps [of n] digitsValue_snoc digitValue_digitChar)
  qed
qed

lemma isTokenChar_showNat: "c \<in> set (showNat n) \<Longrightarrow> isTokenChar c"
  by (simp add: isTokenChar_def showNat_digits)

lemma parseFloat_showNat: "parseFloat (showNat n) = Num (real n)"
proof -
  have tw: "takeWhile isDigit (showNat n) = showNat n"
    and dw: "dropWhile isDigit (showNat n) = []"
    by (simp_all add: showNat_digits)
  show ?thesis
    unfolding parseFloat_def Let_def tw dw
    by (simp add: showNat_nonempty digitsValue_showNat)
qed

lemma parseFloat_decimal:
  assumes "b < 10"
  shows "parseFloat (showNat a @ ''.'' @ [digitChar b]) = Num (real a + real b / 10)"
proof -
  have nd: "\<not> isDigit CHR ''.''" by (simp add: isDigit_def)
  have tw: "takeWhile isDigit (showNat a @ ''.'' @ [digitChar b]) = showNat a"
    by (simp add: takeWhile_append2 showNat_digits nd)
  have dw: "dropWhile isDigit (showNat a @ ''.'' @ [digitChar b]) = ''.'' @ [digitChar b]"
    by (simp add: dropWhile_append2 showNat_digits nd)
  have one: "digitsValue [digitChar b] = b"
    using assms by (simp add: digitsValue_def digitValue_digitChar)
  have fp: "takeWhile isDigit [digitChar b] = [digitChar b]"
    using assms by (simp add: isDigit_digitChar)
  show ?thesis
    unfolding parseFloat_def Let_def tw dw
    using assms by (simp add: isDigit_digitChar one digitsValue_showNat)
qed

lemma matchToken_shape:
  assumes pre: "\<forall>c\<in>set pre. \<not> isTokenChar c" and ne: "tok \<noteq> []"
    and tok: "\<forall>c\<in>set tok. isTokenChar c" and post: "post = [] \<or> \<not> isTokenChar (hd post)"
  shows "matchToken (pre @ tok @ post) = Some tok"
proof -
  from ne obtain c cs where tc: "tok = c # cs" by (cases tok) auto
  with tok have c: "isTokenChar c" by simp
  have d: "dropWhile (\<lambda>c. \<not> isTokenChar c) (pre @ tok @ post) = tok @ post"
    using pre c by (simp add: dropWhile_append2 tc)
  have "takeWhile isTokenChar post = []"
    using post by (cases post) auto
  then have t: "takeWhile isTokenChar (tok @ post) = tok"
    using tok by (simp add: takeWhile_append2)
  show ?thesis
    by (simp add: matchToken_def Let_def d t) (simp add: tc)
qed

lemma matchToken_none:
  assumes "\<forall>c\<in>set v. \<not> isTokenChar c"
  shows "matchToken v = None"
proof -
  have "dropWhile (\<lambda>c. \<not> isTokenChar c) v = []" using assms by simp
  then show ?thesis by (simp add: matchToken_def)
qed

lemma matchKtsHere_shape:
  assumes ne: "tok \<noteq> []" and tok: "\<forall>c\<in>set tok. isTokenChar c"
    and ws: "\<forall>c\<in>set ws. isSpace c"
  shows "matchKtsHere (tok @ ws @ ''kts'' @ rest) = Some tok"
proof -
  have sp: "isSpace c \<Longrightarrow> \<not> isTokenChar c" for c
    by (auto simp: isSpace_def isTokenChar_def isDigit_def)
  have k: "\<not> isTokenChar CHR ''k''" "\<not> isSpace CHR ''k''"
    by (simp_all add: isSpace_def isTokenChar_def isDigit_def)
  have nt: "takeWhile isTokenChar (ws @ ''kts'' @ rest) = []"
    "dropWhile isTokenChar (ws @ ''kts'' @ rest) = ws @ ''kts'' @ rest"
    using ws sp k by (cases ws; simp)+
  have t: "takeWhile isTokenChar (tok @ ws @ ''kts'' @ rest) = tok"
    using tok nt by (simp add: takeWhile_append2)
  have d: "dropWhile isTokenChar (tok @ ws @ ''kts'' @ rest) = ws @ ''kts'' @ rest"
    using tok nt by (simp add: dropWhile_append2)
  have s: "dropWhile isSpace (ws @ ''kts'' @ rest) = ''kts'' @ rest"
    using ws k by (simp add: dropWhile_append2)
  have st: "startsWithCI ''kts'' (''kts'' @ rest)"
    by (simp add: startsWithCI_def toLowerChar_def)
  show ?thesis
    unfolding matchKtsHere_def Let_def t d s using ne st by simp
qed

lemma matchKts_hit: "matchKtsHere s = Some t \<Longrightarrow> s \<noteq> [] \<Longrightarrow> matchKts s = Some t"
  by (cases s) auto

lemma matchKts_skip:
  assumes "\<forall>c\<in>set xs. \<not> isTokenChar c"
  shows "matchKts (xs @ s) = matchKts s"
  using assms
proof (induction xs)
  case Nil
  then show ?case by simp
next
  case (Cons c xs)
  then have "matchKtsHere (c # xs @ s) = None" by (simp add: matchKtsHere_def)
  with Cons show ?case by simp
qed

lemma matchKts_skip_run:
  assumes ds: "\<forall>c\<in>set ds. isTokenChar c"
    and c0: "\<not> isTokenChar c0" "\<not> isSpace c0" "toLowerChar c0 \<noteq> CHR ''k''"
  shows "matchKts (ds @ c0 # s) = matchKts (c0 # s)"
  using ds
proof (induction ds)
  case Nil
  then show ?case by simp
next
  case (Cons d ds)
  have t: "dropWhile isTokenChar ((d # ds) @ c0 # s) = c0 # s"
    using Cons.prems c0 by (simp add: dropWhile_append2)
  have "\<not> startsWithCI ''kts'' (c0 # s)"
    using c0 by (simp add: startsWithCI_def)
  then have "matchKtsHere ((d # ds) @ c0 # s) = None"
    unfolding matchKtsHere_def Let_def t using c0 by simp
  with Cons show ?case by simp
qed

lemma testCalm_letter: "testCalm s \<Longrightarrow> \<exists>c\<in>set s. toLowerChar c = CHR ''c''"
proof (induction s)
  case Nil
  then show ?case by simp
next
  case (Cons c cs)
  then show ?case by (auto simp: startsWithCI_def)
qed

lemma testCalm_anywhere:
  "startsWithCI ''calm'' w \<Longrightarrow> testCalm (pre @ w @ post)"
proof (induction pre)
  case Nil
  then have m: "map toLowerChar (take (length ''calm'') w) = ''calm''"
    unfolding startsWithCI_def .
  from arg_cong [OF m, of length] have len: "length ''calm'' \<le> length w" by simp
  then have "take (length ''calm'') (w @ post) = take (length ''calm'') w" by simp
  with m have st: "startsWithCI ''calm'' (w @ post)" unfolding startsWithCI_def by simp
  from len obtain c cs where "w = c # cs" by (cases w) auto
  with st show ?case by simp
next
  case (Cons c pre)
  then show ?case by simp
qed


lemma parseVisibilityMiles_formatVisibility:
  "parseVisibilityMiles (formatVisibility (Some m)) =
     Some (Num (real_of_int \<lfloor>\<bar>m / 1609.34\<bar> * 10 + 1 / 2\<rfloor> / 10))"
proof -
  define n where "n = nat \<lfloor>\<bar>m / 1609.34\<bar> * 10 + 1 / 2\<rfloor>"
  define sgn where "sgn = (if m / 1609.34 < 0 then ''-'' else [])"
  define tok where "tok = showNat (n div 10) @ ''.'' @ [digitChar (n mod 10)]"
  have fmt: "formatVisibility (Some m) = sgn @ tok @ '' sm''"
    by (simp add: formatVisibility_def toFixed1_def Let_def n_def sgn_def tok_def)
  have pre: "\<forall>c\<in>set sgn. \<not> isTokenChar c"
    by (simp add: sgn_def isTokenChar_def isDigit_def)
  have ne: "tok \<noteq> []" by (simp add: tok_def)
  have d: "isTokenChar (digitChar (n mod 10))"
    by (simp add: isTokenChar_def isDigit_digitChar)
  have all: "\<forall>c\<in>set tok. isTokenChar c"
    using d by (auto simp: tok_def isTokenChar_showNat) (simp add: isTokenChar_def)
  have post: "'' sm'' = [] \<or> \<not> isTokenChar (hd '' sm'')"
    by (simp add: isTokenChar_def isDigit_def)
  have tk: "matchToken (sgn @ tok @ '' sm'') = Some tok"
    using pre ne all post by (rule matchToken_shape)
  have "parseFloat tok = Num (real (n div 10) + real (n mod 10) / 10)"
    unfolding tok_def by (rule parseFloat_decimal) simp
  moreover have "real (n div 10) + real (n mod 10) / 10 = real n / 10"
  proof -
    have "real n = real (10 * (n div 10) + n mod 10)" by simp
    also have "\<dots> = 10 * real (n div 10) + real (n mod 10)"
      by (simp only: of_nat_add of_nat_mult of_nat_numeral)
    finally show ?thesis by simp
  qed
  moreover have "real n = real_of_int \<lfloor>\<bar>m / 1609.34\<bar> * 10 + 1 / 2\<rfloor>"
  proof -
    have "0 \<le> \<lfloor>\<bar>m / 1609.34\<bar> * 10 + 1 / 2\<rfloor>" by simp
    then show ?thesis unfolding n_def by simp
  qed
  ultimately have "parseFloat tok = Num (real_of_int \<lfloor>\<bar>m / 1609.34\<bar> * 10 + 1 / 2\<rfloor> / 10)"
    by simp
  with tk show ?thesis
    by (simp add: parseVisibilityMiles_def fmt)
qed

lemma numberToString_parts:
  "numberToString n = (if n < 0 then ''-'' else []) @ showNat (nat \<bar>n\<bar>)"
  by (simp add: numberToString_def)

lemma toLowerChar_c: "toLowerChar x = CHR ''c'' \<Longrightarrow> x = CHR ''c'' \<or> x = CHR ''C''"
  by (auto simp: toLowerChar_def split: if_splits)

lemma parseWindSpeedKts_formatWinds:
  assumes mark: "mark = degreeMark \<or> mark = degreeMarkPortal"
  shows "parseWindSpeedKts (formatWindsWith mark (Some d) (Some s)) =
     Some (Num \<bar>real_of_int \<lfloor>s * 0.868976 + 1 / 2\<rfloor>\<bar>)"
proof -
  define h where "h = Math_round d"
  define k where "k = Math_round (s * 0.868976)"
  define hs where "hs = (if h < 0 then ''-'' else [])"
  define ks where "ks = (if k < 0 then ''-'' else [])"
  have fmt: "formatWindsWith mark (Some d) (Some s) =
      hs @ showNat (nat \<bar>h\<bar>) @ mark @ '' at '' @ ks @ showNat (nat \<bar>k\<bar>) @ '' kts''"
    by (simp add: formatWindsWith_def Let_def numberToString_parts h_def k_def hs_def ks_def)
  from mark obtain c0 cs where m: "mark = c0 # cs"
    by (auto simp: degreeMark_def degreeMarkPortal_def)
  have markc: "\<forall>c\<in>set mark. \<not> isTokenChar c \<and> c \<noteq> CHR ''c'' \<and> c \<noteq> CHR ''C''"
    using mark by (auto simp: degreeMark_def degreeMarkPortal_def isTokenChar_def isDigit_def)
  have c0: "\<not> isTokenChar c0" "\<not> isSpace c0" "toLowerChar c0 \<noteq> CHR ''k''"
    using mark m
    by (auto simp: degreeMark_def degreeMarkPortal_def isTokenChar_def isDigit_def isSpace_def
        toLowerChar_def)
  have sg: "\<forall>c\<in>set hs. \<not> isTokenChar c" "\<forall>c\<in>set ks. \<not> isTokenChar c"
    by (simp_all add: hs_def ks_def isTokenChar_def isDigit_def)
  have mid: "\<forall>c\<in>set (mark @ '' at '' @ ks). \<not> isTokenChar c"
    using markc sg by (auto simp: isTokenChar_def isDigit_def)
  have tokh: "\<forall>c\<in>set (showNat (nat \<bar>h\<bar>)). isTokenChar c"
    and tokk: "\<forall>c\<in>set (showNat (nat \<bar>k\<bar>)). isTokenChar c"
    by (simp_all add: isTokenChar_showNat)
  have sp: "\<forall>c\<in>set '' ''. isSpace c" by (simp add: isSpace_def)
  have here: "matchKtsHere (showNat (nat \<bar>k\<bar>) @ '' '' @ ''kts'' @ []) = Some (showNat (nat \<bar>k\<bar>))"
    using showNat_nonempty tokk sp by (rule matchKtsHere_shape)
  have last: "matchKts (showNat (nat \<bar>k\<bar>) @ '' kts'') = Some (showNat (nat \<bar>k\<bar>))"
    using here showNat_nonempty [of "nat \<bar>k\<bar>"] by (intro matchKts_hit) simp_all
  have "matchKts (hs @ showNat (nat \<bar>h\<bar>) @ mark @ '' at '' @ ks @ showNat (nat \<bar>k\<bar>) @ '' kts'') =
      matchKts (showNat (nat \<bar>h\<bar>) @ mark @ '' at '' @ ks @ showNat (nat \<bar>k\<bar>) @ '' kts'')"
    using sg(1) by (rule matchKts_skip)
  also have "\<dots> = matchKts (c0 # cs @ '' at '' @ ks @ showNat (nat \<bar>k\<bar>) @ '' kts'')"
    using matchKts_skip_run [OF tokh c0, of "cs @ '' at '' @ ks @ showNat (nat \<bar>k\<bar>) @ '' kts''"]
    by (simp add: m)
  also have "\<dots> = matchKts ((mark @ '' at '' @ ks) @ showNat (nat \<bar>k\<bar>) @ '' kts'')"
    by (simp add: m)
  also have "\<dots> = matchKts (showNat (nat \<bar>k\<bar>) @ '' kts'')"
    using mid by (rule matchKts_skip)
  finally have tok: "matchKts (formatWindsWith mark (Some d) (Some s)) = Some (showNat (nat \<bar>k\<bar>))"
    using last by (simp add: fmt)
  have nocalm: "\<not> testCalm (formatWindsWith mark (Some d) (Some s))"
  proof
    assume "testCalm (formatWindsWith mark (Some d) (Some s))"
    then obtain c where c: "c \<in> set (formatWindsWith mark (Some d) (Some s))"
      and "toLowerChar c = CHR ''c''"
      using testCalm_letter by blast
    then have cc: "c = CHR ''c'' \<or> c = CHR ''C''" by (simp add: toLowerChar_c)
    from c have "c \<in> set hs \<or> c \<in> set (showNat (nat \<bar>h\<bar>)) \<or> c \<in> set mark \<or>
        c \<in> set '' at '' \<or> c \<in> set ks \<or> c \<in> set (showNat (nat \<bar>k\<bar>)) \<or> c \<in> set '' kts''"
      unfolding fmt by (simp only: set_append Un_iff)
    moreover have "c \<notin> set hs" "c \<notin> set ks" using cc by (auto simp: hs_def ks_def)
    moreover have "c \<notin> set (showNat n)" for n
      using showNat_digits [of c n] cc by (auto simp: isDigit_def)
    moreover have "c \<notin> set mark" using markc cc by auto
    moreover have "c \<notin> set '' at ''" "c \<notin> set '' kts''" using cc by auto
    ultimately show False by blast
  qed
  have "real (nat \<bar>k\<bar>) = \<bar>real_of_int k\<bar>" by simp
  then show ?thesis
    using tok nocalm
    by (simp add: parseWindSpeedKts_def parseFloat_showNat k_def Math_round_def)
qed


lemma toLowerChar_k: "toLowerChar x = CHR ''k'' \<Longrightarrow> x = CHR ''k'' \<or> x = CHR ''K''"
  by (auto simp: toLowerChar_def split: if_splits)

lemma isTokenChar_set: "isTokenChar c \<longleftrightarrow> c \<in> set ''0123456789.''"
  by (auto simp: isTokenChar_def isDigit_def)

lemma matchKtsHere_letter:
  assumes "matchKtsHere s = Some t"
  shows "\<exists>c\<in>set s. toLowerChar c = CHR ''k''"
proof -
  let ?rest = "dropWhile isSpace (dropWhile isTokenChar s)"
  from assms have st: "startsWithCI ''kts'' ?rest"
    by (simp add: matchKtsHere_def Let_def split: if_splits)
  then obtain c cs where r: "?rest = c # cs" by (cases ?rest) (auto simp: startsWithCI_def)
  with st have k: "toLowerChar c = CHR ''k''" by (simp add: startsWithCI_def)
  have "c \<in> set ?rest" by (simp add: r)
  then have "c \<in> set s" by (blast dest: set_dropWhileD)
  with k show ?thesis by blast
qed

lemma matchKts_letter: "matchKts s = Some t \<Longrightarrow> \<exists>c\<in>set s. toLowerChar c = CHR ''k''"
proof (induction s)
  case Nil
  then show ?case by simp
next
  case (Cons c cs)
  show ?case
  proof (cases "matchKtsHere (c # cs)")
    case None
    with Cons show ?thesis by auto
  next
    case (Some u)
    then show ?thesis by (rule matchKtsHere_letter)
  qed
qed

lemma parseWindSpeedKts_none:
  assumes "\<forall>c\<in>set v. c \<notin> set ''cCkK''"
  shows "parseWindSpeedKts v = None"
proof -
  have "\<not> testCalm v"
  proof
    assume "testCalm v"
    then obtain c where "c \<in> set v" "toLowerChar c = CHR ''c''" using testCalm_letter by blast
    with assms show False by (auto dest: toLowerChar_c)
  qed
  moreover have "matchKts v = None"
  proof (cases "matchKts v")
    case None
    then show ?thesis .
  next
    case (Some t)
    then obtain c where "c \<in> set v" "toLowerChar c = CHR ''k''" using matchKts_letter by blast
    with assms show ?thesis by (auto dest: toLowerChar_k)
  qed
  ultimately show ?thesis by (simp add: parseWindSpeedKts_def)
qed

lemma parseVisibilityMiles_none:
  "\<forall>c\<in>set v. c \<notin> set ''0123456789.'' \<Longrightarrow> parseVisibilityMiles v = None"
  by (simp only: parseVisibilityMiles_def matchToken_none isTokenChar_set option.case)

lemma parseVisibilityMiles_first_token:
  assumes pre: "\<forall>c\<in>set pre. c \<notin> set ''0123456789.''"
    and post: "post = [] \<or> hd post \<notin> set ''0123456789.''"
  shows "parseVisibilityMiles (pre @ showNat a @ post) = Some (Num (real a))"
    and "b < 10 \<Longrightarrow>
      parseVisibilityMiles (pre @ showNat a @ ''.'' @ [digitChar b] @ post) =
        Some (Num (real a + real b / 10))"
proof -
  have pre': "\<forall>c\<in>set pre. \<not> isTokenChar c" using pre by (simp only: isTokenChar_set)
  have post': "post = [] \<or> \<not> isTokenChar (hd post)" using post by (simp only: isTokenChar_set)
  have t1: "\<forall>c\<in>set (showNat a). isTokenChar c" by (simp add: isTokenChar_showNat)
  have "matchToken (pre @ showNat a @ post) = Some (showNat a)"
    using pre' showNat_nonempty t1 post' by (rule matchToken_shape)
  then show "parseVisibilityMiles (pre @ showNat a @ post) = Some (Num (real a))"
    by (simp add: parseVisibilityMiles_def parseFloat_showNat)
  assume b: "b < 10"
  let ?tok = "showNat a @ ''.'' @ [digitChar b]"
  have t2: "\<forall>c\<in>set ?tok. isTokenChar c"
    using isDigit_digitChar [OF b] by (auto simp: isTokenChar_showNat) (simp_all add: isTokenChar_def)
  have ne: "?tok \<noteq> []" by simp
  have "matchToken (pre @ ?tok @ post) = Some ?tok"
    using pre' ne t2 post' by (rule matchToken_shape)
  then show "parseVisibilityMiles (pre @ showNat a @ ''.'' @ [digitChar b] @ post) =
        Some (Num (real a + real b / 10))"
    using parseFloat_decimal [OF b, of a] by (simp add: parseVisibilityMiles_def)
qed

lemma parseWindSpeedKts_calm:
  "parseWindSpeedKts (pre @ ''calm'' @ post) = Some (Num 0)"
  "parseWindSpeedKts (pre @ ''Calm'' @ post) = Some (Num 0)"
  "parseWindSpeedKts (pre @ ''CALM'' @ post) = Some (Num 0)"
proof -
  have "startsWithCI ''calm'' ''calm''" "startsWithCI ''calm'' ''Calm''"
    "startsWithCI ''calm'' ''CALM''"
    by (simp_all add: startsWithCI_def toLowerChar_def)
  then have "testCalm (pre @ ''calm'' @ post)" "testCalm (pre @ ''Calm'' @ post)"
    "testCalm (pre @ ''CALM'' @ post)"
    by (simp_all only: testCalm_anywhere)
  then show "parseWindSpeedKts (pre @ ''calm'' @ post) = Some (Num 0)"
    "parseWindSpeedKts (pre @ ''Calm'' @ post) = Some (Num 0)"
    "parseWindSpeedKts (pre @ ''CALM'' @ post) = Some (Num 0)"
    by (simp_all only: parseWindSpeedKts_def if_True)
qed

lemma parseWindSpeedKts_before_kts:
  assumes pre: "\<forall>c\<in>set pre. c \<notin> set ''0123456789.cC''"
    and ws: "\<forall>c\<in>set ws. c = CHR '' ''"
    and post: "\<forall>c\<in>set post. c \<notin> set ''cC''"
  shows "parseWindSpeedKts (pre @ showNat k @ ws @ ''kts'' @ post) = Some (Num (real k))"
proof -
  have pre': "\<forall>c\<in>set pre. \<not> isTokenChar c" using pre by (auto simp: isTokenChar_set)
  have sp: "\<forall>c\<in>set ws. isSpace c" using ws by (auto simp: isSpace_def)
  have tok: "\<forall>c\<in>set (showNat k). isTokenChar c" by (simp add: isTokenChar_showNat)
  have here: "matchKtsHere (showNat k @ ws @ ''kts'' @ post) = Some (showNat k)"
    using showNat_nonempty tok sp by (rule matchKtsHere_shape)
  have "matchKts (pre @ showNat k @ ws @ ''kts'' @ post) =
      matchKts (showNat k @ ws @ ''kts'' @ post)"
    using pre' by (rule matchKts_skip)
  also have "\<dots> = Some (showNat k)"
    using here showNat_nonempty [of k] by (intro matchKts_hit) simp_all
  finally have m: "matchKts (pre @ showNat k @ ws @ ''kts'' @ post) = Some (showNat k)" .
  have "\<not> testCalm (pre @ showNat k @ ws @ ''kts'' @ post)"
  proof
    assume "testCalm (pre @ showNat k @ ws @ ''kts'' @ post)"
    then obtain c where c: "c \<in> set (pre @ showNat k @ ws @ ''kts'' @ post)"
      and "toLowerChar c = CHR ''c''"
      using testCalm_letter by blast
    then have cc: "c = CHR ''c'' \<or> c = CHR ''C''" by (simp add: toLowerChar_c)
    from c have "c \<in> set pre \<or> c \<in> set (showNat k) \<or> c \<in> set ws \<or> c \<in> set ''kts'' \<or>
        c \<in> set post"
      by (simp only: set_append Un_iff)
    moreover have "c \<notin> set pre" using pre cc by auto
    moreover have "c \<notin> set (showNat k)" using showNat_digits [of c k] cc by (auto simp: isDigit_def)
    moreover have "c \<notin> set ws" using ws cc by auto
    moreover have "c \<notin> set ''kts''" using cc by auto
    moreover have "c \<notin> set post" using post cc by auto
    ultimately show False by blast
  qed
  with m show ?thesis by (simp add: parseWindSpeedKts_def parseFloat_showNat)
qed

text \<open>
  Claim C1, amended. For every student and every reading whose matched tokens begin a
  number, \<open>meetsStudentMinimums\<close> holds exactly when the parsed visibility, if there is
  one, is at least the level's minimum visibility; the parsed wind speed, if there is one,
  is at most the level's maximum wind; and the reading's category is among the level's
  allowed ones. A summary without a parsed number passes its check; the category is
  always checked. The minimums are 5 miles, 15 knots and VFR for a student pilot, 3 miles,
  20 knots and VFR or MVFR for a private pilot, 1 mile, 25 knots and every category for
  an instrument-rated pilot.

  On the summaries that the normalizer writes, the parsed visibility is the magnitude of
  the statute miles rounded to one decimal and the parsed wind speed the magnitude of the
  knots rounded to an integer: such a reading passes exactly when the first is at least
  the minimum visibility, the second at most the maximum wind and the category allowed.
  A reading of a record without visibility and wind ("N/A", "Calm") passes exactly when
  its category is allowed.

  On any summary: the parsed visibility is the number of the first run of digits and
  points, so there is none when the summary has no digit and no point, and it is \<open>a\<close>, or
  \<open>a\<close> and \<open>b\<close> tenths, when the first run is the digits of \<open>a\<close>, or these with a point and
  the digit \<open>b\<close>; the parsed wind speed is 0 when the summary contains "calm" anywhere
  (in any letter case, shown for three spellings), there is none when the summary has
  none of the letters c and k, and it is \<open>k\<close> when the digits of \<open>k\<close> and then blanks stand
  before "kts" and nothing before them has a digit, a point or the letter c. For a student
  pilot, a reading with the winds "Calm" and the visibility "unexpected" passes exactly
  when its category is VFR.
\<close>

theorem meetsStudentMinimums_iff:
  "(parseVisibilityMiles (visibility w) \<noteq> Some NaN \<and>
    parseWindSpeedKts (winds w) \<noteq> Some NaN \<longrightarrow>
      (meetsStudentMinimums s w \<longleftrightarrow>
         (\<forall>x. parseVisibilityMiles (visibility w) = Some (Num x) \<longrightarrow>
              minVisibility (trainingMinimumRules (trainingLevel s)) \<le> x) \<and>
         (\<forall>y. parseWindSpeedKts (winds w) = Some (Num y) \<longrightarrow>
              y \<le> maxWind (trainingMinimumRules (trainingLevel s))) \<and>
         conditions w \<in> set (allowedConditions (trainingMinimumRules (trainingLevel s))))) \<and>
   trainingMinimumRules StudentPilot =
     \<lparr>minVisibility = 5, maxWind = 15, allowedConditions = [VFR]\<rparr> \<and>
   trainingMinimumRules PrivatePilot =
     \<lparr>minVisibility = 3, maxWind = 20, allowedConditions = [VFR, MVFR]\<rparr> \<and>
   trainingMinimumRules InstrumentRated =
     \<lparr>minVisibility = 1, maxWind = 25, allowedConditions = [VFR, MVFR, IFR]\<rparr> \<and>
   (mark = degreeMark \<or> mark = degreeMarkPortal \<longrightarrow>
      parseVisibilityMiles (formatVisibility (Some m)) =
        Some (Num (real_of_int \<lfloor>\<bar>m / 1609.34\<bar> * 10 + 1 / 2\<rfloor> / 10)) \<and>
      parseWindSpeedKts (formatWindsWith mark (Some d) (Some sp)) =
        Some (Num \<bar>real_of_int \<lfloor>sp * 0.868976 + 1 / 2\<rfloor>\<bar>) \<and>
      (meetsStudentMinimums s
         (w\<lparr>visibility := formatVisibility (Some m),
            winds := formatWindsWith mark (Some d) (Some sp)\<rparr>) \<longleftrightarrow>
       minVisibility (trainingMinimumRules (trainingLevel s)) \<le>
         real_of_int \<lfloor>\<bar>m / 1609.34\<bar> * 10 + 1 / 2\<rfloor> / 10 \<and>
       \<bar>real_of_int \<lfloor>sp * 0.868976 + 1 / 2\<rfloor>\<bar> \<le>
         maxWind (trainingMinimumRules (trainingLevel s)) \<and>
       conditions w \<in> set (allowedConditions (trainingMinimumRules (trainingLevel s))))) \<and>
   (meetsStudentMinimums s
      (w\<lparr>visibility := formatVisibility None, winds := formatWindsWith mark None spo\<rparr>) \<longleftrightarrow>
    conditions w \<in> set (allowedConditions (trainingMinimumRules (trainingLevel s)))) \<and>
   ((\<forall>c\<in>set v. c \<notin> set ''0123456789.'') \<longrightarrow> parseVisibilityMiles v = None) \<and>
   ((\<forall>c\<in>set pre. c \<notin> set ''0123456789.'') \<and>
    (post = [] \<or> hd post \<notin> set ''0123456789.'') \<longrightarrow>
      parseVisibilityMiles (pre @ showNat a @ post) = Some (Num (real a)) \<and>
      (b < 10 \<longrightarrow>
         parseVisibilityMiles (pre @ showNat a @ ''.'' @ [digitChar b] @ post) =
           Some (Num (real a + real b / 10)))) \<and>
   parseWindSpeedKts (pre @ ''calm'' @ post) = Some (Num 0) \<and>
   parseWindSpeedKts (pre @ ''Calm'' @ post) = Some (Num 0) \<and>
   parseWindSpeedKts (pre @ ''CALM'' @ post) = Some (Num 0) \<and>
   ((\<forall>c\<in>set v. c \<notin> set ''cCkK'') \<longrightarrow> parseWindSpeedKts v = None) \<and>
   ((\<forall>c\<in>set pre. c \<notin> set ''0123456789.cC'') \<and> (\<forall>c\<in>set ws. c = CHR '' '') \<and>
    (\<forall>c\<in>set post. c \<notin> set ''cC'') \<longrightarrow>
      parseWindSpeedKts (pre @ showNat k @ ws @ ''kts'' @ post) = Some (Num (real k))) \<and>
   (meetsStudentMinimums studentPilot (w\<lparr>winds := ''Calm'', visibility := ''unexpected''\<rparr>)
      \<longleftrightarrow> conditions w = VFR)"
proof -
  have general: "meetsStudentMinimums s w \<longleftrightarrow>
       (\<forall>x. parseVisibilityMiles (visibility w) = Some (Num x) \<longrightarrow>
            minVisibility (trainingMinimumRules (trainingLevel s)) \<le> x) \<and>
       (\<forall>y. parseWindSpeedKts (winds w) = Some (Num y) \<longrightarrow>
            y \<le> maxWind (trainingMinimumRules (trainingLevel s))) \<and>
       conditions w \<in> set (allowedConditions (trainingMinimumRules (trainingLevel s)))"
    if nn: "parseVisibilityMiles (visibility w) \<noteq> Some NaN \<and>
            parseWindSpeedKts (winds w) \<noteq> Some NaN"
  proof -
    have vis: "(case parseVisibilityMiles (visibility w) of
                 None \<Rightarrow> True
               | Some v \<Rightarrow> js_ge v m) =
               (\<forall>x. parseVisibilityMiles (visibility w) = Some (Num x) \<longrightarrow> m \<le> x)" for m
    proof (cases "parseVisibilityMiles (visibility w)")
      case None
      then show ?thesis by simp
    next
      case (Some v)
      with nn obtain x where "v = Num x" by (cases v) auto
      with Some show ?thesis by simp
    qed
    have wnd: "(case parseWindSpeedKts (winds w) of
                 None \<Rightarrow> True
               | Some k \<Rightarrow> js_le k m) =
               (\<forall>y. parseWindSpeedKts (winds w) = Some (Num y) \<longrightarrow> y \<le> m)" for m
    proof (cases "parseWindSpeedKts (winds w)")
      case None
      then show ?thesis by simp
    next
      case (Some v)
      with nn obtain x where "v = Num x" by (cases v) auto
      with Some show ?thesis by simp
    qed
    show ?thesis
      by (simp add: meetsStudentMinimums_def Let_def vis wnd)
  qed
  have formatted: "meetsStudentMinimums s
         (w\<lparr>visibility := formatVisibility (Some m),
            winds := formatWindsWith mark (Some d) (Some sp)\<rparr>) \<longleftrightarrow>
       minVisibility (trainingMinimumRules (trainingLevel s)) \<le>
         real_of_int \<lfloor>\<bar>m / 1609.34\<bar> * 10 + 1 / 2\<rfloor> / 10 \<and>
       \<bar>real_of_int \<lfloor>sp * 0.868976 + 1 / 2\<rfloor>\<bar> \<le>
         maxWind (trainingMinimumRules (trainingLevel s)) \<and>
       conditions w \<in> set (allowedConditions (trainingMinimumRules (trainingLevel s)))"
    if mark: "mark = degreeMark \<or> mark = degreeMarkPortal"
    by (simp add: meetsStudentMinimums_def Let_def parseVisibilityMiles_formatVisibility
        parseWindSpeedKts_formatWinds [OF mark])
  have absent: "meetsStudentMinimums s
      (w\<lparr>visibility := formatVisibility None, winds := formatWindsWith mark None spo\<rparr>) \<longleftrightarrow>
    conditions w \<in> set (allowedConditions (trainingMinimumRules (trainingLevel s)))"
  proof -
    have v: "parseVisibilityMiles (formatVisibility None) = None"
      by (simp add: formatVisibility_def parse_eval)
    have k: "parseWindSpeedKts (formatWindsWith mark None spo) = Some (Num 0)"
      using parseWindSpeedKts_calm(2) [of "[]" "[]"] by (simp add: formatWindsWith_def)
    have "0 \<le> maxWind (trainingMinimumRules l)" for l by (cases l) simp_all
    then show ?thesis
      by (simp add: meetsStudentMinimums_def Let_def v k)
  qed
  have example:
    "meetsStudentMinimums studentPilot (w\<lparr>winds := ''Calm'', visibility := ''unexpected''\<rparr>)
       \<longleftrightarrow> conditions w = VFR"
    by (simp add: meetsStudentMinimums_def studentPilot_def parse_eval)
  have table: "trainingMinimumRules StudentPilot =
     \<lparr>minVisibility = 5, maxWind = 15, allowedConditions = [VFR]\<rparr>"
    "trainingMinimumRules PrivatePilot =
     \<lparr>minVisibility = 3, maxWind = 20, allowedConditions = [VFR, MVFR]\<rparr>"
    "trainingMinimumRules InstrumentRated =
     \<lparr>minVisibility = 1, maxWind = 25, allowedConditions = [VFR, MVFR, IFR]\<rparr>"
    by simp_all
  show ?thesis
    apply (intro conjI impI)
    subgoal by (rule general) simp
    subgoal by (rule table)
    subgoal by (rule table)
    subgoal by (rule table)
    subgoal by (rule parseVisibilityMiles_formatVisibility)
    subgoal by (rule parseWindSpeedKts_formatWinds)
    subgoal by (rule formatted)
    subgoal by (rule absent)
    subgoal by (rule parseVisibilityMiles_none)
    subgoal by (rule parseVisibilityMiles_first_token(1)) simp_all
    subgoal by (rule parseVisibilityMiles_first_token(2)) simp_all
    subgoal by (rule parseWindSpeedKts_calm)
    subgoal by (rule parseWindSpeedKts_calm)
    subgoal by (rule parseWindSpeedKts_calm)
    subgoal by (rule parseWindSpeedKts_none)
    subgoal by (rule parseWindSpeedKts_before_kts) simp_all
    subgoal by (rule example)
    done
qed

theorem meetsStudentMinimums_iff_witness:
  "parseVisibilityMiles (visibility fairReading) = Some (Num 5) \<and>
   parseWindSpeedKts (winds fairReading) = Some (Num 9) \<and>
   meetsStudentMinimums studentPilot fairReading \<and>
   \<not> meetsStudentMinimums studentPilot (fairReading\<lparr>conditions := MVFR\<rparr>) \<and>
   parseVisibilityMiles ''4.9 sm'' = Some (Num 4.9) \<and>
   \<not> meetsStudentMinimums studentPilot (fairReading\<lparr>visibility := ''4.9 sm''\<rparr>) \<and>
   parseWindSpeedKts (''272'' @ degreeMarkPortal @ '' at 16 kts'') = Some (Num 16) \<and>
   \<not> meetsStudentMinimums studentPilot
       (fairReading\<lparr>winds := ''272'' @ degreeMarkPortal @ '' at 16 kts''\<rparr>) \<and>
   meetsStudentMinimums privatePilot
       (fairReading\<lparr>winds := ''272'' @ degreeMarkPortal @ '' at 16 kts''\<rparr>) \<and>
   formatVisibility (Some 7885.766) = ''4.9 sm'' \<and>
   formatWindsWith degreeMarkPortal (Some 272.4) (Some 18.4) =
     ''272'' @ degreeMarkPortal @ '' at 16 kts'' \<and>
   \<not> meetsStudentMinimums studentPilot
       (fairReading\<lparr>visibility := formatVisibility (Some 7885.766),
          winds := formatWindsWith degreeMarkPortal (Some 272.4) (Some 10)\<rparr>) \<and>
   \<not> meetsStudentMinimums studentPilot
       (fairReading\<lparr>visibility := formatVisibility (Some 8046.7),
          winds := formatWindsWith degreeMarkPortal (Some 272.4) (Some 18.4)\<rparr>) \<and>
   meetsStudentMinimums studentPilot
       (fairReading\<lparr>visibility := formatVisibility (Some 8046.7),
          winds := formatWindsWith degreeMarkPortal (Some 272.4) (Some 10)\<rparr>) \<and>
   parseVisibilityMiles ''N/A'' = None \<and>
   parseWindSpeedKts ''12 mph'' = None \<and>
   parseWindSpeedKts ''Calm'' = Some (Num 0) \<and>
   parseWindSpeedKts ''Light, Calm later'' = Some (Num 0) \<and>
   parseVisibilityMiles ''approx 10 sm'' = Some (Num 10) \<and>
   parseVisibilityMiles ''2.5 sm'' = Some (Num 2.5) \<and>
   parseWindSpeedKts ''gusts 30 kts'' = Some (Num 30)"
proof -
  let ?windy = "fairReading\<lparr>winds := ''272'' @ degreeMarkPortal @ '' at 16 kts''\<rparr>"
  let ?hazy = "fairReading\<lparr>visibility := ''4.9 sm''\<rparr>"
  note general = meetsStudentMinimums_iff [THEN conjunct1, rule_format]
  note formatted = meetsStudentMinimums_iff [THEN conjunct2, THEN conjunct2, THEN conjunct2,
      THEN conjunct2, THEN conjunct1, rule_format, THEN conjunct2, THEN conjunct2]
  note noToken = meetsStudentMinimums_iff [THEN conjunct2, THEN conjunct2, THEN conjunct2,
      THEN conjunct2, THEN conjunct2, THEN conjunct2, THEN conjunct1, rule_format]
  note calm = meetsStudentMinimums_iff [THEN conjunct2, THEN conjunct2, THEN conjunct2,
      THEN conjunct2, THEN conjunct2, THEN conjunct2, THEN conjunct2, THEN conjunct2,
      THEN conjunct2, THEN conjunct1]
  note noKts = meetsStudentMinimums_iff [THEN conjunct2, THEN conjunct2, THEN conjunct2,
      THEN conjunct2, THEN conjunct2, THEN conjunct2, THEN conjunct2, THEN conjunct2,
      THEN conjunct2, THEN conjunct2, THEN conjunct2, THEN conjunct1, rule_format]
  have v5: "parseVisibilityMiles (visibility fairReading) = Some (Num 5)"
    by (simp add: fairReading_def parse_eval)
  have k9: "parseWindSpeedKts (winds fairReading) = Some (Num 9)"
    by (simp add: fairReading_def degreeMarkPortal_def parse_eval)
  have v49: "parseVisibilityMiles ''4.9 sm'' = Some (Num 4.9)"
    by (simp add: parse_eval)
  have k16: "parseWindSpeedKts (''272'' @ degreeMarkPortal @ '' at 16 kts'') = Some (Num 16)"
    by (simp add: degreeMarkPortal_def parse_eval)
  have cat: "conditions fairReading = VFR" by (simp add: fairReading_def)
  have a: "meetsStudentMinimums studentPilot fairReading"
    by (subst general) (simp_all add: v5 k9 cat studentPilot_def)
  have b: "\<not> meetsStudentMinimums studentPilot (fairReading\<lparr>conditions := MVFR\<rparr>)"
    by (subst general) (simp_all add: v5 k9 studentPilot_def)
  have c: "\<not> meetsStudentMinimums studentPilot ?hazy"
  proof
    assume "meetsStudentMinimums studentPilot ?hazy"
    then have "\<forall>x. parseVisibilityMiles (visibility ?hazy) = Some (Num x) \<longrightarrow>
        minVisibility (trainingMinimumRules (trainingLevel studentPilot)) \<le> x"
      by (subst (asm) general) (simp_all add: v49 k9)
    from this [rule_format, of "4.9"] show False
      by (simp add: v49 studentPilot_def)
  qed
  have d: "\<not> meetsStudentMinimums studentPilot ?windy"
  proof
    assume "meetsStudentMinimums studentPilot ?windy"
    then have "\<forall>y. parseWindSpeedKts (winds ?windy) = Some (Num y) \<longrightarrow>
        y \<le> maxWind (trainingMinimumRules (trainingLevel studentPilot))"
      by (subst (asm) general) (simp_all add: v5 k16 [simplified])
    from this [rule_format, of 16] show False
      by (simp add: k16 [simplified] studentPilot_def)
  qed
  have e: "meetsStudentMinimums privatePilot ?windy"
    by (subst general) (simp_all add: v5 k16 [simplified] cat privatePilot_def)
  have f1: "formatVisibility (Some 7885.766) = ''4.9 sm''"
    by (simp add: formatVisibility_def toFixed1_def showNat.simps digitChar_def)
  have f2: "formatWindsWith degreeMarkPortal (Some 272.4) (Some 18.4) =
     ''272'' @ degreeMarkPortal @ '' at 16 kts''"
    by (simp add: formatWindsWith_def Math_round_def numberToString_def showNat.simps
        digitChar_def)
  have g1: "\<not> meetsStudentMinimums studentPilot
       (fairReading\<lparr>visibility := formatVisibility (Some 7885.766),
          winds := formatWindsWith degreeMarkPortal (Some 272.4) (Some 10)\<rparr>)"
    by (subst formatted) (simp_all add: studentPilot_def)
  have g2: "\<not> meetsStudentMinimums studentPilot
       (fairReading\<lparr>visibility := formatVisibility (Some 8046.7),
          winds := formatWindsWith degreeMarkPortal (Some 272.4) (Some 18.4)\<rparr>)"
    by (subst formatted) (simp_all add: studentPilot_def)
  have g3: "meetsStudentMinimums studentPilot
       (fairReading\<lparr>visibility := formatVisibility (Some 8046.7),
          winds := formatWindsWith degreeMarkPortal (Some 272.4) (Some 10)\<rparr>)"
    by (subst formatted) (simp_all add: studentPilot_def cat)
  have h1: "parseVisibilityMiles ''N/A'' = None"
    by (rule noToken) auto
  have h2: "parseWindSpeedKts ''12 mph'' = None"
    by (rule noKts) auto
  have h3: "parseWindSpeedKts ''Calm'' = Some (Num 0)"
    by (simp add: parse_eval)
  have h4: "parseWindSpeedKts ''Light, Calm later'' = Some (Num 0)"
    using calm [of "''Light, ''" "'' later''"] by simp
  have t1: "parseVisibilityMiles ''approx 10 sm'' = Some (Num 10)"
    using meetsStudentMinimums_iff
      [where pre = "''approx ''" and a = 10 and post = "'' sm''",
       THEN conjunct2, THEN conjunct2, THEN conjunct2, THEN conjunct2,
       THEN conjunct2, THEN conjunct2, THEN conjunct2, THEN conjunct1]
    by (simp add: showNat.simps digitChar_def)
  have t2: "parseVisibilityMiles ''2.5 sm'' = Some (Num 2.5)"
    using meetsStudentMinimums_iff
      [where pre = "[]" and a = 2 and b = 5 and post = "'' sm''",
       THEN conjunct2, THEN conjunct2, THEN conjunct2, THEN conjunct2,
       THEN conjunct2, THEN conjunct2, THEN conjunct2, THEN conjunct1]
    by (simp add: showNat.simps digitChar_def)
  have t3: "parseWindSpeedKts ''gusts 30 kts'' = Some (Num 30)"
    using meetsStudentMinimums_iff
      [where pre = "''gusts ''" and k = 30 and ws = "'' ''" and post = "[]",
       THEN conjunct2, THEN conjunct2, THEN conjunct2, THEN conjunct2,
       THEN conjunct2, THEN conjunct2, THEN conjunct2, THEN conjunct2,
       THEN conjunct2, THEN conjunct2, THEN conjunct2, THEN conjunct2,
       THEN conjunct1]
    by (simp add: showNat.simps digitChar_def)
  from v5 k9 a b v49 c k16 d e f1 f2 g1 g2 g3 h1 h2 h3 h4 t1 t2 t3 show ?thesis by blast
qed

section \<open>Properties of the forecast aggregator\<close>

lemma firstOccurrences_set: "set (firstOccurrences xs) = set xs"
  by (induction xs) auto

lemma firstOccurrences_distinct: "distinct (firstOccurrences xs)"
  by (induction xs) (auto simp: firstOccurrences_set)

lemma firstOccurrences_snoc:
  "firstOccurrences (xs @ [x]) =
     (if x \<in> set xs then firstOccurrences xs else firstOccurrences xs @ [x])"
  by (induction xs) auto

lemma spec_entriesOf_snoc:
  "spec_entriesOf (es @ [e]) d =
     (if entryDateKey e = d then spec_entriesOf es d @ [e] else spec_entriesOf es d)"
  by (simp add: spec_entriesOf_def)

lemma spec_entriesOf_fresh:
  "d \<notin> set (map entryDateKey es) \<Longrightarrow> spec_entriesOf es d = []"
  by (induction es) (auto simp: spec_entriesOf_def)

lemma pushGrouped_known:
  "distinct ds \<Longrightarrow> k \<in> set ds \<Longrightarrow>
   pushGrouped k e (map (\<lambda>d. (d, G d)) ds) =
     map (\<lambda>d. (d, if d = k then G d @ [e] else G d)) ds"
  by (induction ds) auto

lemma pushGrouped_fresh:
  "k \<notin> set ds \<Longrightarrow>
   pushGrouped k e (map (\<lambda>d. (d, G d)) ds) = map (\<lambda>d. (d, G d)) ds @ [(k, [e])]"
  by (induction ds) auto

lemma groupByDate_snoc:
  "groupByDate (es @ [e]) = pushGrouped (entryDateKey e) e (groupByDate es)"
  by (simp add: groupByDate_def)

lemma groupByDate_spec:
  "groupByDate es = map (\<lambda>d. (d, spec_entriesOf es d)) (spec_dates es)"
proof (induction es rule: rev_induct)
  case Nil
  show ?case by (simp add: groupByDate_def spec_dates_def)
next
  case (snoc e es)
  let ?k = "entryDateKey e"
  have dist: "distinct (spec_dates es)"
    by (simp add: spec_dates_def firstOccurrences_distinct)
  have keys: "set (spec_dates es) = set (map entryDateKey es)"
    by (simp add: spec_dates_def firstOccurrences_set)
  show ?case
  proof (cases "?k \<in> set (map entryDateKey es)")
    case True
    then have "?k \<in> set (spec_dates es)" using keys by simp
    from pushGrouped_known [OF dist this]
    have "groupByDate (es @ [e]) =
        map (\<lambda>d. (d, if d = ?k then spec_entriesOf es d @ [e] else spec_entriesOf es d))
          (spec_dates es)"
      by (simp add: groupByDate_snoc snoc.IH)
    moreover have "spec_dates (es @ [e]) = spec_dates es"
      using True by (simp add: spec_dates_def firstOccurrences_snoc)
    ultimately show ?thesis
      by (auto simp: spec_entriesOf_snoc)
  next
    case False
    then have "?k \<notin> set (spec_dates es)" using keys by simp
    from pushGrouped_fresh [OF this]
    have "groupByDate (es @ [e]) =
        map (\<lambda>d. (d, spec_entriesOf es d)) (spec_dates es) @ [(?k, [e])]"
      by (simp add: groupByDate_snoc snoc.IH)
    moreover have "spec_dates (es @ [e]) = spec_dates es @ [?k]"
      using False by (simp add: spec_dates_def firstOccurrences_snoc)
    moreover have "spec_entriesOf es ?k = []"
      using False by (rule spec_entriesOf_fresh)
    moreover have "\<And>d. d \<in> set (spec_dates es) \<Longrightarrow> d \<noteq> ?k"
      using \<open>?k \<notin> set (spec_dates es)\<close> by auto
    ultimately show ?thesis
      by (auto simp: spec_entriesOf_snoc)
  qed
qed

lemma middayEntry_nonempty:
  "es \<noteq> [] \<Longrightarrow> middayEntry es = Some (spec_representative es)"
  by (cases es) (auto simp: middayEntry_def spec_representative_def split: option.splits)

lemma spec_entriesOf_nonempty:
  "d \<in> set (spec_dates es) \<Longrightarrow> spec_entriesOf es d \<noteq> []"
  by (auto simp: spec_dates_def firstOccurrences_set spec_entriesOf_def filter_empty_conv)

lemma summarizeLoop_take:
  "int (length acc) < n \<Longrightarrow>
   summarizeLoop normalizer n g acc =
     (case mapResult (\<lambda>(k, es). case middayEntry es of
                                  None \<Rightarrow> Inl TypeError
                                | Some e \<Rightarrow> normalizer e)
             (take (nat n - length acc) g) of
        Inl err \<Rightarrow> Inl err
      | Inr ws \<Rightarrow> Inr (acc @ ws))"
proof (induction g arbitrary: acc)
  case Nil
  show ?case by simp
next
  case (Cons p g)
  obtain k es where p: "p = (k, es)" by (cases p)
  from Cons.prems have "nat n - length acc \<noteq> 0" by linarith
  then obtain m where m: "nat n - length acc = Suc m"
    using not0_implies_Suc by blast
  show ?case
  proof (cases "middayEntry es")
    case None
    then show ?thesis by (simp add: p m)
  next
    case (Some e)
    show ?thesis
    proof (cases "normalizer e")
      case (Inl err)
      with Some show ?thesis by (simp add: p m)
    next
      case (Inr w)
      show ?thesis
      proof (cases "int (length (acc @ [w])) \<ge> n")
        case True
        with m have "m = 0" by simp
        with Some Inr True show ?thesis by (simp add: p m)
      next
        case False
        then have lt: "int (length (acc @ [w])) < n" by simp
        have "nat n - length (acc @ [w]) = m" using m by simp
        with Cons.IH [OF lt] Some Inr False show ?thesis
          by (simp add: p m split: sum.splits)
      qed
    qed
  qed
qed

lemma mapResult_cong:
  "(\<And>x. x \<in> set xs \<Longrightarrow> f x = g x) \<Longrightarrow> mapResult f xs = mapResult g xs"
  by (induction xs) (auto split: sum.splits)

lemma mapResult_map: "mapResult f (map h xs) = mapResult (\<lambda>x. f (h x)) xs"
  by (induction xs) (auto split: sum.splits)

lemma summarizeForecast_mapResult:
  "summarizeForecast normalizer entries days =
     mapResult (\<lambda>d. normalizer (spec_representative (spec_entriesOf entries d)))
       (take (nat (min (max days 1) 7)) (spec_dates entries))"
proof -
  let ?n = "min (max days 1) 7"
  have "int (length ([] :: WeatherData list)) < ?n" by simp
  from summarizeLoop_take [OF this, of normalizer "groupByDate entries"]
  have "summarizeForecast normalizer entries days =
      mapResult (\<lambda>(k, es). case middayEntry es of
                               None \<Rightarrow> Inl TypeError
                             | Some e \<Rightarrow> normalizer e)
        (take (nat ?n) (groupByDate entries))"
    by (simp add: summarizeForecast_def Let_def split: sum.splits)
  also have "\<dots> = mapResult (\<lambda>d. case middayEntry (spec_entriesOf entries d) of
                               None \<Rightarrow> Inl TypeError
                             | Some e \<Rightarrow> normalizer e)
        (take (nat ?n) (spec_dates entries))"
    by (simp add: groupByDate_spec take_map mapResult_map)
  also have "\<dots> = mapResult (\<lambda>d. normalizer (spec_representative (spec_entriesOf entries d)))
        (take (nat ?n) (spec_dates entries))"
  proof (rule mapResult_cong)
    fix d assume "d \<in> set (take (nat ?n) (spec_dates entries))"
    then have "d \<in> set (spec_dates entries)" by (rule in_set_takeD)
    then have "spec_entriesOf entries d \<noteq> []" by (rule spec_entriesOf_nonempty)
    then show "(case middayEntry (spec_entriesOf entries d) of
                  None \<Rightarrow> Inl TypeError
                | Some e \<Rightarrow> normalizer e) =
               normalizer (spec_representative (spec_entriesOf entries d))"
      by (simp add: middayEntry_nonempty)
  qed
  finally show ?thesis .
qed


lemma mapResult_Inr_iff: "mapResult f xs = Inr ys \<longleftrightarrow> map f xs = map Inr ys"
proof (induction xs arbitrary: ys)
  case Nil
  show ?case by auto
next
  case (Cons x xs)
  show ?case
  proof (cases ys)
    case Nil
    then show ?thesis by (auto split: sum.splits)
  next
    case (Cons y ys')
    with Cons.IH [of ys'] show ?thesis by (auto split: sum.splits)
  qed
qed

lemma mapWeatherWith_ok:
  "noEmptyDescription e \<Longrightarrow> \<exists>w. mapWeatherWith mark e = Inr w \<and> timestamp w = dt e * 1000"
  by (auto simp: noEmptyDescription_def mapWeatherWith_def buildSkySummary_def
      mapCapitalize_nonempty)

lemma spec_representative_in:
  "g \<noteq> [] \<Longrightarrow> spec_representative g \<in> set g"
  by (auto simp: spec_representative_def find_Some_iff split: option.splits)

lemma spec_representative_entriesOf:
  assumes "d \<in> set (spec_dates es)"
  shows "spec_representative (spec_entriesOf es d) \<in> set es"
    and "entryDateKey (spec_representative (spec_entriesOf es d)) = d"
proof -
  from assms have "spec_entriesOf es d \<noteq> []" by (rule spec_entriesOf_nonempty)
  then have "spec_representative (spec_entriesOf es d) \<in> set (spec_entriesOf es d)"
    by (rule spec_representative_in)
  then show "spec_representative (spec_entriesOf es d) \<in> set es"
    and "entryDateKey (spec_representative (spec_entriesOf es d)) = d"
    by (simp_all add: spec_entriesOf_def)
qed

lemma summarizeForecast_ok:
  assumes ok: "list_all noEmptyDescription es"
  shows "\<exists>ws. summarizeForecast (mapWeatherWith mark) es days = Inr ws \<and>
     map (\<lambda>w. getDateKey (timestamp w)) ws = take (nat (min (max days 1) 7)) (spec_dates es)"
proof -
  let ?ds = "take (nat (min (max days 1) 7)) (spec_dates es)"
  let ?f = "\<lambda>d. mapWeatherWith mark (spec_representative (spec_entriesOf es d))"
  have each: "\<exists>w. ?f d = Inr w \<and> getDateKey (timestamp w) = d" if "d \<in> set ?ds" for d
  proof -
    from that have d: "d \<in> set (spec_dates es)" by (rule in_set_takeD)
    from spec_representative_entriesOf [OF d] ok
    have "noEmptyDescription (spec_representative (spec_entriesOf es d))"
      and k: "entryDateKey (spec_representative (spec_entriesOf es d)) = d"
      by (auto simp: list_all_iff)
    from mapWeatherWith_ok [OF this(1), of mark] k show ?thesis
      by (auto simp: entryDateKey_def)
  qed
  have each':
    "?f d = Inr (projr (?f d)) \<and> getDateKey (timestamp (projr (?f d))) = d"
    if "d \<in> set ?ds" for d
    using each [OF that] by auto
  define ws where "ws = map (\<lambda>d. projr (?f d)) ?ds"
  have "map ?f ?ds = map Inr ws"
    unfolding ws_def using each' by simp
  then have "summarizeForecast (mapWeatherWith mark) es days = Inr ws"
    by (simp add: summarizeForecast_mapResult mapResult_Inr_iff)
  moreover have "map (\<lambda>w. getDateKey (timestamp w)) ws = ?ds"
    unfolding ws_def using each' by (simp add: map_idI)
  ultimately show ?thesis by blast
qed

lemma firstOccurrences_sorted:
  "sorted xs \<Longrightarrow> sorted_wrt (<) (firstOccurrences xs)"
proof (induction xs)
  case Nil
  show ?case by simp
next
  case (Cons x xs)
  then have "sorted_wrt (<) (firstOccurrences xs)" and ge: "\<forall>y\<in>set xs. x \<le> y" by auto
  then have "sorted_wrt (<) (filter (\<lambda>y. y \<noteq> x) (firstOccurrences xs))"
    by (simp add: sorted_wrt_filter)
  with ge show ?case by (auto simp: firstOccurrences_set)
qed

lemma spec_dates_sorted:
  assumes "sorted (map dt es)"
  shows "sorted_wrt (<) (spec_dates es)"
proof -
  have mono: "a \<le> b \<Longrightarrow> getDateKey (a * 1000) \<le> getDateKey (b * 1000)" for a b :: int
    by (simp add: getDateKey_def MS_PER_DAY_def zdiv_mono1)
  from assms have "sorted (map entryDateKey es)"
    by (induction es) (auto simp: entryDateKey_def mono)
  then show ?thesis by (simp add: spec_dates_def firstOccurrences_sorted)
qed

lemma week_dates:
  "map entryDateKey es = concat (map (\<lambda>i. replicate 8 (d0 + int i)) [0..<7]) \<Longrightarrow>
   spec_dates es = map (\<lambda>i. d0 + int i) [0..<7]"
  by (simp add: spec_dates_def upt_rec numeral_eq_Suc)

lemma sample_ok: "list_all noEmptyDescription forecastSample"
  by (simp add: forecastSample_def list_all_iff noEmptyDescription_def descriptionList_def)

lemma sample_dates:
  "map entryDateKey forecastSample = concat (map (\<lambda>i. replicate 8 (19676 + int i)) [0..<7])"
  by code_simp


lemma handlerDays_clamped: "min (max (handlerDays p) 1) 7 = handlerDays p"
  by (simp add: handlerDays_def split: option.splits)

text \<open>
  What the aggregator computes. It groups the entries by UTC date, the dates in the order
  of their first occurrence; takes for each date the first entry whose UTC hour is from 15
  to 21 or, when there is none, the entry at half the length of the date's list, rounded
  down; normalizes it; and gives the readings of the first \<open>clamp(days, 1, 7)\<close> dates, in
  that order and no more, stopping at the first entry on which the normalizer throws. The
  backend's handler does the same with its own day count. When no description is empty,
  the portal's \<open>fetchWeatherForecast\<close> returns that list: its dates are the first
  \<open>clamp(days, 1, 7)\<close> dates of the input, at most that many, and strictly ascending when
  the input is in time order; on seven dates of eight entries each and with \<open>days = 3\<close>
  it returns three readings, one for each of the first three dates. The dates and hours
  are written out from the seconds of the entries: the date is the number of the UTC day,
  \<open>dt * 1000 div 86400000\<close>, and the hour is \<open>dt * 1000 div 3600000 mod 24\<close>.
\<close>

theorem summarizeForecast_spec:
  "spec_dates entries = firstOccurrences (map (\<lambda>e. dt e * 1000 div 86400000) entries) \<and>
   spec_entriesOf entries d = filter (\<lambda>e. dt e * 1000 div 86400000 = d) entries \<and>
   spec_representative es =
     (case find (\<lambda>e. 15 \<le> dt e * 1000 div 3600000 mod 24 \<and>
                      dt e * 1000 div 3600000 mod 24 \<le> 21) es of
        Some e \<Rightarrow> e
      | None \<Rightarrow> es ! (length es div 2)) \<and>
   summarizeForecast normalizer entries days =
     mapResult (\<lambda>d. normalizer (spec_representative (spec_entriesOf entries d)))
       (take (nat (min (max days 1) 7)) (spec_dates entries)) \<and>
   forecastHandler (Forecast (Some entries)) parsed =
     (case summarizeForecast mapCurrentWeather entries (handlerDays parsed) of
        Inl err \<Rightarrow> Inl (Error ''Unable to fetch forecast weather'')
      | Inr dailySummaries \<Rightarrow> Inr dailySummaries) \<and>
   (list_all noEmptyDescription entries \<longrightarrow>
      summarizeForecast mapForecastEntry entries days =
        Inr (fetchWeatherForecast (Forecast (Some entries)) days) \<and>
      map (\<lambda>w. getDateKey (timestamp w)) (fetchWeatherForecast (Forecast (Some entries)) days) =
        take (nat (min (max days 1) 7)) (spec_dates entries) \<and>
      int (length (fetchWeatherForecast (Forecast (Some entries)) days)) \<le> min (max days 1) 7 \<and>
      (sorted (map dt entries) \<longrightarrow>
         sorted_wrt (<)
           (map (\<lambda>w. getDateKey (timestamp w))
              (fetchWeatherForecast (Forecast (Some entries)) days)))) \<and>
   (list_all noEmptyDescription entries \<and>
    map entryDateKey entries = concat (map (\<lambda>i. replicate 8 (d0 + int i)) [0..<7]) \<longrightarrow>
      map (\<lambda>w. getDateKey (timestamp w)) (fetchWeatherForecast (Forecast (Some entries)) 3) =
        [d0, d0 + 1, d0 + 2])"
proof -
  have handler: "forecastHandler (Forecast (Some entries)) parsed =
     (case summarizeForecast mapCurrentWeather entries (handlerDays parsed) of
        Inl err \<Rightarrow> Inl (Error ''Unable to fetch forecast weather'')
      | Inr dailySummaries \<Rightarrow> Inr dailySummaries)"
    by (simp add: forecastHandler_def summarizeForecast_def handlerDays_clamped)
  have fetched: "summarizeForecast mapForecastEntry entries n =
        Inr (fetchWeatherForecast (Forecast (Some entries)) n) \<and>
      map (\<lambda>w. getDateKey (timestamp w)) (fetchWeatherForecast (Forecast (Some entries)) n) =
        take (nat (min (max n 1) 7)) (spec_dates entries)"
    if ok: "list_all noEmptyDescription entries" for n
  proof -
    from summarizeForecast_ok [OF ok, of degreeMarkPortal n] obtain ws where
      ws: "summarizeForecast mapForecastEntry entries n = Inr ws"
        "map (\<lambda>w. getDateKey (timestamp w)) ws = take (nat (min (max n 1) 7)) (spec_dates entries)"
      by (auto simp: mapForecastEntry_def)
    then have "fetchWeatherForecast (Forecast (Some entries)) n = ws"
      by (simp add: fetchWeatherForecast_def)
    with ws show ?thesis by simp
  qed
  have len: "int (length (fetchWeatherForecast (Forecast (Some entries)) days)) \<le> min (max days 1) 7"
    if ok: "list_all noEmptyDescription entries"
  proof -
    from fetched [OF ok, of days]
    have "length (fetchWeatherForecast (Forecast (Some entries)) days) =
        length (take (nat (min (max days 1) 7)) (spec_dates entries))"
      by (metis length_map)
    then have "length (fetchWeatherForecast (Forecast (Some entries)) days) \<le>
        nat (min (max days 1) 7)"
      by simp
    then show ?thesis by linarith
  qed
  have asc: "sorted_wrt (<)
           (map (\<lambda>w. getDateKey (timestamp w))
              (fetchWeatherForecast (Forecast (Some entries)) days))"
    if ok: "list_all noEmptyDescription entries" and srt: "sorted (map dt entries)"
  proof -
    from spec_dates_sorted [OF srt]
    have "sorted_wrt (<) (take (nat (min (max days 1) 7)) (spec_dates entries))"
      by (rule sorted_wrt_take)
    with fetched [OF ok, of days] show ?thesis by simp
  qed
  have week: "map (\<lambda>w. getDateKey (timestamp w)) (fetchWeatherForecast (Forecast (Some entries)) 3) =
        [d0, d0 + 1, d0 + 2]"
    if ok: "list_all noEmptyDescription entries"
      and shape: "map entryDateKey entries = concat (map (\<lambda>i. replicate 8 (d0 + int i)) [0..<7])"
  proof -
    have "take (nat (min (max 3 1) 7)) (spec_dates entries) = [d0, d0 + 1, d0 + 2]"
      by (simp add: week_dates [OF shape] upt_rec numeral_eq_Suc)
    with fetched [OF ok, of 3] show ?thesis by simp
  qed
  have words: "spec_dates entries = firstOccurrences (map (\<lambda>e. dt e * 1000 div 86400000) entries)"
    "spec_entriesOf entries d = filter (\<lambda>e. dt e * 1000 div 86400000 = d) entries"
    "spec_representative es =
     (case find (\<lambda>e. 15 \<le> dt e * 1000 div 3600000 mod 24 \<and>
                      dt e * 1000 div 3600000 mod 24 \<le> 21) es of
        Some e \<Rightarrow> e
      | None \<Rightarrow> es ! (length es div 2))"
  proof -
    have key: "entryDateKey = (\<lambda>e. dt e * 1000 div 86400000)"
      by (simp add: fun_eq_iff entryDateKey_def getDateKey_def MS_PER_DAY_def)
    have hour: "isMidday = (\<lambda>e. 15 \<le> dt e * 1000 div 3600000 mod 24 \<and>
                      dt e * 1000 div 3600000 mod 24 \<le> 21)"
      by (simp add: fun_eq_iff isMidday_def getUTCHours_def Let_def)
    show "spec_dates entries = firstOccurrences (map (\<lambda>e. dt e * 1000 div 86400000) entries)"
      unfolding spec_dates_def key ..
    show "spec_entriesOf entries d = filter (\<lambda>e. dt e * 1000 div 86400000 = d) entries"
      unfolding spec_entriesOf_def key ..
    show "spec_representative es =
     (case find (\<lambda>e. 15 \<le> dt e * 1000 div 3600000 mod 24 \<and>
                      dt e * 1000 div 3600000 mod 24 \<le> 21) es of
        Some e \<Rightarrow> e
      | None \<Rightarrow> es ! (length es div 2))"
      unfolding spec_representative_def hour ..
  qed
  from words summarizeForecast_mapResult handler fetched len asc week show ?thesis by blast
qed

theorem summarizeForecast_spec_witness:
  "list_all noEmptyDescription forecastSample \<and>
   map entryDateKey forecastSample = concat (map (\<lambda>i. replicate 8 (19676 + int i)) [0..<7]) \<and>
   map (\<lambda>w. getDateKey (timestamp w)) (fetchWeatherForecast (Forecast (Some forecastSample)) 3) =
     [19676, 19677, 19678] \<and>
   length (fetchWeatherForecast (Forecast (Some forecastSample)) 3) = 3"
proof -
  have dates: "map (\<lambda>w. getDateKey (timestamp w))
      (fetchWeatherForecast (Forecast (Some forecastSample)) 3) = [19676, 19677, 19678]"
  proof -
    from summarizeForecast_spec [where entries = forecastSample and ?d0.0 = 19676]
    have "list_all noEmptyDescription forecastSample \<and>
        map entryDateKey forecastSample =
          concat (map (\<lambda>i. replicate 8 (19676 + int i)) [0..<7]) \<longrightarrow>
        map (\<lambda>w. getDateKey (timestamp w))
          (fetchWeatherForecast (Forecast (Some forecastSample)) 3) =
          [19676, 19676 + 1, 19676 + 2]"
      by blast
    with sample_ok sample_dates show ?thesis by simp
  qed
  then have "length (fetchWeatherForecast (Forecast (Some forecastSample)) 3) = 3"
    by (metis length_map length_Cons list.size(3) numeral_3_eq_3)
  with dates sample_ok sample_dates show ?thesis by blast
qed

text \<open>
  Claim C5. On a week of eight entries a day, asked for three days, the aggregator is to
  return three readings, one for each of the first three dates, each the entry selected
  for its date. It does so on the sample week, where it takes the entries of 15:00 UTC,
  and on a day without an entry from 15:00 to 21:00 it takes the entry at half the length
  of the day's list (the third of five). On the same week with an empty description on
  the entry of 15:00 of the first day, the normalizer throws on the selected entry (the
  defect of claim C8), and no reading is returned at all: the portal's
  \<open>fetchWeatherForecast\<close> returns the empty list and the backend's handler answers with its
  error, where three readings are due.
\<close>

theorem fetchWeatherForecast_empty_description:
  "map (\<lambda>e. dt e * 1000 div 86400000) brokenWeek =
     concat (map (\<lambda>i. replicate 8 (19676 + int i)) [0..<7]) \<and>
   fetchWeatherForecast (Forecast (Some brokenWeek)) 3 = [] \<and>
   forecastHandler (Forecast (Some brokenWeek)) (Some 3) =
     Inl (Error ''Unable to fetch forecast weather'') \<and>
   map timestamp (fetchWeatherForecast (Forecast (Some forecastSample)) 3) =
     [1700060400000, 1700146800000, 1700233200000] \<and>
   map timestamp (fetchWeatherForecast (Forecast (Some (take 5 forecastSample))) 3) =
     [1700028000000]"
  by code_simp

section \<open>Properties of the conflict scan\<close>

lemma status_update_same: "status b = s \<Longrightarrow> b\<lparr>status := s\<rparr> = b"
  by (cases b) auto

lemma valueOf_clearLesson:
  "valueOf (clearLesson b) = (if status b = Rescheduled then b else b\<lparr>status := Scheduled\<rparr>)"
  by (simp add: clearLesson_def status_update_same)

lemma clearLesson_kept: "\<not> isNewObject (clearLesson b) \<Longrightarrow> clearLesson b = SameObject b"
  by (simp add: clearLesson_def split: if_splits)

lemma valueOf_evaluateLesson:
  "valueOf (evaluateLesson tz student today fm b) =
     (if status b = Rescheduled then b
      else if \<not> inWindow tz today b then b\<lparr>status := Scheduled\<rparr>
      else b\<lparr>status :=
             statusFor student
               (forecastForDay (forecastOf fm (LOCATION_KEY (departureLocation b))) b)\<rparr>)"
  by (auto simp: evaluateLesson_def inWindow_def forecastForDay_def statusFor_def Let_def
      status_update_same split: option.splits)

lemma evaluateLesson_kept:
  "\<not> isNewObject (evaluateLesson tz student today fm b) \<Longrightarrow>
   evaluateLesson tz student today fm b = SameObject b"
  by (simp add: evaluateLesson_def Let_def split: if_splits)

lemma kept_all:
  assumes "\<And>b. \<not> isNewObject (f b) \<Longrightarrow> f b = SameObject b"
    and "\<not> list_ex isNewObject (map f prev)"
  shows "map (\<lambda>b. valueOf (f b)) prev = prev"
  using assms(2)
proof (induction prev)
  case Nil
  show ?case by simp
next
  case (Cons b prev)
  then have "\<not> isNewObject (f b)" by simp
  from assms(1) [OF this] Cons show ?case by simp
qed

lemma stateAfter_clearUpdater:
  "stateAfter prev (clearUpdater prev) = map (\<lambda>b. valueOf (clearLesson b)) prev"
  by (simp add: clearUpdater_def Let_def kept_all [of clearLesson, OF clearLesson_kept])

lemma stateAfter_evaluateUpdater:
  "stateAfter prev (evaluateUpdater tz student today fm prev) =
     map (\<lambda>b. valueOf (evaluateLesson tz student today fm b)) prev"
  by (simp add: evaluateUpdater_def Let_def
      kept_all [of "evaluateLesson tz student today fm", OF evaluateLesson_kept])

lemma stateAfter_scanConflicts:
  "stateAfter lessons (scanConflicts tz student provider now today lessons) =
     (if filter (isRelevant tz now) lessons = []
      then map (\<lambda>b. valueOf (clearLesson b)) lessons
      else map (\<lambda>b. valueOf (evaluateLesson tz student today
                  (scanForecastMap tz provider now lessons) b)) lessons)"
  by (auto simp: scanConflicts_def Let_def stateAfter_clearUpdater stateAfter_evaluateUpdater)

text \<open>The keys and the forecasts of the scan's map.\<close>

lemma mapSet_map_fst:
  "map fst (mapSet k v m) = (if k \<in> set (map fst m) then map fst m else map fst m @ [k])"
  by (induction m) (force simp: image_iff)+

lemma mapSet_keys: "set (map fst (mapSet k v m)) = insert k (set (map fst m))"
  unfolding mapSet_map_fst by auto

lemma mapSet_keyed:
  "k = key v \<Longrightarrow> list_all (\<lambda>p. fst p = key (snd p)) m \<Longrightarrow>
   list_all (\<lambda>p. fst p = key (snd p)) (mapSet k v m)"
  by (induction m) auto

lemma uniqueLocations_fold:
  "list_all (\<lambda>p. fst p = LOCATION_KEY (snd p)) m0 \<Longrightarrow>
   set (map fst (foldl (\<lambda>m lesson. mapSet (LOCATION_KEY (departureLocation lesson))
                              (departureLocation lesson) m) m0 ls)) =
     set (map fst m0) \<union> set (map (\<lambda>l. LOCATION_KEY (departureLocation l)) ls) \<and>
   list_all (\<lambda>p. fst p = LOCATION_KEY (snd p))
     (foldl (\<lambda>m lesson. mapSet (LOCATION_KEY (departureLocation lesson))
                              (departureLocation lesson) m) m0 ls)"
proof (induction ls arbitrary: m0)
  case Nil
  then show ?case by simp
next
  case (Cons l ls)
  let ?m1 = "mapSet (LOCATION_KEY (departureLocation l)) (departureLocation l) m0"
  have k1: "set (map fst ?m1) = insert (LOCATION_KEY (departureLocation l)) (set (map fst m0))"
    by (rule mapSet_keys)
  have inv1: "list_all (\<lambda>p. fst p = LOCATION_KEY (snd p)) ?m1"
    using Cons.prems by (intro mapSet_keyed) simp_all
  from Cons.IH [OF inv1] k1 show ?case by auto
qed

lemma uniqueLocations_keys:
  "set (map LOCATION_KEY (uniqueLocations ls)) =
     set (map (\<lambda>l. LOCATION_KEY (departureLocation l)) ls)"
proof -
  let ?m = "foldl (\<lambda>m lesson. mapSet (LOCATION_KEY (departureLocation lesson))
                              (departureLocation lesson) m) [] ls"
  have "list_all (\<lambda>p. fst p = LOCATION_KEY (snd p)) ([] :: ((real \<times> real) \<times> Location) list)"
    by simp
  from uniqueLocations_fold [OF this, of ls]
  have keys: "set (map fst ?m) = set (map (\<lambda>l. LOCATION_KEY (departureLocation l)) ls)"
    and inv: "list_all (\<lambda>p. fst p = LOCATION_KEY (snd p)) ?m"
    by simp_all
  from inv have "map (\<lambda>p. LOCATION_KEY (snd p)) ?m = map fst ?m"
    by (simp add: list_all_iff)
  then have "map LOCATION_KEY (uniqueLocations ls) = map fst ?m"
    by (simp add: uniqueLocations_def comp_def)
  with keys show ?thesis by simp
qed

lemma uniqueLocations_key_image:
  "LOCATION_KEY ` set (uniqueLocations ls) = (\<lambda>l. LOCATION_KEY (departureLocation l)) ` set ls"
  using uniqueLocations_keys [of ls] by simp

lemma map_of_forecastEntries:
  "map_of (forecastEntries provider locs) k =
     (if k \<in> set (map LOCATION_KEY locs)
      then Some (fetchWeatherForecast (provider (fst k) (snd k)) 7) else None)"
  by (induction locs) (auto simp: forecastEntries_def LOCATION_KEY_def)

lemma forecastOf_scan:
  "forecastOf (scanForecastMap tz provider now lessons) k =
     (if k \<in> set (map (\<lambda>l. LOCATION_KEY (departureLocation l))
                     (filter (isRelevant tz now) lessons))
      then fetchWeatherForecast (provider (fst k) (snd k)) 7 else [])"
  by (simp add: forecastOf_def scanForecastMap_def map_of_forecastEntries
      uniqueLocations_key_image)

lemma isRelevant_iff: "isRelevant tz now b \<longleftrightarrow> status b \<noteq> Rescheduled \<and> inWindow tz now b"
  by (simp add: isRelevant_def inWindow_def Let_def)


text \<open>The readings of a fetched forecast have pairwise different dates.\<close>

lemma mapWeatherWith_timestamp:
  "mapWeatherWith mark e = Inr w \<Longrightarrow> timestamp w = dt e * 1000"
  by (auto simp: mapWeatherWith_def split: sum.splits)

lemma spec_dates_distinct: "distinct (spec_dates es)"
  by (simp add: spec_dates_def firstOccurrences_distinct)

lemma summarizeForecast_dates:
  assumes "summarizeForecast (mapWeatherWith mark) es days = Inr ws"
  shows "map (\<lambda>w. getDateKey (timestamp w)) ws = take (nat (min (max days 1) 7)) (spec_dates es)"
proof -
  let ?ds = "take (nat (min (max days 1) 7)) (spec_dates es)"
  let ?f = "\<lambda>d. mapWeatherWith mark (spec_representative (spec_entriesOf es d))"
  from assms have eq: "map ?f ?ds = map Inr ws"
    by (simp add: summarizeForecast_mapResult mapResult_Inr_iff)
  have len: "length ws = length ?ds"
    using arg_cong [OF eq, of length] by simp
  show ?thesis
  proof (rule nth_equalityI)
    show "length (map (\<lambda>w. getDateKey (timestamp w)) ws) = length ?ds" using len by simp
  next
    fix i assume "i < length (map (\<lambda>w. getDateKey (timestamp w)) ws)"
    then have i: "i < length ?ds" using len by simp
    then have "?ds ! i \<in> set ?ds" by (rule nth_mem)
    then have d: "?ds ! i \<in> set (spec_dates es)" by (rule in_set_takeD)
    have "?f (?ds ! i) = Inr (ws ! i)"
      using arg_cong [OF eq, of "\<lambda>l. l ! i"] i len by simp
    then have "timestamp (ws ! i) = dt (spec_representative (spec_entriesOf es (?ds ! i))) * 1000"
      by (rule mapWeatherWith_timestamp)
    with spec_representative_entriesOf(2) [OF d]
    have "getDateKey (timestamp (ws ! i)) = ?ds ! i"
      by (simp add: entryDateKey_def)
    with i len show "map (\<lambda>w. getDateKey (timestamp w)) ws ! i = ?ds ! i" by simp
  qed
qed

lemma fetchWeatherForecast_distinct:
  "distinct (map (\<lambda>w. getDateKey (timestamp w)) (fetchWeatherForecast response days))"
proof (cases response)
  case Unavailable
  then show ?thesis by (simp add: fetchWeatherForecast_def)
next
  case (Forecast l)
  let ?es = "case l of None \<Rightarrow> [] | Some es \<Rightarrow> es"
  show ?thesis
  proof (cases "summarizeForecast mapForecastEntry ?es days")
    case (Inl err)
    with Forecast show ?thesis by (simp add: fetchWeatherForecast_def)
  next
    case (Inr ws)
    then have "map (\<lambda>w. getDateKey (timestamp w)) ws =
        take (nat (min (max days 1) 7)) (spec_dates ?es)"
      unfolding mapForecastEntry_def by (rule summarizeForecast_dates)
    moreover have "fetchWeatherForecast response days = ws"
      using Forecast Inr by (simp add: fetchWeatherForecast_def)
    ultimately show ?thesis
      by (simp add: spec_dates_distinct)
  qed
qed

lemma forecastOf_scan_distinct:
  "distinct (map (\<lambda>w. getDateKey (timestamp w))
     (forecastOf (scanForecastMap tz provider now lessons) k))"
  by (simp add: forecastOf_scan fetchWeatherForecast_distinct)

lemma find_distinct_key:
  "distinct (map key xs) \<Longrightarrow>
   find (\<lambda>x. key x = t) xs = Some f \<longleftrightarrow> f \<in> set xs \<and> key f = t"
  by (induction xs) (auto simp: image_iff)

lemma statusFor_conflict:
  assumes "distinct (map (\<lambda>w. getDateKey (timestamp w)) daily)"
  shows "statusFor student (forecastForDay daily b) = WeatherConflict \<longleftrightarrow>
     (\<exists>f\<in>set daily. getDateKey (timestamp f) = getDateKey (scheduledDate b) \<and>
        \<not> meetsStudentMinimums student f)"
proof -
  have found: "forecastForDay daily b = Some f \<longleftrightarrow>
      f \<in> set daily \<and> getDateKey (timestamp f) = getDateKey (scheduledDate b)" for f
    unfolding forecastForDay_def
    using find_distinct_key [OF assms, of "getDateKey (scheduledDate b)" f] by simp
  show ?thesis
  proof (cases "forecastForDay daily b")
    case None
    have "getDateKey (timestamp f) \<noteq> getDateKey (scheduledDate b)" if "f \<in> set daily" for f
      using found [of f] None that by simp
    with None show ?thesis by (auto simp: statusFor_def)
  next
    case (Some g)
    have g: "g \<in> set daily \<and> getDateKey (timestamp g) = getDateKey (scheduledDate b)"
      using found [of g] Some by simp
    have only: "f = g"
      if "f \<in> set daily" and "getDateKey (timestamp f) = getDateKey (scheduledDate b)" for f
      using found [of f] Some that by simp
    show ?thesis
    proof (cases "meetsStudentMinimums student g")
      case True
      with only have "\<not> (\<exists>f\<in>set daily.
          getDateKey (timestamp f) = getDateKey (scheduledDate b) \<and>
          \<not> meetsStudentMinimums student f)"
        by blast
      with Some True show ?thesis by (simp add: statusFor_def)
    next
      case False
      with g have "\<exists>f\<in>set daily.
          getDateKey (timestamp f) = getDateKey (scheduledDate b) \<and>
          \<not> meetsStudentMinimums student f"
        by blast
      with Some False show ?thesis by (simp add: statusFor_def)
    qed
  qed
qed

text \<open>
  The scan, booking by booking, in the words of the source: \<open>isRelevant\<close> is the filter of
  the effect, \<open>inWindow\<close> the test of \<open>evaluateConflicts\<close>, and the forecast of a booking is
  what the map of the scan holds for the key of its location.
\<close>

lemma scan_statuses_in_words:
  fixes tz :: "int \<Rightarrow> int" and student :: Student
    and provider :: "real \<Rightarrow> real \<Rightarrow> forecastResponse"
    and now today :: int and lessons :: "FlightBooking list" and i :: nat
  assumes i: "i < length lessons"
  defines "b \<equiv> lessons ! i"
    and "b' \<equiv> stateAfter lessons (scanConflicts tz student provider now today lessons) ! i"
    and "relevant \<equiv> filter (isRelevant tz now) lessons"
    and "daily \<equiv> forecastOf (scanForecastMap tz provider now lessons)
                    (LOCATION_KEY (departureLocation (lessons ! i)))"
  shows "(status b = Rescheduled \<longrightarrow> b' = b) \<and>
    (status b \<noteq> Rescheduled \<and> relevant = [] \<longrightarrow>
       \<not> inWindow tz now b \<and> b' = b\<lparr>status := Scheduled\<rparr>) \<and>
    (status b \<noteq> Rescheduled \<and> relevant \<noteq> [] \<and> \<not> inWindow tz today b \<longrightarrow>
       b' = b\<lparr>status := Scheduled\<rparr>) \<and>
    (status b \<noteq> Rescheduled \<and> relevant \<noteq> [] \<and> inWindow tz today b \<longrightarrow>
       b' = b\<lparr>status :=
              if \<exists>f\<in>set daily. getDateKey (timestamp f) = getDateKey (scheduledDate b) \<and>
                   \<not> meetsStudentMinimums student f
              then WeatherConflict else Scheduled\<rparr>) \<and>
    (status b \<noteq> Rescheduled \<and> inWindow tz now b \<longrightarrow>
       daily = fetchWeatherForecast
                 (provider (lat (departureLocation b)) (lon (departureLocation b))) 7)"
proof -
  have after: "stateAfter lessons (scanConflicts tz student provider now today lessons) =
     (if relevant = []
      then map (\<lambda>b. valueOf (clearLesson b)) lessons
      else map (\<lambda>b. valueOf (evaluateLesson tz student today
                  (scanForecastMap tz provider now lessons) b)) lessons)"
    unfolding relevant_def by (rule stateAfter_scanConflicts)
  have mem: "b \<in> set lessons" unfolding b_def using i by simp
  have c1: "status b = Rescheduled \<longrightarrow> b' = b"
    unfolding b'_def after using i
    by (simp add: b_def valueOf_clearLesson valueOf_evaluateLesson)
  have c2: "status b \<noteq> Rescheduled \<and> relevant = [] \<longrightarrow>
       \<not> inWindow tz now b \<and> b' = b\<lparr>status := Scheduled\<rparr>"
  proof (intro impI, elim conjE)
    assume ns: "status b \<noteq> Rescheduled" and none: "relevant = []"
    from none mem have "\<not> isRelevant tz now b"
      unfolding relevant_def by (auto simp: filter_empty_conv)
    with ns have out: "\<not> inWindow tz now b" by (simp add: isRelevant_iff)
    have "b' = b\<lparr>status := Scheduled\<rparr>"
      unfolding b'_def after using i none ns
      by (simp add: b_def valueOf_clearLesson)
    with out show "\<not> inWindow tz now b \<and> b' = b\<lparr>status := Scheduled\<rparr>" by simp
  qed
  have c3: "status b \<noteq> Rescheduled \<and> relevant \<noteq> [] \<and> \<not> inWindow tz today b \<longrightarrow>
       b' = b\<lparr>status := Scheduled\<rparr>"
    unfolding b'_def after using i
    by (simp add: b_def valueOf_evaluateLesson)
  have dist: "distinct (map (\<lambda>w. getDateKey (timestamp w)) daily)"
    unfolding daily_def by (rule forecastOf_scan_distinct)
  have c4: "status b \<noteq> Rescheduled \<and> relevant \<noteq> [] \<and> inWindow tz today b \<longrightarrow>
       b' = b\<lparr>status :=
              if \<exists>f\<in>set daily. getDateKey (timestamp f) = getDateKey (scheduledDate b) \<and>
                   \<not> meetsStudentMinimums student f
              then WeatherConflict else Scheduled\<rparr>"
  proof (intro impI, elim conjE)
    assume ns: "status b \<noteq> Rescheduled" and some: "relevant \<noteq> []"
      and win: "inWindow tz today b"
    have st: "statusFor student (forecastForDay daily b) =
        (if \<exists>f\<in>set daily. getDateKey (timestamp f) = getDateKey (scheduledDate b) \<and>
               \<not> meetsStudentMinimums student f
         then WeatherConflict else Scheduled)"
      using statusFor_conflict [OF dist, of student b]
      by (cases "forecastForDay daily b") (auto simp: statusFor_def)
    have "b' = b\<lparr>status := statusFor student (forecastForDay daily b)\<rparr>"
      unfolding b'_def after using i ns some win
      by (simp add: b_def daily_def valueOf_evaluateLesson)
    with st show "b' = b\<lparr>status :=
              if \<exists>f\<in>set daily. getDateKey (timestamp f) = getDateKey (scheduledDate b) \<and>
                   \<not> meetsStudentMinimums student f
              then WeatherConflict else Scheduled\<rparr>"
      by simp
  qed
  have c5: "status b \<noteq> Rescheduled \<and> inWindow tz now b \<longrightarrow>
       daily = fetchWeatherForecast
                 (provider (lat (departureLocation b)) (lon (departureLocation b))) 7"
  proof (intro impI, elim conjE)
    assume "status b \<noteq> Rescheduled" and "inWindow tz now b"
    then have "isRelevant tz now b" by (simp add: isRelevant_iff)
    with mem have "LOCATION_KEY (departureLocation b) \<in>
        set (map (\<lambda>l. LOCATION_KEY (departureLocation l)) (filter (isRelevant tz now) lessons))"
      by auto
    then show "daily = fetchWeatherForecast
                 (provider (lat (departureLocation b)) (lon (departureLocation b))) 7"
      unfolding daily_def b_def [symmetric]
      by (simp add: forecastOf_scan LOCATION_KEY_def)
  qed
  show ?thesis
    by (rule conjI [OF c1 conjI [OF c2 conjI [OF c3 conjI [OF c4 c5]]]])
qed


text \<open>The sample scan, evaluated.\<close>

lemma badDay_reading: "fetchWeatherForecast (Forecast (Some [badDay])) 7 = [badReading]"
  by (simp add: fetchWeatherForecast_def summarizeForecast_def groupByDate_def
      middayEntry_def isMidday_def getUTCHours_def badDay_def badReading_def
      mapForecastEntry_def mapWeatherWith_def descriptionList_def buildSkySummary_def
      toUpperChar_def formatWindsWith_def formatVisibility_def determineFlightCategory_def
      coverageOrZero_def Math_round_def numberToString_def toFixed1_def showNat.simps
      digitChar_def)

lemma fetchWeatherForecast_Unavailable: "fetchWeatherForecast Unavailable days = []"
  by (simp add: fetchWeatherForecast_def)

lemma badReading_fails: "\<not> meetsStudentMinimums privatePilot badReading"
  by (simp add: meetsStudentMinimums_def privatePilot_def badReading_def parse_eval)

lemma sample_windows:
  "inWindow utc scanClock lessonConflict" "inWindow utc scanClock lessonRescheduled"
  "\<not> inWindow utc scanClock lessonFar" "inWindow utc scanClock lessonNoForecast"
  by (simp_all add: inWindow_def differenceInDays_def localDateUtc_def utc_def MS_PER_DAY_def
      scanClock_def lessonConflict_def lessonRescheduled_def lessonFar_def lessonNoForecast_def)

lemma sample_relevant:
  "filter (isRelevant utc scanClock) scanLessons = [lessonConflict, lessonNoForecast]"
  using sample_windows
  by (simp add: scanLessons_def isRelevant_iff)
    (simp add: lessonConflict_def lessonRescheduled_def lessonFar_def lessonNoForecast_def)

lemma sample_forecastMap:
  "scanForecastMap utc sampleProvider scanClock scanLessons =
     [(LOCATION_KEY flyingCloud, [badReading]), (LOCATION_KEY stPaul, [])]"
  by (simp add: scanForecastMap_def sample_relevant uniqueLocations_def forecastEntries_def)
    (simp add: lessonConflict_def lessonNoForecast_def LOCATION_KEY_def flyingCloud_def
      stPaul_def sampleProvider_def badDay_reading fetchWeatherForecast_Unavailable)

lemma sample_scan:
  "scanConflicts utc privatePilot sampleProvider scanClock scanClock scanLessons =
     NewArray [NewObject (lessonConflict\<lparr>status := WeatherConflict\<rparr>),
               SameObject lessonRescheduled,
               NewObject (lessonFar\<lparr>status := Scheduled\<rparr>),
               NewObject (lessonNoForecast\<lparr>status := Scheduled\<rparr>)]"
proof -
  have keys: "LOCATION_KEY flyingCloud \<noteq> LOCATION_KEY stPaul"
    by (simp add: LOCATION_KEY_def flyingCloud_def stPaul_def)
  have d1: "differenceInDays utc scanClock (scheduledDate lessonConflict) = 2"
    and d2: "differenceInDays utc scanClock (scheduledDate lessonFar) = 10"
    and d3: "differenceInDays utc scanClock (scheduledDate lessonNoForecast) = 2"
    by (simp_all add: differenceInDays_def localDateUtc_def utc_def MS_PER_DAY_def
        scanClock_def lessonConflict_def lessonFar_def lessonNoForecast_def)
  have e1: "evaluateLesson utc privatePilot scanClock
        [(LOCATION_KEY flyingCloud, [badReading]), (LOCATION_KEY stPaul, [])] lessonConflict =
      NewObject (lessonConflict\<lparr>status := WeatherConflict\<rparr>)"
    using badReading_fails
    by (simp add: evaluateLesson_def d1 forecastOf_def Let_def)
      (simp add: lessonConflict_def badReading_def getDateKey_def MS_PER_DAY_def)
  have e2: "evaluateLesson utc privatePilot scanClock fm lessonRescheduled =
      SameObject lessonRescheduled" for fm
    by (simp add: evaluateLesson_def lessonRescheduled_def)
  have e3: "evaluateLesson utc privatePilot scanClock fm lessonFar =
      NewObject (lessonFar\<lparr>status := Scheduled\<rparr>)" for fm
    by (simp add: evaluateLesson_def d2 Let_def) (simp add: lessonFar_def)
  have e4: "evaluateLesson utc privatePilot scanClock
        [(LOCATION_KEY flyingCloud, [badReading]), (LOCATION_KEY stPaul, [])] lessonNoForecast =
      NewObject (lessonNoForecast\<lparr>status := Scheduled\<rparr>)"
    using keys
    by (simp add: evaluateLesson_def d3 forecastOf_def Let_def)
      (simp add: lessonNoForecast_def)
  show ?thesis
    by (simp add: scanConflicts_def sample_relevant sample_forecastMap evaluateUpdater_def Let_def)
      (simp add: scanLessons_def e1 e2 e3 e4)
qed


text \<open>
  The forecast that the scan holds for a booking's location is the one fetched for its
  latitude and longitude when a relevant lesson departs from there, and empty otherwise.
\<close>

lemma forecastOf_scan_location:
  "forecastOf (scanForecastMap tz provider now lessons) (LOCATION_KEY (departureLocation b)) =
     (if \<exists>l\<in>set lessons. isRelevant tz now l \<and>
           lat (departureLocation l) = lat (departureLocation b) \<and>
           lon (departureLocation l) = lon (departureLocation b)
      then fetchWeatherForecast
             (provider (lat (departureLocation b)) (lon (departureLocation b))) 7
      else [])"
proof (cases "\<exists>l\<in>set lessons. isRelevant tz now l \<and>
           lat (departureLocation l) = lat (departureLocation b) \<and>
           lon (departureLocation l) = lon (departureLocation b)")
  case True
  then have "LOCATION_KEY (departureLocation b) \<in>
      set (map (\<lambda>l. LOCATION_KEY (departureLocation l)) (filter (isRelevant tz now) lessons))"
    by (auto simp: LOCATION_KEY_def image_iff)
  with True show ?thesis
    by (simp only: forecastOf_scan if_True) (simp add: LOCATION_KEY_def)
next
  case False
  then have "LOCATION_KEY (departureLocation b) \<notin>
      set (map (\<lambda>l. LOCATION_KEY (departureLocation l)) (filter (isRelevant tz now) lessons))"
    by (auto simp: LOCATION_KEY_def image_iff)
  with False show ?thesis
    by (simp only: forecastOf_scan if_False)
qed

text \<open>The second sample scan, evaluated.\<close>

lemma zone_forecast:
  "fetchWeatherForecast (zoneProvider (lat flyingCloud) (lon flyingCloud)) 7 =
     [badReading, fairDayReading, badReading\<lparr>timestamp := 1700676000000\<rparr>]"
  by (simp add: zoneProvider_def flyingCloud_def fetchWeatherForecast_def summarizeForecast_def
      groupByDate_def entryDateKey_def getDateKey_def MS_PER_DAY_def
      middayEntry_def isMidday_def getUTCHours_def badDay_def badReading_def fairDay_def
      fairDayReading_def
      mapForecastEntry_def mapWeatherWith_def descriptionList_def buildSkySummary_def
      toUpperChar_def formatWindsWith_def formatVisibility_def determineFlightCategory_def
      coverageOrZero_def Math_round_def numberToString_def toFixed1_def showNat.simps
      digitChar_def)

lemma fairDayReading_passes: "meetsStudentMinimums privatePilot fairDayReading"
  by (simp add: meetsStudentMinimums_def privatePilot_def fairDayReading_def degreeMarkPortal_def
      parse_eval)

lemma lateBadReading_fails:
  "\<not> meetsStudentMinimums privatePilot (badReading\<lparr>timestamp := 1700676000000\<rparr>)"
  using badReading_fails by (simp add: meetsStudentMinimums_def)

lemma zone_scan:
  "scanConflicts central privatePilot zoneProvider zoneClock zoneClock zoneLessons =
     NewArray [SameObject eveningLesson,
               NewObject (lateLesson\<lparr>status := WeatherConflict\<rparr>),
               NewObject (morningLesson\<lparr>status := Scheduled\<rparr>)]"
proof -
  have d1: "differenceInDays central zoneClock (scheduledDate eveningLesson) = 2"
    and d2: "differenceInDays central zoneClock (scheduledDate lateLesson) = 6"
    and d3: "differenceInDays central zoneClock (scheduledDate morningLesson) = 7"
    by (simp_all add: differenceInDays_def localDateUtc_def central_def MS_PER_DAY_def
        zoneClock_def eveningLesson_def lateLesson_def morningLesson_def)
  have rel: "filter (isRelevant central zoneClock) zoneLessons = [eveningLesson, lateLesson]"
    by (simp add: zoneLessons_def isRelevant_def d1 d2 d3 Let_def)
      (simp add: eveningLesson_def lateLesson_def)
  have fm: "scanForecastMap central zoneProvider zoneClock zoneLessons =
      [(LOCATION_KEY flyingCloud,
        [badReading, fairDayReading, badReading\<lparr>timestamp := 1700676000000\<rparr>])]"
    by (simp add: scanForecastMap_def rel uniqueLocations_def forecastEntries_def)
      (simp add: eveningLesson_def lateLesson_def zone_forecast)
  let ?fm = "[(LOCATION_KEY flyingCloud,
        [badReading, fairDayReading, badReading\<lparr>timestamp := 1700676000000\<rparr>])]"
  have e1: "evaluateLesson central privatePilot zoneClock ?fm eveningLesson =
      SameObject eveningLesson"
    using fairDayReading_passes
    by (simp add: evaluateLesson_def d1 forecastOf_def Let_def)
      (simp add: eveningLesson_def badReading_def fairDayReading_def getDateKey_def MS_PER_DAY_def)
  have e2: "evaluateLesson central privatePilot zoneClock ?fm lateLesson =
      NewObject (lateLesson\<lparr>status := WeatherConflict\<rparr>)"
    using lateBadReading_fails
    by (simp add: evaluateLesson_def d2 forecastOf_def Let_def)
      (simp add: lateLesson_def badReading_def fairDayReading_def getDateKey_def MS_PER_DAY_def)
  have e3: "evaluateLesson central privatePilot zoneClock fm morningLesson =
      NewObject (morningLesson\<lparr>status := Scheduled\<rparr>)" for fm
    by (simp add: evaluateLesson_def d3 Let_def) (simp add: morningLesson_def)
  show ?thesis
    by (simp add: scanConflicts_def rel fm evaluateUpdater_def Let_def)
      (simp add: zoneLessons_def e1 e2 e3)
qed

lemma zone_days:
  "(scheduledDate eveningLesson + central (scheduledDate eveningLesson)) div 86400000 = 19678"
  "(scheduledDate lateLesson + central (scheduledDate lateLesson)) div 86400000 = 19682"
  "(scheduledDate morningLesson + central (scheduledDate morningLesson)) div 86400000 = 19683"
  "(zoneClock + central zoneClock) div 86400000 = 19676"
  "scheduledDate eveningLesson div 86400000 = 19679"
  "scheduledDate lateLesson div 86400000 = 19683"
  "zoneClock div 86400000 = 19676"
  by (simp_all add: eveningLesson_def lateLesson_def morningLesson_def central_def zoneClock_def)

lemma zone_reading_days:
  "timestamp badReading div 86400000 = 19678"
  "timestamp fairDayReading div 86400000 = 19679"
  by (simp_all add: badReading_def fairDayReading_def)

lemma zone_fields:
  "status eveningLesson = Scheduled" "status lateLesson = Scheduled"
  "status morningLesson = WeatherConflict"
  "departureLocation eveningLesson = flyingCloud" "departureLocation lateLesson = flyingCloud"
  "departureLocation morningLesson = flyingCloud"
  by (simp_all add: eveningLesson_def lateLesson_def morningLesson_def)

text \<open>
  Claim C3, as stated, reads the calendar date of a booking in one calendar. The scan
  reads it in two: the window in local calendar days (\<open>getFullYear\<close>, \<open>getMonth\<close>,
  \<open>getDate\<close>), the match with the forecast in UTC dates (\<open>toISOString\<close>). Six hours behind
  UTC, a lesson at 20:00 local time falls on the next UTC day. In the second sample scan
  the first lesson is left Scheduled, since the reading of its UTC date passes, where the
  rule read in local dates gives WeatherConflict (the reading of its local date fails);
  and the second lesson is set to WeatherConflict, where the rule read in UTC dates gives
  Scheduled (its UTC date is the seventh day after the clock's).
\<close>

theorem scanConflicts_two_calendars:
  "map status
     (stateAfter zoneLessons
        (scanConflicts central privatePilot zoneProvider zoneClock zoneClock zoneLessons)) =
     [Scheduled, WeatherConflict, Scheduled] \<and>
   spec_scanStatus (\<lambda>t. (t + central t) div 86400000) privatePilot zoneClock
     (fetchWeatherForecast (zoneProvider (lat flyingCloud) (lon flyingCloud)) 7)
     (zoneLessons ! 0) = WeatherConflict \<and>
   spec_scanStatus (\<lambda>t. t div 86400000) privatePilot zoneClock
     (fetchWeatherForecast (zoneProvider (lat flyingCloud) (lon flyingCloud)) 7)
     (zoneLessons ! 1) = Scheduled"
proof -
  have code: "map status
     (stateAfter zoneLessons
        (scanConflicts central privatePilot zoneProvider zoneClock zoneClock zoneLessons)) =
     [Scheduled, WeatherConflict, Scheduled]"
    by (simp add: zone_scan) (simp add: eveningLesson_def)
  have loc: "spec_scanStatus (\<lambda>t. (t + central t) div 86400000) privatePilot zoneClock
     (fetchWeatherForecast (zoneProvider (lat flyingCloud) (lon flyingCloud)) 7)
     (zoneLessons ! 0) = WeatherConflict"
    using badReading_fails
    by (simp add: zone_forecast spec_scanStatus_def zoneLessons_def)
      (simp add: eveningLesson_def central_def zoneClock_def badReading_def)
  have ut: "spec_scanStatus (\<lambda>t. t div 86400000) privatePilot zoneClock
     (fetchWeatherForecast (zoneProvider (lat flyingCloud) (lon flyingCloud)) 7)
     (zoneLessons ! 1) = Scheduled"
    by (simp add: zone_forecast spec_scanStatus_def zoneLessons_def)
      (simp add: lateLesson_def zoneClock_def)
  from code loc ut show ?thesis by blast
qed


text \<open>
  Claim C3, amended. For every booking of the state that a scan processes: a rescheduled
  booking is returned unchanged; a booking that is not rescheduled is set to Scheduled
  when no booking is relevant at the start of the effect, and when its local calendar day
  is not among the seven days from the local calendar day of the clock on (today
  included, the seventh day after today excluded); otherwise it is set to WeatherConflict
  when the forecast of its location has an entry whose UTC date is the UTC date of the
  booking and which fails the student's minimums, and to Scheduled when there is no such
  entry. A booking is relevant when it is not rescheduled and its local calendar day is
  in the window of the clock at the start of the effect; the forecast of a location is
  the one fetched for its latitude and longitude with seven days when a relevant booking
  departs from there, and empty otherwise.
\<close>

theorem scanConflicts_statuses:
  fixes tz :: "int \<Rightarrow> int" and student :: Student
    and provider :: "real \<Rightarrow> real \<Rightarrow> forecastResponse"
    and now today :: int and lessons :: "FlightBooking list" and i :: nat
  assumes i: "i < length lessons"
  defines "b \<equiv> lessons ! i"
    and "b' \<equiv> stateAfter lessons (scanConflicts tz student provider now today lessons) ! i"
    and "localDay \<equiv> \<lambda>t. (t + tz t) div 86400000"
  defines "relevant \<equiv> \<lambda>l. status l \<noteq> Rescheduled \<and>
                0 \<le> localDay (scheduledDate l) - localDay now \<and>
                localDay (scheduledDate l) - localDay now < 7"
    and "inside \<equiv> 0 \<le> localDay (scheduledDate b) - localDay today \<and>
                localDay (scheduledDate b) - localDay today < 7"
  defines "daily \<equiv>
       if \<exists>l\<in>set lessons. relevant l \<and>
            lat (departureLocation l) = lat (departureLocation b) \<and>
            lon (departureLocation l) = lon (departureLocation b)
       then fetchWeatherForecast
              (provider (lat (departureLocation b)) (lon (departureLocation b))) 7
       else []"
  shows "(status b = Rescheduled \<longrightarrow> b' = b) \<and>
    (status b \<noteq> Rescheduled \<and> \<not> (\<exists>l\<in>set lessons. relevant l) \<longrightarrow>
       b' = b\<lparr>status := Scheduled\<rparr>) \<and>
    (status b \<noteq> Rescheduled \<and> \<not> inside \<longrightarrow> b' = b\<lparr>status := Scheduled\<rparr>) \<and>
    (status b \<noteq> Rescheduled \<and> (\<exists>l\<in>set lessons. relevant l) \<and> inside \<longrightarrow>
       b' = b\<lparr>status :=
              if \<exists>f\<in>set daily. timestamp f div 86400000 = scheduledDate b div 86400000 \<and>
                   \<not> meetsStudentMinimums student f
              then WeatherConflict else Scheduled\<rparr>)"
proof -
  have days: "differenceInDays tz fromDate toDate =
      (toDate + tz toDate) div 86400000 - (fromDate + tz fromDate) div 86400000"
    for fromDate toDate
  proof -
    have "(x * 86400000 - y * 86400000) div 86400000 = x - y" for x y :: int
    proof -
      have "x * 86400000 - y * 86400000 = (x - y) * 86400000" by (simp add: algebra_simps)
      then show ?thesis by simp
    qed
    then show ?thesis
      by (simp add: differenceInDays_def localDateUtc_def MS_PER_DAY_def Let_def)
  qed
  have getDateKey_day: "getDateKey t = t div 86400000" for t
    by (simp add: getDateKey_def MS_PER_DAY_def)
  have rel: "relevant l \<longleftrightarrow> isRelevant tz now l" for l
    by (simp add: relevant_def localDay_def isRelevant_def Let_def days)
  have ins: "inside \<longleftrightarrow> inWindow tz today b"
    by (simp add: inside_def localDay_def inWindow_def days)
  have none: "filter (isRelevant tz now) lessons = [] \<longleftrightarrow> \<not> (\<exists>l\<in>set lessons. relevant l)"
    by (simp add: filter_empty_conv rel)
  have daily: "forecastOf (scanForecastMap tz provider now lessons)
                    (LOCATION_KEY (departureLocation b)) = daily"
    unfolding daily_def by (simp add: forecastOf_scan_location rel)
  note old = scan_statuses_in_words [OF i, of tz student provider now today,
      folded b_def b'_def, unfolded none daily getDateKey_day, folded ins]
  have c1: "status b = Rescheduled \<longrightarrow> b' = b" using old by blast
  have c2: "status b \<noteq> Rescheduled \<and> \<not> (\<exists>l\<in>set lessons. relevant l) \<longrightarrow>
       b' = b\<lparr>status := Scheduled\<rparr>"
    using old by blast
  have c3: "status b \<noteq> Rescheduled \<and> \<not> inside \<longrightarrow> b' = b\<lparr>status := Scheduled\<rparr>"
    using old by blast
  have c4: "status b \<noteq> Rescheduled \<and> (\<exists>l\<in>set lessons. relevant l) \<and> inside \<longrightarrow>
       b' = b\<lparr>status :=
              if \<exists>f\<in>set daily. timestamp f div 86400000 = scheduledDate b div 86400000 \<and>
                   \<not> meetsStudentMinimums student f
              then WeatherConflict else Scheduled\<rparr>"
    using old by blast
  show ?thesis
    by (rule conjI [OF c1 conjI [OF c2 conjI [OF c3 c4]]])
qed


theorem scanConflicts_statuses_witness:
  "length zoneLessons = 3 \<and>
   status (zoneLessons ! 0) = Scheduled \<and> status (zoneLessons ! 1) = Scheduled \<and>
   status (zoneLessons ! 2) = WeatherConflict \<and>
   (scheduledDate (zoneLessons ! 0) + central (scheduledDate (zoneLessons ! 0))) div 86400000 -
     (zoneClock + central zoneClock) div 86400000 = 2 \<and>
   (scheduledDate (zoneLessons ! 1) + central (scheduledDate (zoneLessons ! 1))) div 86400000 -
     (zoneClock + central zoneClock) div 86400000 = 6 \<and>
   (scheduledDate (zoneLessons ! 2) + central (scheduledDate (zoneLessons ! 2))) div 86400000 -
     (zoneClock + central zoneClock) div 86400000 = 7 \<and>
   scheduledDate (zoneLessons ! 0) div 86400000 = 19679 \<and>
   scheduledDate (zoneLessons ! 1) div 86400000 = 19683 \<and>
   map (\<lambda>f. (timestamp f div 86400000, meetsStudentMinimums privatePilot f))
     (fetchWeatherForecast (zoneProvider (lat flyingCloud) (lon flyingCloud)) 7) =
     [(19678, False), (19679, True), (19683, False)] \<and>
   stateAfter zoneLessons
     (scanConflicts central privatePilot zoneProvider zoneClock zoneClock zoneLessons) ! 0 =
     zoneLessons ! 0 \<and>
   stateAfter zoneLessons
     (scanConflicts central privatePilot zoneProvider zoneClock zoneClock zoneLessons) ! 1 =
     (zoneLessons ! 1)\<lparr>status := WeatherConflict\<rparr> \<and>
   stateAfter zoneLessons
     (scanConflicts central privatePilot zoneProvider zoneClock zoneClock zoneLessons) ! 2 =
     (zoneLessons ! 2)\<lparr>status := Scheduled\<rparr> \<and>
   stateAfter [morningLesson]
     (scanConflicts central privatePilot zoneProvider zoneClock zoneClock [morningLesson]) ! 0 =
     morningLesson\<lparr>status := Scheduled\<rparr> \<and>
   status lessonRescheduled = Rescheduled \<and>
   stateAfter (zoneLessons @ [lessonRescheduled])
     (scanConflicts central privatePilot zoneProvider zoneClock zoneClock
        (zoneLessons @ [lessonRescheduled])) ! 3 =
     lessonRescheduled"
proof -
  let ?after = "stateAfter zoneLessons
     (scanConflicts central privatePilot zoneProvider zoneClock zoneClock zoneLessons)"
  have nth: "zoneLessons ! 0 = eveningLesson" "zoneLessons ! 1 = lateLesson"
    "zoneLessons ! 2 = morningLesson" "length zoneLessons = 3"
    "zoneLessons ! Suc 0 = lateLesson"
    by (simp_all add: zoneLessons_def)
  have lessons: "set zoneLessons = {eveningLesson, lateLesson, morningLesson}"
    by (simp add: zoneLessons_def)
  have readings: "map (\<lambda>f. (timestamp f div 86400000, meetsStudentMinimums privatePilot f))
     (fetchWeatherForecast (zoneProvider (lat flyingCloud) (lon flyingCloud)) 7) =
     [(19678, False), (19679, True), (19683, False)]"
    using badReading_fails lateBadReading_fails fairDayReading_passes
    by (simp add: zone_forecast zone_reading_days)
  have r0: "?after ! 0 = zoneLessons ! 0"
    using scanConflicts_statuses
      [of 0 zoneLessons central privatePilot zoneProvider zoneClock zoneClock]
      badReading_fails lateBadReading_fails fairDayReading_passes
    by (simp add: nth lessons zone_days zone_fields zone_forecast zone_reading_days
        status_update_same)
  have r1: "?after ! 1 = (zoneLessons ! 1)\<lparr>status := WeatherConflict\<rparr>"
    using scanConflicts_statuses
      [of 1 zoneLessons central privatePilot zoneProvider zoneClock zoneClock]
      badReading_fails lateBadReading_fails fairDayReading_passes
    by (simp add: nth lessons zone_days zone_fields zone_forecast zone_reading_days)
  have r2: "?after ! 2 = (zoneLessons ! 2)\<lparr>status := Scheduled\<rparr>"
    using scanConflicts_statuses
      [of 2 zoneLessons central privatePilot zoneProvider zoneClock zoneClock]
    by (simp add: nth lessons zone_days zone_fields)
  have none: "stateAfter [morningLesson]
     (scanConflicts central privatePilot zoneProvider zoneClock zoneClock [morningLesson]) ! 0 =
     morningLesson\<lparr>status := Scheduled\<rparr>"
    using scanConflicts_statuses
      [where i = 0 and lessons = "[morningLesson]" and tz = central and student = privatePilot
         and provider = zoneProvider and now = zoneClock and today = zoneClock,
       THEN conjunct2, THEN conjunct1]
    by (simp add: zone_days zone_fields)
  have res: "status lessonRescheduled = Rescheduled" by (simp add: lessonRescheduled_def)
  have kept: "stateAfter (zoneLessons @ [lessonRescheduled])
     (scanConflicts central privatePilot zoneProvider zoneClock zoneClock
        (zoneLessons @ [lessonRescheduled])) ! 3 =
     lessonRescheduled"
    using scanConflicts_statuses
      [where i = 3 and lessons = "zoneLessons @ [lessonRescheduled]" and tz = central
         and student = privatePilot and provider = zoneProvider and now = zoneClock
         and today = zoneClock,
       THEN conjunct1]
    by (simp add: nth nth_append res)
  from nth readings r0 r1 r2 none res kept show ?thesis
    by (simp add: zone_days zone_fields)
qed

text \<open>The two updaters return, for each lesson, the object itself unless its status changes.\<close>

lemma clearLesson_shape:
  "clearLesson b =
     (if status (valueOf (clearLesson b)) = status b then SameObject b
      else NewObject (b\<lparr>status := status (valueOf (clearLesson b))\<rparr>))"
  by (simp add: clearLesson_def)

lemma evaluateLesson_shape:
  "evaluateLesson tz student today fm b =
     (if status (valueOf (evaluateLesson tz student today fm b)) = status b then SameObject b
      else NewObject (b\<lparr>status := status (valueOf (evaluateLesson tz student today fm b))\<rparr>))"
  by (simp add: evaluateLesson_def Let_def)

lemma updater_minimal:
  fixes f :: "FlightBooking \<Rightarrow> lessonRef" and prev :: "FlightBooking list"
  assumes shape: "\<And>b. f b =
     (if status (valueOf (f b)) = status b then SameObject b
      else NewObject (b\<lparr>status := status (valueOf (f b))\<rparr>))"
  defines "upd \<equiv> (if list_ex isNewObject (map f prev) then NewArray (map f prev) else SamePrev)"
  shows "upd = SamePrev \<longleftrightarrow> map status (stateAfter prev upd) = map status prev"
    and "upd = NewArray refs \<longrightarrow> length refs = length prev \<and>
      (\<forall>i<length prev.
         refs ! i =
           (if status (valueOf (refs ! i)) = status (prev ! i) then SameObject (prev ! i)
            else NewObject ((prev ! i)\<lparr>status := status (valueOf (refs ! i))\<rparr>)))"
proof -
  have new_iff: "isNewObject (f b) \<longleftrightarrow> status (valueOf (f b)) \<noteq> status b" for b
    by (subst shape) simp
  have same: "f b = SameObject b" if "status (valueOf (f b)) = status b" for b
    by (subst shape) (simp add: that)
  have diff: "f b = NewObject (b\<lparr>status := status (valueOf (f b))\<rparr>)"
    if "status (valueOf (f b)) \<noteq> status b" for b
    by (subst shape) (simp add: that)
  have ex_iff: "list_ex isNewObject (map f prev) \<longleftrightarrow>
      map (\<lambda>b. status (valueOf (f b))) prev \<noteq> map status prev"
    by (induction prev) (auto simp: new_iff)
  show "upd = SamePrev \<longleftrightarrow> map status (stateAfter prev upd) = map status prev"
    unfolding upd_def using ex_iff by (auto simp: comp_def)
  show "upd = NewArray refs \<longrightarrow> length refs = length prev \<and>
      (\<forall>i<length prev.
         refs ! i =
           (if status (valueOf (refs ! i)) = status (prev ! i) then SameObject (prev ! i)
            else NewObject ((prev ! i)\<lparr>status := status (valueOf (refs ! i))\<rparr>)))"
  proof (intro impI)
    assume "upd = NewArray refs"
    then have refs: "refs = map f prev"
      unfolding upd_def by (simp split: if_splits)
    have each: "map f prev ! i =
           (if status (valueOf (map f prev ! i)) = status (prev ! i) then SameObject (prev ! i)
            else NewObject ((prev ! i)\<lparr>status := status (valueOf (map f prev ! i))\<rparr>))"
      if "i < length prev" for i
    proof (cases "status (valueOf (f (prev ! i))) = status (prev ! i)")
      case True
      with same [of "prev ! i"] that show ?thesis by simp
    next
      case False
      with diff [of "prev ! i"] that show ?thesis by simp
    qed
    show "length refs = length prev \<and>
      (\<forall>i<length prev.
         refs ! i =
           (if status (valueOf (refs ! i)) = status (prev ! i) then SameObject (prev ! i)
            else NewObject ((prev ! i)\<lparr>status := status (valueOf (refs ! i))\<rparr>)))"
      unfolding refs using each by simp
  qed
qed


lemma scanConflicts_updater:
  "scanConflicts tz student provider now today lessons =
     (if list_ex isNewObject (map (scanStep tz student provider now today lessons) lessons)
      then NewArray (map (scanStep tz student provider now today lessons) lessons)
      else SamePrev)"
  by (cases "lessons = []")
    (auto simp: scanConflicts_def scanStep_def clearUpdater_def evaluateUpdater_def Let_def)

lemma scanStep_shape:
  "scanStep tz student provider now today lessons b =
     (if status (valueOf (scanStep tz student provider now today lessons b)) = status b
      then SameObject b
      else NewObject
             (b\<lparr>status := status (valueOf (scanStep tz student provider now today lessons b))\<rparr>))"
proof (cases "filter (isRelevant tz now) lessons = []")
  case True
  then have eq: "scanStep tz student provider now today lessons = clearLesson"
    by (simp add: scanStep_def)
  show ?thesis unfolding eq by (rule clearLesson_shape)
next
  case False
  then have eq: "scanStep tz student provider now today lessons =
      evaluateLesson tz student today (scanForecastMap tz provider now lessons)"
    by (simp add: scanStep_def)
  show ?thesis unfolding eq by (rule evaluateLesson_shape)
qed

lemma statusFor_not_Rescheduled: "statusFor student e \<noteq> Rescheduled"
  by (simp add: statusFor_def split: option.splits)

lemma clearLesson_again: "clearLesson (valueOf (clearLesson b)) = SameObject (valueOf (clearLesson b))"
  by (simp add: clearLesson_def)

lemma forecastForDay_status: "forecastForDay daily (b\<lparr>status := s\<rparr>) = forecastForDay daily b"
  by (simp add: forecastForDay_def)

lemma inWindow_status: "inWindow tz clock (b\<lparr>status := s\<rparr>) = inWindow tz clock b"
  by (simp add: inWindow_def)

lemma evaluateLesson_again:
  "evaluateLesson tz student today fm (valueOf (evaluateLesson tz student today fm b)) =
     SameObject (valueOf (evaluateLesson tz student today fm b))"
proof -
  let ?v = "valueOf (evaluateLesson tz student today fm b)"
  have "valueOf (evaluateLesson tz student today fm ?v) = ?v"
    by (simp add: valueOf_evaluateLesson [of tz student today fm b]
        valueOf_evaluateLesson [of tz student today fm "b\<lparr>status := x\<rparr>" for x]
        inWindow_status forecastForDay_status statusFor_not_Rescheduled)
  then have "status (valueOf (evaluateLesson tz student today fm ?v)) = status ?v"
    by simp
  with evaluateLesson_shape [of tz student today fm ?v] show ?thesis by simp
qed

lemma step_fields:
  "scheduledDate (valueOf (clearLesson b)) = scheduledDate b"
  "departureLocation (valueOf (clearLesson b)) = departureLocation b"
  "status (valueOf (clearLesson b)) = Rescheduled \<longleftrightarrow> status b = Rescheduled"
  "scheduledDate (valueOf (evaluateLesson tz student today fm b)) = scheduledDate b"
  "departureLocation (valueOf (evaluateLesson tz student today fm b)) = departureLocation b"
  "status (valueOf (evaluateLesson tz student today fm b)) = Rescheduled \<longleftrightarrow>
     status b = Rescheduled"
  by (simp_all add: valueOf_clearLesson valueOf_evaluateLesson statusFor_not_Rescheduled)

lemma scanStep_fields:
  "scheduledDate (valueOf (scanStep tz student provider now today lessons b)) = scheduledDate b"
  "departureLocation (valueOf (scanStep tz student provider now today lessons b)) =
     departureLocation b"
  "status (valueOf (scanStep tz student provider now today lessons b)) = Rescheduled \<longleftrightarrow>
     status b = Rescheduled"
  by (simp_all add: scanStep_def step_fields)

lemma uniqueLocations_map:
  assumes "\<And>b. departureLocation (g b) = departureLocation b"
  shows "uniqueLocations (map g ls) = uniqueLocations ls"
  by (simp add: uniqueLocations_def foldl_map assms)

lemma scan_again_same_step:
  fixes tz :: "int \<Rightarrow> int" and student :: Student
    and provider :: "real \<Rightarrow> real \<Rightarrow> forecastResponse"
    and now today :: int and lessons :: "FlightBooking list"
  defines "g \<equiv> \<lambda>b. valueOf (scanStep tz student provider now today lessons b)"
  shows "scanStep tz student provider now today (map g lessons) =
     scanStep tz student provider now today lessons"
proof -
  have rel: "isRelevant tz now (g b) = isRelevant tz now b" for b
    unfolding g_def isRelevant_def
    by (simp add: scanStep_fields [of tz student provider now today lessons b])
  have loc: "departureLocation (g b) = departureLocation b" for b
    unfolding g_def by (rule scanStep_fields)
  have filt: "filter (isRelevant tz now) (map g lessons) =
      map g (filter (isRelevant tz now) lessons)"
    by (simp add: filter_map comp_def rel)
  have fm: "scanForecastMap tz provider now (map g lessons) =
      scanForecastMap tz provider now lessons"
    by (simp add: scanForecastMap_def filt uniqueLocations_map [of g, OF loc])
  show ?thesis
    by (simp add: scanStep_def [of tz student provider now today "map g lessons"]
        scanStep_def [of tz student provider now today lessons] filt fm)
qed

lemma scanStep_again:
  "scanStep tz student provider now today lessons
     (valueOf (scanStep tz student provider now today lessons b)) =
   SameObject (valueOf (scanStep tz student provider now today lessons b))"
  by (simp add: scanStep_def clearLesson_again evaluateLesson_again)

lemma stateAfter_scan_map:
  "stateAfter lessons (scanConflicts tz student provider now today lessons) =
     map (\<lambda>b. valueOf (scanStep tz student provider now today lessons b)) lessons"
  by (simp add: stateAfter_scanConflicts scanStep_def)

lemma scan_twice:
  fixes tz :: "int \<Rightarrow> int" and student :: Student
    and provider :: "real \<Rightarrow> real \<Rightarrow> forecastResponse"
    and now today :: int and lessons :: "FlightBooking list"
  defines "once \<equiv> stateAfter lessons (scanConflicts tz student provider now today lessons)"
  shows "scanConflicts tz student provider now today once = SamePrev"
proof -
  let ?g = "\<lambda>b. valueOf (scanStep tz student provider now today lessons b)"
  have once: "once = map ?g lessons"
    unfolding once_def by (rule stateAfter_scan_map)
  have step: "scanStep tz student provider now today once =
      scanStep tz student provider now today lessons"
    unfolding once by (rule scan_again_same_step)
  have "\<not> list_ex isNewObject (map (scanStep tz student provider now today lessons) once)"
    unfolding once by (simp add: list_ex_iff scanStep_again)
  then have "\<not> list_ex isNewObject (map (scanStep tz student provider now today once) once)"
    by (simp add: step)
  then show ?thesis
    by (subst scanConflicts_updater) simp
qed

text \<open>
  Claim C4. A second scan, run on the state the first one leaves, with the same clock
  readings and the same forecast answers, returns the previous array itself, so the
  statuses stay as they are. A scan returns the previous array itself exactly when no
  status changes; when it returns a new array, each lesson whose status did not change
  is in it as the original object, and each other lesson as a copy that differs in the
  status only.
\<close>

theorem scanConflicts_idempotent_minimal:
  fixes tz :: "int \<Rightarrow> int" and student :: Student
    and provider :: "real \<Rightarrow> real \<Rightarrow> forecastResponse"
    and now today :: int and lessons :: "FlightBooking list"
  defines "run \<equiv> scanConflicts tz student provider now today"
    and "once \<equiv> stateAfter lessons (scanConflicts tz student provider now today lessons)"
  shows "run once = SamePrev \<and> stateAfter once (run once) = once \<and>
    (run lessons = SamePrev \<longleftrightarrow> map status once = map status lessons) \<and>
    (\<forall>refs. run lessons = NewArray refs \<longrightarrow>
       length refs = length lessons \<and>
       (\<forall>i<length lessons.
          refs ! i =
            (if status (valueOf (refs ! i)) = status (lessons ! i) then SameObject (lessons ! i)
             else NewObject ((lessons ! i)\<lparr>status := status (valueOf (refs ! i))\<rparr>))))"
proof -
  let ?f = "scanStep tz student provider now today lessons"
  have twice: "run once = SamePrev"
    unfolding run_def once_def by (rule scan_twice)
  then have same: "stateAfter once (run once) = once" by simp
  have upd: "run lessons =
      (if list_ex isNewObject (map ?f lessons) then NewArray (map ?f lessons) else SamePrev)"
    unfolding run_def by (rule scanConflicts_updater)
  have kept: "run lessons = SamePrev \<longleftrightarrow> map status once = map status lessons"
    unfolding once_def run_def [symmetric] upd
    by (rule updater_minimal(1) [of ?f lessons, OF scanStep_shape])
  have diffs: "run lessons = NewArray refs \<longrightarrow>
       length refs = length lessons \<and>
       (\<forall>i<length lessons.
          refs ! i =
            (if status (valueOf (refs ! i)) = status (lessons ! i) then SameObject (lessons ! i)
             else NewObject ((lessons ! i)\<lparr>status := status (valueOf (refs ! i))\<rparr>)))" for refs
    unfolding upd
    by (rule updater_minimal(2) [of ?f lessons refs, OF scanStep_shape])
  from twice same kept diffs show ?thesis by blast
qed


theorem scanConflicts_idempotent_minimal_witness:
  "scanConflicts utc privatePilot sampleProvider scanClock scanClock scanLessons =
     NewArray [NewObject (lessonConflict\<lparr>status := WeatherConflict\<rparr>),
               SameObject lessonRescheduled,
               NewObject (lessonFar\<lparr>status := Scheduled\<rparr>),
               NewObject (lessonNoForecast\<lparr>status := Scheduled\<rparr>)] \<and>
   scanConflicts utc privatePilot sampleProvider scanClock scanClock
     [lessonConflict\<lparr>status := WeatherConflict\<rparr>, lessonRescheduled,
      lessonFar\<lparr>status := Scheduled\<rparr>, lessonNoForecast\<lparr>status := Scheduled\<rparr>] = SamePrev"
proof -
  have once: "stateAfter scanLessons
      (scanConflicts utc privatePilot sampleProvider scanClock scanClock scanLessons) =
      [lessonConflict\<lparr>status := WeatherConflict\<rparr>, lessonRescheduled,
       lessonFar\<lparr>status := Scheduled\<rparr>, lessonNoForecast\<lparr>status := Scheduled\<rparr>]"
    by (simp add: sample_scan)
  from scanConflicts_idempotent_minimal [of utc privatePilot sampleProvider scanClock scanClock
      scanLessons]
  have "scanConflicts utc privatePilot sampleProvider scanClock scanClock
      (stateAfter scanLessons
        (scanConflicts utc privatePilot sampleProvider scanClock scanClock scanLessons)) =
      SamePrev"
    by blast
  with once sample_scan show ?thesis by simp
qed

lemma failed_fetch_empty:
  assumes "provider (lat (departureLocation b)) (lon (departureLocation b)) = Unavailable"
  shows "forecastOf (scanForecastMap tz provider now lessons) (LOCATION_KEY (departureLocation b)) = []"
  using assms by (simp add: forecastOf_scan LOCATION_KEY_def fetchWeatherForecast_Unavailable)

lemma forecastOf_scan_agree:
  assumes "provider' (lat (departureLocation b)) (lon (departureLocation b)) =
      provider (lat (departureLocation b)) (lon (departureLocation b))"
  shows "forecastOf (scanForecastMap tz provider' now lessons) (LOCATION_KEY (departureLocation b)) =
      forecastOf (scanForecastMap tz provider now lessons) (LOCATION_KEY (departureLocation b))"
  using assms by (simp add: forecastOf_scan LOCATION_KEY_def)

text \<open>
  Claim C7, as stated, has the bookings of a location whose forecast could not be fetched
  keep their status. The source gives such a location the empty forecast: the lesson at
  St. Paul, in conflict before the scan, is rewritten to Scheduled.
\<close>

theorem scanConflicts_failed_fetch_rewrites:
  "scanLessons ! 3 = lessonNoForecast \<and>
   sampleProvider (lat (departureLocation lessonNoForecast))
     (lon (departureLocation lessonNoForecast)) = Unavailable \<and>
   status lessonNoForecast = WeatherConflict \<and>
   status (stateAfter scanLessons
     (scanConflicts utc privatePilot sampleProvider scanClock scanClock scanLessons) ! 3) =
     Scheduled"
  by (simp add: sample_scan)
    (simp add: scanLessons_def lessonNoForecast_def stPaul_def sampleProvider_def)

text \<open>
  Claim C7, amended. A failed fetch gives its location the empty forecast and the scan goes
  on: every booking of that location that is not rescheduled is set to Scheduled, and what
  the scan does to any booking depends on the answer for that booking's own location only,
  so the bookings of the other locations are evaluated as if no fetch had failed.
\<close>

theorem scanConflicts_failed_location:
  fixes tz :: "int \<Rightarrow> int" and student :: Student
    and provider :: "real \<Rightarrow> real \<Rightarrow> forecastResponse"
    and now today :: int and lessons :: "FlightBooking list" and i :: nat
  assumes i: "i < length lessons"
    and ns: "status (lessons ! i) \<noteq> Rescheduled"
    and failed: "provider (lat (departureLocation (lessons ! i)))
                   (lon (departureLocation (lessons ! i))) = Unavailable"
  shows "status (stateAfter lessons
           (scanConflicts tz student provider now today lessons) ! i) = Scheduled \<and>
    (\<forall>j provider'.
       j < length lessons \<and>
       provider' (lat (departureLocation (lessons ! j))) (lon (departureLocation (lessons ! j))) =
         provider (lat (departureLocation (lessons ! j))) (lon (departureLocation (lessons ! j)))
       \<longrightarrow>
       stateAfter lessons (scanConflicts tz student provider' now today lessons) ! j =
         stateAfter lessons (scanConflicts tz student provider now today lessons) ! j)"
proof -
  have empty: "forecastOf (scanForecastMap tz provider now lessons)
      (LOCATION_KEY (departureLocation (lessons ! i))) = []"
    using failed by (rule failed_fetch_empty)
  have first: "status (stateAfter lessons
           (scanConflicts tz student provider now today lessons) ! i) = Scheduled"
    using i ns
    by (simp add: stateAfter_scanConflicts valueOf_clearLesson valueOf_evaluateLesson empty
        forecastForDay_def statusFor_def)
  have second: "stateAfter lessons (scanConflicts tz student provider' now today lessons) ! j =
         stateAfter lessons (scanConflicts tz student provider now today lessons) ! j"
    if j: "j < length lessons"
      and agree: "provider' (lat (departureLocation (lessons ! j)))
          (lon (departureLocation (lessons ! j))) =
         provider (lat (departureLocation (lessons ! j))) (lon (departureLocation (lessons ! j)))"
    for j provider'
    using j
    by (simp add: stateAfter_scanConflicts valueOf_evaluateLesson
        forecastOf_scan_agree [where provider' = provider' and provider = provider
          and b = "lessons ! j", OF agree])
  from first second show ?thesis by blast
qed

theorem scanConflicts_failed_location_witness:
  "3 < length scanLessons \<and> status (scanLessons ! 3) \<noteq> Rescheduled \<and>
   sampleProvider (lat (departureLocation (scanLessons ! 3)))
     (lon (departureLocation (scanLessons ! 3))) = Unavailable \<and>
   status (stateAfter scanLessons
     (scanConflicts utc privatePilot sampleProvider scanClock scanClock scanLessons) ! 3) =
     Scheduled \<and>
   stateAfter scanLessons
     (scanConflicts utc privatePilot sampleProvider scanClock scanClock scanLessons) ! 0 =
     lessonConflict\<lparr>status := WeatherConflict\<rparr>"
proof -
  have len: "3 < length scanLessons" by (simp add: scanLessons_def)
  have ns: "status (scanLessons ! 3) \<noteq> Rescheduled"
    by (simp add: scanLessons_def lessonNoForecast_def)
  have failed: "sampleProvider (lat (departureLocation (scanLessons ! 3)))
     (lon (departureLocation (scanLessons ! 3))) = Unavailable"
    by (simp add: scanLessons_def lessonNoForecast_def stPaul_def sampleProvider_def)
  from scanConflicts_failed_location [where provider = sampleProvider and lessons = scanLessons
      and i = 3 and tz = utc and student = privatePilot and now = scanClock
      and today = scanClock, OF len ns failed]
  have "status (stateAfter scanLessons
     (scanConflicts utc privatePilot sampleProvider scanClock scanClock scanLessons) ! 3) =
     Scheduled"
    by blast
  moreover have "stateAfter scanLessons
     (scanConflicts utc privatePilot sampleProvider scanClock scanClock scanLessons) ! 0 =
     lessonConflict\<lparr>status := WeatherConflict\<rparr>"
    by (simp add: sample_scan)
  ultimately show ?thesis using len ns failed by blast
qed

section \<open>Properties of the advisory\<close>

lemmas advisory_eval = fence_def matchFenceHere_def startsWithCI_def toLowerChar_def
  isSpace_def trim_def extractJson_def

lemma extractJson_fenced: "extractJson fencedReply = ''[1]''"
  by (simp add: fencedReply_def advisory_eval)

lemma extractJson_plain: "extractJson ('' [1]  '' @ [CHR 0x0A]) = ''[1]''"
  by (simp add: advisory_eval)

lemma extractJson_prose: "extractJson proseReply = proseReply"
  by (simp add: proseReply_def advisory_eval)

lemma generateRescheduleSuggestions_total:
  "\<exists>xs. generateRescheduleSuggestions outcome = Inr xs"
  by (simp add: generateRescheduleSuggestions_def split: sum.splits)

text \<open>
  Claim C6, as stated, has the request for an advisory fail with a descriptive error when
  the provider is unreachable or its reply cannot be parsed, rather than return an empty
  list. The portal's function catches every error and returns the empty list: so it does
  when the provider call is rejected, when the reply is prose, and when the backend
  cannot be reached.
\<close>

theorem advisory_failure_returns_empty_list:
  "rescheduleHandler True True sampleParse (ProviderFailed ''Connection error.'') =
     ServerError ''Connection error.'' \<and>
   generateRescheduleSuggestions
     (Answer (rescheduleHandler True True sampleParse (ProviderFailed ''Connection error.''))) =
     Inr [] \<and>
   generateRescheduleSuggestions
     (Answer (rescheduleHandler True True sampleParse (Reply [TextBlock proseReply]))) = Inr [] \<and>
   generateRescheduleSuggestions Unreachable = Inr []"
  by (simp add: rescheduleHandler_def rescheduleBody_def generateRescheduleSuggestions_def
      generateBody_def extractJson_prose sampleParse_def)
    (simp add: proseReply_def)

text \<open>
  Claim C6, amended. When the provider call is rejected, the handler answers with the
  status 500 and the message of the error as details. When the text of the reply, after
  \<open>extractJson\<close> (the trimmed content of the first fenced block when there is one and it
  is not empty, else the whole trimmed reply), cannot be parsed, the handler answers with
  the status 500 and details that hold the first 200 characters of the reply, followed by
  three points; when it can be parsed, the handler answers with the parsed value. The
  portal's function never fails: it returns the empty list when the backend cannot be
  reached, answers with an error status or sends suggestions that are no list, and the
  list of suggestions otherwise.
\<close>

theorem advisory_failure:
  "rescheduleHandler True True parse (ProviderFailed msg) = ServerError msg \<and>
   (find isTextBlock content = Some (TextBlock text) \<and> parse (extractJson text) = None \<longrightarrow>
      rescheduleHandler True True parse (Reply content) =
        ServerError (''Claude response was not valid JSON. Received: '' @ take 200 text @ ''...'') \<and>
      length (take 200 text) \<le> 200) \<and>
   (find isTextBlock content = Some (TextBlock text) \<and> parse (extractJson text) = Some s \<longrightarrow>
      rescheduleHandler True True parse (Reply content) = Suggestions s) \<and>
   extractJson text =
     (case matchFence text of
        None \<Rightarrow> trim text
      | Some cap \<Rightarrow> if cap = [] then trim text else trim cap) \<and>
   generateRescheduleSuggestions Unreachable = Inr [] \<and>
   generateRescheduleSuggestions (Answer (ServerError details)) = Inr [] \<and>
   generateRescheduleSuggestions (Answer (Suggestions s)) =
     Inr (case s of JArr xs \<Rightarrow> xs | _ \<Rightarrow> []) \<and>
   (\<exists>xs. generateRescheduleSuggestions outcome = Inr xs)"
proof -
  have handler: "rescheduleHandler True True parse (ProviderFailed msg) = ServerError msg"
    by (simp add: rescheduleHandler_def rescheduleBody_def)
  have bad: "find isTextBlock content = Some (TextBlock text) \<and> parse (extractJson text) = None \<longrightarrow>
      rescheduleHandler True True parse (Reply content) =
        ServerError (''Claude response was not valid JSON. Received: '' @ take 200 text @ ''...'') \<and>
      length (take 200 text) \<le> 200"
    by (simp add: rescheduleHandler_def rescheduleBody_def)
  have good: "find isTextBlock content = Some (TextBlock text) \<and>
      parse (extractJson text) = Some s \<longrightarrow>
      rescheduleHandler True True parse (Reply content) = Suggestions s"
    by (simp add: rescheduleHandler_def rescheduleBody_def)
  have ext: "extractJson text =
     (case matchFence text of
        None \<Rightarrow> trim text
      | Some cap \<Rightarrow> if cap = [] then trim text else trim cap)"
    by (simp add: extractJson_def split: option.splits)
  have p1: "generateRescheduleSuggestions Unreachable = Inr []"
    by (simp add: generateRescheduleSuggestions_def generateBody_def)
  have p2: "generateRescheduleSuggestions (Answer (ServerError details)) = Inr []"
    by (simp add: generateRescheduleSuggestions_def generateBody_def)
  have p3: "generateRescheduleSuggestions (Answer (Suggestions s)) =
     Inr (case s of JArr xs \<Rightarrow> xs | _ \<Rightarrow> [])"
    by (simp add: generateRescheduleSuggestions_def generateBody_def split: json.splits)
  from handler bad good ext p1 p2 p3 generateRescheduleSuggestions_total [of outcome]
  show ?thesis by (intro conjI)
qed

theorem advisory_failure_witness:
  "find isTextBlock [OtherBlock, TextBlock proseReply] = Some (TextBlock proseReply) \<and>
   sampleParse (extractJson proseReply) = None \<and>
   rescheduleHandler True True sampleParse (Reply [OtherBlock, TextBlock proseReply]) =
     ServerError (''Claude response was not valid JSON. Received: '' @ proseReply @ ''...'') \<and>
   find isTextBlock [TextBlock fencedReply] = Some (TextBlock fencedReply) \<and>
   sampleParse (extractJson fencedReply) = Some (JArr [JNum 1]) \<and>
   rescheduleHandler True True sampleParse (Reply [TextBlock fencedReply]) =
     Suggestions (JArr [JNum 1])"
proof -
  have f1: "find isTextBlock [OtherBlock, TextBlock proseReply] = Some (TextBlock proseReply)"
    by simp
  have n1: "sampleParse (extractJson proseReply) = None"
    by (simp add: extractJson_prose sampleParse_def) (simp add: proseReply_def)
  have short: "take 200 proseReply = proseReply"
    by (simp add: proseReply_def)
  from advisory_failure [of sampleParse _ "[OtherBlock, TextBlock proseReply]" proseReply]
    f1 n1
  have r1: "rescheduleHandler True True sampleParse (Reply [OtherBlock, TextBlock proseReply]) =
     ServerError (''Claude response was not valid JSON. Received: '' @ proseReply @ ''...'')"
    by (simp add: short)
  have f2: "find isTextBlock [TextBlock fencedReply] = Some (TextBlock fencedReply)"
    by simp
  have n2: "sampleParse (extractJson fencedReply) = Some (JArr [JNum 1])"
    by (simp add: extractJson_fenced sampleParse_def)
  from advisory_failure [of sampleParse _ "[TextBlock fencedReply]" fencedReply "JArr [JNum 1]"]
    f2 n2
  have r2: "rescheduleHandler True True sampleParse (Reply [TextBlock fencedReply]) =
     Suggestions (JArr [JNum 1])"
    by simp
  from f1 n1 r1 f2 n2 r2 show ?thesis by (intro conjI)
qed

end
